theory Spec2Isabelle
  imports Complex_Main
begin

section \<open>The data model of the simulator (types.ts)\<close>

text \<open>
  JavaScript numbers are modelled by \<open>int\<close> wherever the engine only ever holds whole
  numbers (ticks, counters, slot counts) and by \<open>real\<close> for the two quantities that are
  fractions: the value returned by \<open>Math.random()\<close> and \<open>packetProb\<close>. The model is
  therefore about configurations whose numeric fields are whole numbers of a magnitude
  that a double represents exactly.
\<close>

datatype NodeType =
    IDLE | SENSING | BACKOFF | BACKOFF_PAUSED
  | TX_PREAMBLE | TX_FC | TX_DATA | WAIT_RIFS | RX_ACK
  | COLLISION | FAILED

datatype PacketGenMode = RANDOM | INTERVAL

record SimConfig =
  slotDurationUs :: int
  dataSlots :: int
  ackSlots :: int
  collisionPenalty :: int
  pe :: int
  minBe :: int
  maxBe :: int
  maxNb :: int
  nodeCount :: int
  packetGenMode :: PacketGenMode
  packetProb :: real
  packetInterval :: int
  simDuration :: int

datatype LogType = LOG_INFO | LOG_COLLISION | LOG_SUCCESS | LOG_DROP | LOG_VCS

record LogEntry =
  tick :: int
  nodeId :: int
  ltype :: LogType
  message :: string

record SimStats =
  totalPacketsGenerated :: int
  successCount :: int
  success1st :: int
  success2nd :: int
  success3rd :: int
  failureCount :: int
  collisionCount :: int
  totalLatency :: int
  maxQueueDepth :: int
  channelIdleTicks :: int
  channelTxTicks :: int
  channelCollisionTicks :: int
  channelBackoffTicks :: int

text \<open>
  A timeline cell as it is pushed: \<open>info\<close> is \<open>None\<close> where the source leaves it
  \<open>undefined\<close>.
\<close>

record TimelineCell =
  cell_state :: NodeType
  info :: "int option"
  isCollision :: bool

text \<open>
  The result object. \<open>timeline\<close> is the source's object keyed by node id: a partial map.
\<close>

record SimulationResult =
  timeline :: "int \<rightharpoonup> TimelineCell list"
  logs :: "LogEntry list"
  stats :: SimStats
  duration :: int

text \<open>
  The variables that \<open>runSimulation\<close> mutates while it runs are \<open>timeline\<close>, \<open>logs\<close> and
  \<open>stats\<close>. The engine also calls the global \<open>Math.random()\<close>: the model takes the
  sequence of values these calls return as a function \<open>rnd\<close> (the \<open>k\<close>-th call returns
  \<open>rnd k\<close>) and counts the calls made so far in \<open>draws\<close>.
\<close>

record RunState = SimulationResult +
  draws :: nat

section \<open>The class Node (services/simulator.ts)\<close>

text \<open>
  The field \<open>config\<close> of a node refers to the one configuration of the run; the model
  passes that configuration to every function instead of storing it in each node.
\<close>

record Node =
  node_id :: int
  state :: NodeType
  packetQueue :: "int list"
  vcs :: int
  nb :: int
  be :: int
  backoffCounter :: int
  txProgress :: int
  isCurrentTxDoomed :: bool

definition resetProtocolState :: "SimConfig \<Rightarrow> Node \<Rightarrow> Node" where
  "resetProtocolState cfg n = n\<lparr>nb := 0, be := minBe cfg, vcs := 0, backoffCounter := 0\<rparr>"

text \<open>\<open>Math.pow(2, e)\<close> for a whole number \<open>e\<close>.\<close>

definition pow2 :: "int \<Rightarrow> real" where
  "pow2 e = (if 0 \<le> e then 2 ^ nat e else 1 / 2 ^ nat (- e))"

text \<open>\<open>generateBackoff\<close>; \<open>r\<close> is the value that its call of \<open>Math.random()\<close> returns.\<close>

definition generateBackoff :: "SimConfig \<Rightarrow> real \<Rightarrow> Node \<Rightarrow> Node" where
  "generateBackoff cfg r n =
     (let mx = pow2 (be n) - 1
      in n\<lparr>backoffCounter := \<lfloor>r * (mx + 1)\<rfloor> + pe cfg\<rparr>)"

text \<open>
  The constructor. The field initialiser \<open>0 as any\<close> of \<open>isCurrentTxDoomed\<close> is falsy, and
  the flag is only ever tested for truthiness: it is \<open>False\<close> here.
\<close>

definition new_Node :: "int \<Rightarrow> SimConfig \<Rightarrow> Node" where
  "new_Node i cfg =
     resetProtocolState cfg
       \<lparr>node_id = i, state = IDLE, packetQueue = [], vcs = 0, nb = 0, be = 0,
        backoffCounter = 0, txProgress = 0, isCurrentTxDoomed = False\<rparr>"

section \<open>Template strings\<close>

text \<open>The decimal text that a template string gives for a whole number.\<close>

definition digit_char :: "nat \<Rightarrow> char" where
  "digit_char d = ''0123456789'' ! d"

function show_nat :: "nat \<Rightarrow> string" where
  "show_nat n = (if n < 10 then [digit_char n] else show_nat (n div 10) @ [digit_char (n mod 10)])"
  by pat_completeness auto
termination
  by (relation "measure (\<lambda>n. n)") auto

declare show_nat.simps [simp del]

definition show_int :: "int \<Rightarrow> string" where
  "show_int i = (if i < 0 then CHR ''-'' # show_nat (nat (- i)) else show_nat (nat i))"

section \<open>runSimulation\<close>

text \<open>
  The function \<open>runSimulation\<close> (services/simulator.ts, lines 41 to 338). Its loop body
  and the callbacks of its three traversals have no names in the source; they are named
  here after what they do, with the lines they embed.

  The local function \<open>log\<close> (lines 67 to 69), and the frame constants (lines 72 to 77).
\<close>

definition push_log :: "int \<Rightarrow> int \<Rightarrow> LogType \<Rightarrow> string \<Rightarrow> RunState \<Rightarrow> RunState" where
  "push_log t i ty msg rs =
     rs\<lparr>logs := logs rs @ [\<lparr>tick = t, nodeId = i, ltype = ty, message = msg\<rparr>]\<rparr>"

definition LEN_P :: int where "LEN_P = 1"
definition LEN_FC :: int where "LEN_FC = 1"
definition LEN_DATA :: "SimConfig \<Rightarrow> int" where "LEN_DATA cfg = dataSlots cfg"
definition LEN_RIFS :: int where "LEN_RIFS = 1"
definition LEN_ACK_P :: int where "LEN_ACK_P = 1"
definition LEN_ACK_FC :: int where "LEN_ACK_FC = 1"

text \<open>
  \<open>forEach\<close> over the nodes with a callback that mutates the node it is given and the
  variables of the enclosing function: the callback returns the node and those variables
  as it leaves them.
\<close>

fun forEach :: "('a \<Rightarrow> 's \<Rightarrow> 'a \<times> 's) \<Rightarrow> 'a list \<Rightarrow> 's \<Rightarrow> 'a list \<times> 's" where
  "forEach f [] s = ([], s)"
| "forEach f (x # xs) s =
     (case f x s of (x', s') \<Rightarrow>
        (case forEach f xs s' of (xs', s'') \<Rightarrow> (x' # xs', s'')))"

text \<open>The same where the callback can throw (\<open>None\<close>), which ends the whole run.\<close>

fun forEachM :: "('a \<Rightarrow> 's \<Rightarrow> ('a \<times> 's) option) \<Rightarrow> 'a list \<Rightarrow> 's \<Rightarrow> ('a list \<times> 's) option" where
  "forEachM f [] s = Some ([], s)"
| "forEachM f (x # xs) s =
     (case f x s of
        None \<Rightarrow> None
      | Some (x', s') \<Rightarrow>
          (case forEachM f xs s' of
             None \<Rightarrow> None
           | Some (xs', s'') \<Rightarrow> Some (x' # xs', s'')))"

subsection \<open>Phase 1: the physical channel\<close>

text \<open>
  The transmitters and the channel flags of a tick (lines 84 to 95), computed from the
  labels the nodes have when the tick starts, then the channel-utilization counters
  (lines 98 to 112).
\<close>

definition is_tx_state :: "NodeType \<Rightarrow> bool" where
  "is_tx_state s \<longleftrightarrow> s = TX_PREAMBLE \<or> s = TX_FC \<or> s = TX_DATA \<or> s = RX_ACK"

definition transmitters :: "Node list \<Rightarrow> Node list" where
  "transmitters ns = filter (\<lambda>n. is_tx_state (state n)) ns"

definition rifsWaiters :: "Node list \<Rightarrow> Node list" where
  "rifsWaiters ns = filter (\<lambda>n. state n = WAIT_RIFS) ns"

definition isPreambleActive :: "Node list \<Rightarrow> bool" where
  "isPreambleActive ns = list_ex (\<lambda>n. state n = TX_PREAMBLE) (transmitters ns)"

definition isFcActive :: "Node list \<Rightarrow> bool" where
  "isFcActive ns = list_ex (\<lambda>n. state n = TX_FC) (transmitters ns)"

definition physicalBusy :: "Node list \<Rightarrow> bool" where
  "physicalBusy ns \<longleftrightarrow> length (transmitters ns) > 0"

definition collisionOccurring :: "Node list \<Rightarrow> bool" where
  "collisionOccurring ns \<longleftrightarrow> length (transmitters ns) > 1"

definition channel_stats :: "Node list \<Rightarrow> SimStats \<Rightarrow> SimStats" where
  "channel_stats ns st =
     (if collisionOccurring ns then st\<lparr>channelCollisionTicks := channelCollisionTicks st + 1\<rparr>
      else if physicalBusy ns \<or> length (rifsWaiters ns) > 0
        then st\<lparr>channelTxTicks := channelTxTicks st + 1\<rparr>
      else
        (let backingOff = list_ex (\<lambda>n. state n = BACKOFF \<or> state n = BACKOFF_PAUSED) ns
         in if backingOff then st\<lparr>channelBackoffTicks := channelBackoffTicks st + 1\<rparr>
            else st\<lparr>channelIdleTicks := channelIdleTicks st + 1\<rparr>))"

text \<open>
  The callback of \<open>transmitters.forEach\<close> (lines 115 to 121). The array \<open>transmitters\<close> holds the very node
  objects of \<open>nodes\<close>, in the order of \<open>nodes\<close>: the model visits \<open>nodes\<close> and skips the
  nodes that are not transmitters.
\<close>

definition mark_doomed :: "int \<Rightarrow> Node \<Rightarrow> RunState \<Rightarrow> Node \<times> RunState" where
  "mark_doomed t n rs =
     (if is_tx_state (state n) \<and> \<not> isCurrentTxDoomed n then
        (n\<lparr>isCurrentTxDoomed := True\<rparr>,
         push_log t (node_id n) LOG_COLLISION ''Signal overlap detected''
           (rs\<lparr>stats := (stats rs)\<lparr>collisionCount := collisionCount (stats rs) + 1\<rparr>\<rparr>))
      else (n, rs))"

subsection \<open>Phase 2: virtual carrier sense\<close>

text \<open>
  The callback of the second \<open>nodes.forEach\<close> (lines 127 to 150). \<open>isTransmitting\<close> is membership of the node
  in \<open>transmitters\<close>, which was filtered from the labels the nodes still have here.
  \<open>nodesPreUpdate[idx].vcs\<close> is the value of \<open>n.vcs\<close> on entry.
\<close>

definition nav_update :: "SimConfig \<Rightarrow> int \<Rightarrow> bool \<Rightarrow> bool \<Rightarrow> bool \<Rightarrow> Node \<Rightarrow> RunState \<Rightarrow> Node \<times> RunState" where
  "nav_update cfg t preambleActive fcActive collision n rs =
     (let isTransmitting = is_tx_state (state n);
          vcsPre = vcs n
      in if \<not> isTransmitting then
           (let (n1, rs1) =
                  (if preambleActive then
                     (n\<lparr>vcs := max (vcs n) (collisionPenalty cfg)\<rparr>,
                      if vcsPre = 0
                      then push_log t (node_id n) LOG_VCS
                             (''Heard Preamble, VCS set to '' @ show_int (collisionPenalty cfg)) rs
                      else rs)
                   else (n, rs));
                (n2, rs2) =
                  (if fcActive \<and> \<not> collision then
                     (let durationRemaining = LEN_DATA cfg + LEN_RIFS + LEN_ACK_P + LEN_ACK_FC
                      in (n1\<lparr>vcs := durationRemaining\<rparr>,
                          push_log t (node_id n) LOG_VCS
                            (''Decoded FC, NAV set to '' @ show_int durationRemaining) rs1))
                   else (n1, rs1))
            in (if vcs n2 > 0 then n2\<lparr>vcs := vcs n2 - 1\<rparr> else n2, rs2))
         else (n, rs))"

subsection \<open>Phase 3: the state machine of one node\<close>

text \<open>
  Packet generation (lines 158 to 171). In \<open>RANDOM\<close> mode the test consumes one draw.
  \<open>t % config.packetInterval === 0\<close>: the remainder of a division by zero is \<open>NaN\<close>,
  which is not \<open>0\<close>; otherwise the remainder is zero exactly when the divisor divides \<open>t\<close>.
\<close>

definition rem_is_zero :: "int \<Rightarrow> int \<Rightarrow> bool" where
  "rem_is_zero t p \<longleftrightarrow> p \<noteq> 0 \<and> t mod p = 0"

definition shouldGenerate :: "SimConfig \<Rightarrow> (nat \<Rightarrow> real) \<Rightarrow> int \<Rightarrow> RunState \<Rightarrow> bool \<times> RunState" where
  "shouldGenerate cfg rnd t rs =
     (if packetGenMode cfg = INTERVAL then (rem_is_zero t (packetInterval cfg), rs)
      else (rnd (draws rs) < packetProb cfg, rs\<lparr>draws := Suc (draws rs)\<rparr>))"

definition packet_arrival :: "int \<Rightarrow> Node \<Rightarrow> RunState \<Rightarrow> Node \<times> RunState" where
  "packet_arrival t n rs =
     (let n' = n\<lparr>packetQueue := packetQueue n @ [t]\<rparr>;
          st = stats rs;
          st1 = st\<lparr>totalPacketsGenerated := totalPacketsGenerated st + 1\<rparr>;
          st2 = st1\<lparr>maxQueueDepth := max (maxQueueDepth st1) (int (length (packetQueue n')))\<rparr>
      in (n', push_log t (node_id n) LOG_INFO
                (''Packet generated (Queue: '' @ show_int (int (length (packetQueue n'))) @ '')'')
                (rs\<lparr>stats := st2\<rparr>)))"

text \<open>\<open>Array.prototype.shift\<close>: the first element (\<open>None\<close> for \<open>undefined\<close>) and the rest.\<close>

definition shift :: "'a list \<Rightarrow> 'a option \<times> 'a list" where
  "shift q = (case q of [] \<Rightarrow> (None, []) | x # q' \<Rightarrow> (Some x, q'))"

text \<open>
  The cases of the \<open>switch\<close>: \<open>IDLE\<close> (lines 174 to 179) and \<open>SENSING\<close> (lines 181 to
  196), where \<open>generateBackoff\<close> consumes one draw.
\<close>

definition case_IDLE :: "SimConfig \<Rightarrow> Node \<Rightarrow> Node" where
  "case_IDLE cfg n =
     (if length (packetQueue n) > 0 then resetProtocolState cfg (n\<lparr>state := SENSING\<rparr>) else n)"

definition case_SENSING :: "SimConfig \<Rightarrow> (nat \<Rightarrow> real) \<Rightarrow> int \<Rightarrow> bool \<Rightarrow> Node \<Rightarrow> RunState \<Rightarrow> Node \<times> RunState" where
  "case_SENSING cfg rnd t busy n rs =
     (if \<not> busy \<and> vcs n = 0 then
        (let n1 = generateBackoff cfg (rnd (draws rs)) n;
             rs1 = rs\<lparr>draws := Suc (draws rs)\<rparr>;
             rs2 = push_log t (node_id n) LOG_INFO
                     (''Start Backoff ('' @ show_int (backoffCounter n1) @ '')'') rs1
         in if backoffCounter n1 = 0
            then (n1\<lparr>state := TX_PREAMBLE, txProgress := 0, isCurrentTxDoomed := False\<rparr>, rs2)
            else (n1\<lparr>state := BACKOFF\<rparr>, rs2))
      else (n, rs))"

text \<open>
  The shared case of \<open>BACKOFF\<close> and \<open>BACKOFF_PAUSED\<close> (lines 198 to 226). It is the only case that writes to
  the working cell, a pair of the cell's state and its \<open>info\<close>.
\<close>

definition case_BACKOFF :: "int \<Rightarrow> bool \<Rightarrow> Node \<Rightarrow> NodeType \<times> int option \<Rightarrow> RunState
    \<Rightarrow> Node \<times> (NodeType \<times> int option) \<times> RunState" where
  "case_BACKOFF t busy n cell rs =
     (let channelFree = \<not> busy \<and> vcs n = 0
      in if channelFree then
           (let n1 = n\<lparr>state := BACKOFF\<rparr>;
                cell1 = (BACKOFF, Some (backoffCounter n1))
            in if backoffCounter n1 > 1
               then (n1\<lparr>backoffCounter := backoffCounter n1 - 1\<rparr>, cell1, rs)
               else (n1\<lparr>state := TX_PREAMBLE, txProgress := 0, isCurrentTxDoomed := False\<rparr>,
                     cell1,
                     push_log t (node_id n) LOG_INFO ''Backoff complete, transmitting'' rs))
         else (n\<lparr>state := BACKOFF_PAUSED\<rparr>, (fst cell, Some (backoffCounter n)), rs))"

text \<open>
  The four cases that only count slots (lines 228 to 258): \<open>txProgress++\<close>, and on reaching the length of the
  phase the next label with \<open>txProgress = 0\<close>.
\<close>

definition advance :: "int \<Rightarrow> NodeType \<Rightarrow> Node \<Rightarrow> Node" where
  "advance len nxt n =
     (let n1 = n\<lparr>txProgress := txProgress n + 1\<rparr>
      in if txProgress n1 \<ge> len then n1\<lparr>state := nxt, txProgress := 0\<rparr> else n1)"

text \<open>
  \<open>RX_ACK\<close> (lines 260 to 304): after the two slots of the acknowledgement, success if
  the transmission is not doomed, else a retry or, beyond \<open>maxNb\<close>, a drop. Then \<open>FAILED\<close>
  (lines 306 to 310).
\<close>

definition case_RX_ACK :: "SimConfig \<Rightarrow> int \<Rightarrow> Node \<Rightarrow> RunState \<Rightarrow> Node \<times> RunState" where
  "case_RX_ACK cfg t n rs =
     (let n1 = n\<lparr>txProgress := txProgress n + 1\<rparr>;
          ackDuration = LEN_ACK_P + LEN_ACK_FC
      in if txProgress n1 \<ge> ackDuration then
           (if \<not> isCurrentTxDoomed n1 then
              (let (birthTick, q) = shift (packetQueue n1);
                   n2 = n1\<lparr>packetQueue := q\<rparr>;
                   st = stats rs;
                   st1 = st\<lparr>successCount := successCount st + 1\<rparr>;
                   st2 = (case birthTick of
                            Some b \<Rightarrow> st1\<lparr>totalLatency := totalLatency st1 + (t - b)\<rparr>
                          | None \<Rightarrow> st1);
                   st3 = (if nb n2 = 0 then st2\<lparr>success1st := success1st st2 + 1\<rparr>
                          else if nb n2 = 1 then st2\<lparr>success2nd := success2nd st2 + 1\<rparr>
                          else st2\<lparr>success3rd := success3rd st2 + 1\<rparr>);
                   n3 = resetProtocolState cfg n2;
                   rs1 = push_log t (node_id n) LOG_SUCCESS ''ACK received, transaction complete''
                           (rs\<lparr>stats := st3\<rparr>)
               in (if length (packetQueue n3) > 0 then n3\<lparr>state := SENSING\<rparr>
                   else n3\<lparr>state := IDLE\<rparr>, rs1))
            else
              (let n2 = n1\<lparr>nb := nb n1 + 1\<rparr>
               in if nb n2 > maxNb cfg then
                    (let n3 = n2\<lparr>packetQueue := snd (shift (packetQueue n2))\<rparr>;
                         st = stats rs;
                         rs1 = rs\<lparr>stats := st\<lparr>failureCount := failureCount st + 1\<rparr>\<rparr>;
                         n4 = (resetProtocolState cfg n3)\<lparr>state := FAILED\<rparr>
                     in (n4, push_log t (node_id n) LOG_DROP
                               (''Max retries ('' @ show_int (maxNb cfg) @ '') reached. Dropping packet.'')
                               rs1))
                  else
                    (let n3 = n2\<lparr>be := min (be n2 + 1) (maxBe cfg)\<rparr>;
                         n4 = n3\<lparr>vcs := 0, backoffCounter := 0, state := SENSING\<rparr>
                     in (n4, push_log t (node_id n) LOG_COLLISION
                               (''No ACK. Retrying (NB='' @ show_int (nb n4) @ '', BE=''
                                  @ show_int (be n4) @ '')'')
                               rs))))
         else (n1, rs))"

definition case_FAILED :: "Node \<Rightarrow> Node" where
  "case_FAILED n =
     (if length (packetQueue n) > 0 then n\<lparr>state := SENSING\<rparr> else n\<lparr>state := IDLE\<rparr>)"

text \<open>
  The \<open>switch\<close> on the label of the node (lines 173 to 314). \<open>cell\<close> is the working
  cell: its state and its \<open>info\<close>.
\<close>

definition transition :: "SimConfig \<Rightarrow> (nat \<Rightarrow> real) \<Rightarrow> int \<Rightarrow> bool \<Rightarrow> Node \<Rightarrow> NodeType \<times> int option
    \<Rightarrow> RunState \<Rightarrow> Node \<times> (NodeType \<times> int option) \<times> RunState" where
  "transition cfg rnd t busy n cell rs =
     (case state n of
        IDLE \<Rightarrow> (case_IDLE cfg n, cell, rs)
      | SENSING \<Rightarrow> (case case_SENSING cfg rnd t busy n rs of (n', rs') \<Rightarrow> (n', cell, rs'))
      | BACKOFF \<Rightarrow> case_BACKOFF t busy n cell rs
      | BACKOFF_PAUSED \<Rightarrow> case_BACKOFF t busy n cell rs
      | TX_PREAMBLE \<Rightarrow> (advance LEN_P TX_FC n, cell, rs)
      | TX_FC \<Rightarrow> (advance LEN_FC TX_DATA n, cell, rs)
      | TX_DATA \<Rightarrow> (advance (LEN_DATA cfg) WAIT_RIFS n, cell, rs)
      | WAIT_RIFS \<Rightarrow> (advance LEN_RIFS RX_ACK n, cell, rs)
      | RX_ACK \<Rightarrow> (case case_RX_ACK cfg t n rs of (n', rs') \<Rightarrow> (n', cell, rs'))
      | FAILED \<Rightarrow> (case_FAILED n, cell, rs)
      | COLLISION \<Rightarrow> (n, cell, rs))"

text \<open>
  \<open>timeline[n.id].push(cell)\<close> (lines 329 to 333). Where the timeline has no row for the id, the source
  calls a method of \<open>undefined\<close>, which throws a \<open>TypeError\<close>: \<open>None\<close>.
\<close>

definition timeline_push :: "int \<Rightarrow> TimelineCell \<Rightarrow> RunState \<Rightarrow> RunState option" where
  "timeline_push i c rs =
     (case timeline rs i of
        None \<Rightarrow> None
      | Some row \<Rightarrow> Some (rs\<lparr>timeline := (timeline rs)(i \<mapsto> row @ [c])\<rparr>))"

text \<open>The cell that is pushed (lines 317 to 327 and 329 to 333).\<close>

definition visual_cell :: "bool \<Rightarrow> NodeType \<times> int option \<Rightarrow> TimelineCell" where
  "visual_cell collision cell =
     (let visualState = fst cell;
          isTxState = is_tx_state visualState
      in if isTxState \<and> collision
         then \<lparr>cell_state = COLLISION, info = snd cell, isCollision = True\<rparr>
         else \<lparr>cell_state = visualState, info = snd cell, isCollision = False\<rparr>)"

text \<open>
  The callback of the third \<open>nodes.forEach\<close> (lines 153 to 334). The working cell starts
  with the label the node has on entry.
\<close>

definition fsm_update :: "SimConfig \<Rightarrow> (nat \<Rightarrow> real) \<Rightarrow> int \<Rightarrow> bool \<Rightarrow> bool \<Rightarrow> Node \<Rightarrow> RunState
    \<Rightarrow> (Node \<times> RunState) option" where
  "fsm_update cfg rnd t busy collision n rs =
     (let cell = (state n, None);
          (gen, rs1) = shouldGenerate cfg rnd t rs;
          (n1, rs2) = (if gen then packet_arrival t n rs1 else (n, rs1));
          (n2, cell', rs3) = transition cfg rnd t busy n1 cell rs2
      in case timeline_push (node_id n) (visual_cell collision cell') rs3 of
           None \<Rightarrow> None
         | Some rs4 \<Rightarrow> Some (n2, rs4))"

subsection \<open>The loop over the ticks\<close>

text \<open>
  One iteration of the simulation loop (lines 80 to 335), for tick \<open>t\<close>, and the loop
  itself.
\<close>

definition loop_body :: "SimConfig \<Rightarrow> (nat \<Rightarrow> real) \<Rightarrow> int \<Rightarrow> Node list \<times> RunState
    \<Rightarrow> (Node list \<times> RunState) option" where
  "loop_body cfg rnd t s =
     (case s of (ns, rs) \<Rightarrow>
        (let preambleActive = isPreambleActive ns;
             fcActive = isFcActive ns;
             busy = physicalBusy ns;
             collision = collisionOccurring ns;
             rs1 = rs\<lparr>stats := channel_stats ns (stats rs)\<rparr>;
             (ns2, rs2) = (if collision then forEach (mark_doomed t) ns rs1 else (ns, rs1));
             (ns3, rs3) = forEach (nav_update cfg t preambleActive fcActive collision) ns2 rs2
         in forEachM (fsm_update cfg rnd t busy collision) ns3 rs3))"

function run_loop :: "SimConfig \<Rightarrow> (nat \<Rightarrow> real) \<Rightarrow> int \<Rightarrow> Node list \<times> RunState
    \<Rightarrow> (Node list \<times> RunState) option" where
  "run_loop cfg rnd t s =
     (if t < simDuration cfg then
        (case loop_body cfg rnd t s of
           None \<Rightarrow> None
         | Some s' \<Rightarrow> run_loop cfg rnd (t + 1) s')
      else Some s)"
  by pat_completeness auto
termination
  by (relation "measure (\<lambda>(cfg, rnd, t, s). nat (simDuration cfg - t))") auto

declare run_loop.simps [simp del]

text \<open>
  The nodes, the empty timeline rows and the zeroed statistics before the loop (lines 42
  to 65), and the function as a whole. \<open>None\<close> is a run that ends in an exception.
\<close>

definition init_nodes :: "SimConfig \<Rightarrow> Node list" where
  "init_nodes cfg = map (\<lambda>i. new_Node i cfg) [0..nodeCount cfg - 1]"

definition init_stats :: SimStats where
  "init_stats =
     \<lparr>totalPacketsGenerated = 0, successCount = 0, success1st = 0, success2nd = 0,
      success3rd = 0, failureCount = 0, collisionCount = 0, totalLatency = 0,
      maxQueueDepth = 0, channelIdleTicks = 0, channelTxTicks = 0,
      channelCollisionTicks = 0, channelBackoffTicks = 0\<rparr>"

definition init_state :: "SimConfig \<Rightarrow> Node list \<times> RunState" where
  "init_state cfg =
     (let ns = init_nodes cfg
      in (ns, \<lparr>timeline = fold (\<lambda>n tl. tl(node_id n \<mapsto> [])) ns Map.empty,
               logs = [], stats = init_stats, duration = simDuration cfg, draws = 0\<rparr>))"

definition runSimulation :: "SimConfig \<Rightarrow> (nat \<Rightarrow> real) \<Rightarrow> SimulationResult option" where
  "runSimulation cfg rnd =
     (case run_loop cfg rnd 0 (init_state cfg) of
        None \<Rightarrow> None
      | Some (ns, rs) \<Rightarrow>
          Some \<lparr>timeline = timeline rs, logs = logs rs, stats = stats rs,
                duration = simDuration cfg\<rparr>)"

section \<open>Notions used to state the properties\<close>

subsection \<open>Tick boundaries\<close>

text \<open>
  The state of a run at a tick boundary: \<open>ticks cfg rnd k s\<close> is the state after the
  iterations for the ticks \<open>0, \<dots>, k - 1\<close>, started in \<open>s\<close>. The loop of the source runs
  the ticks below \<open>simDuration\<close> (lemma \<open>run_loop_eq_ticks\<close>).
\<close>

fun ticks :: "SimConfig \<Rightarrow> (nat \<Rightarrow> real) \<Rightarrow> nat \<Rightarrow> Node list \<times> RunState \<Rightarrow> (Node list \<times> RunState) option" where
  "ticks cfg rnd 0 s = Some s"
| "ticks cfg rnd (Suc k) s =
     (case ticks cfg rnd k s of None \<Rightarrow> None | Some s' \<Rightarrow> loop_body cfg rnd (int k) s')"

text \<open>
  The first two phases of an iteration (channel statistics and collision marks, then
  carrier sense): \<open>perceive\<close> gives the nodes and variables with which the third phase,
  the state machine, starts (lemma \<open>loop_body_perceive\<close>). These phases change nothing of
  a node but its NAV and its doomed flag, which \<open>same_but_nav\<close> says.
\<close>

definition perceive :: "SimConfig \<Rightarrow> int \<Rightarrow> Node list \<Rightarrow> RunState \<Rightarrow> Node list \<times> RunState" where
  "perceive cfg t ns rs =
     (let rs1 = rs\<lparr>stats := channel_stats ns (stats rs)\<rparr>;
          (ns2, rs2) = (if collisionOccurring ns then forEach (mark_doomed t) ns rs1 else (ns, rs1))
      in forEach (nav_update cfg t (isPreambleActive ns) (isFcActive ns) (collisionOccurring ns)) ns2 rs2)"

definition same_but_nav :: "Node \<Rightarrow> Node \<Rightarrow> bool" where
  "same_but_nav x y \<longleftrightarrow>
     node_id y = node_id x \<and> state y = state x \<and> packetQueue y = packetQueue x
     \<and> nb y = nb x \<and> be y = be x \<and> backoffCounter y = backoffCounter x
     \<and> txProgress y = txProgress x"

text \<open>Every node has a row in the timeline, so that no push to the timeline throws.\<close>

definition rows_ok :: "Node list \<times> RunState \<Rightarrow> bool" where
  "rows_ok s \<longleftrightarrow> (\<forall>n \<in> set (fst s). timeline (snd s) (node_id n) \<noteq> None)"

subsection \<open>Counters\<close>

text \<open>
  The four channel-utilization counters, and the classification of a tick in the words of
  the specification, from the labels that the nodes have when the tick starts: \<open>bump\<close>
  increments the counter of a class.
\<close>

definition bins4 :: "SimStats \<Rightarrow> int \<times> int \<times> int \<times> int" where
  "bins4 st = (channelCollisionTicks st, channelTxTicks st, channelBackoffTicks st, channelIdleTicks st)"

datatype Bin = BinCollision | BinTx | BinBackoff | BinIdle

definition classify :: "Node list \<Rightarrow> Bin" where
  "classify ns =
     (let T = filter (\<lambda>n. state n \<in> {TX_PREAMBLE, TX_FC, TX_DATA, RX_ACK}) ns;
          W = filter (\<lambda>n. state n = WAIT_RIFS) ns
      in if length T > 1 then BinCollision
         else if length T > 0 \<or> length W > 0 then BinTx
         else if (\<exists>n \<in> set ns. state n = BACKOFF \<or> state n = BACKOFF_PAUSED) then BinBackoff
         else BinIdle)"

fun bump :: "Bin \<Rightarrow> int \<times> int \<times> int \<times> int \<Rightarrow> int \<times> int \<times> int \<times> int" where
  "bump BinCollision (c, x, b, i) = (c + 1, x, b, i)"
| "bump BinTx (c, x, b, i) = (c, x + 1, b, i)"
| "bump BinBackoff (c, x, b, i) = (c, x, b + 1, i)"
| "bump BinIdle (c, x, b, i) = (c, x, b, i + 1)"

text \<open>
  The success counters. \<open>completes_ok n\<close>: the call of the state machine for \<open>n\<close> is the one
  that ends its acknowledgement, and the transmission is not doomed. \<open>credit k\<close> increments
  \<open>successCount\<close> and the bucket of the retry count \<open>k\<close>.
\<close>

definition succ4 :: "SimStats \<Rightarrow> int \<times> int \<times> int \<times> int" where
  "succ4 st = (successCount st, success1st st, success2nd st, success3rd st)"

definition completes_ok :: "Node \<Rightarrow> bool" where
  "completes_ok n \<longleftrightarrow>
     state n = RX_ACK \<and> txProgress n + 1 \<ge> LEN_ACK_P + LEN_ACK_FC \<and> \<not> isCurrentTxDoomed n"

definition credit :: "int \<Rightarrow> int \<times> int \<times> int \<times> int \<Rightarrow> int \<times> int \<times> int \<times> int" where
  "credit k v =
     (case v of (sc, s1, s2, s3) \<Rightarrow>
        if k = 0 then (sc + 1, s1 + 1, s2, s3)
        else if k = 1 then (sc + 1, s1, s2 + 1, s3)
        else (sc + 1, s1, s2, s3 + 1))"

definition buckets_ok :: "SimStats \<Rightarrow> bool" where
  "buckets_ok st \<longleftrightarrow> success1st st + success2nd st + success3rd st = successCount st"

subsection \<open>Invariants of nodes and timeline cells\<close>

text \<open>
  A node that is neither idle nor failed holds a packet; a node that backs off has a
  counter of at least \<open>1\<close>; a timeline cell that shows a backoff carries an \<open>info\<close> of at
  least \<open>1\<close>.
\<close>

definition queue_inv :: "Node \<Rightarrow> bool" where
  "queue_inv n \<longleftrightarrow> (state n \<noteq> IDLE \<and> state n \<noteq> FAILED \<longrightarrow> packetQueue n \<noteq> [])"

definition backoff_inv :: "Node \<Rightarrow> bool" where
  "backoff_inv n \<longleftrightarrow> (state n = BACKOFF \<or> state n = BACKOFF_PAUSED \<longrightarrow> 1 \<le> backoffCounter n)"

definition cell_ok :: "TimelineCell \<Rightarrow> bool" where
  "cell_ok c \<longleftrightarrow>
     (cell_state c = BACKOFF \<or> cell_state c = BACKOFF_PAUSED \<longrightarrow> (\<exists>v. info c = Some v \<and> 1 \<le> v))"

definition cells_ok :: "(int \<rightharpoonup> TimelineCell list) \<Rightarrow> bool" where
  "cells_ok tml \<longleftrightarrow> (\<forall>i row. tml i = Some row \<longrightarrow> (\<forall>c \<in> set row. cell_ok c))"

subsection \<open>Random draws\<close>

text \<open>
  \<open>Math.random()\<close> returns values in \<open>[0, 1)\<close>. \<open>draws_used\<close> is the number of calls a run
  makes; \<open>agree rnd rnd' lo hi\<close> says that two sequences of draws have the same values at
  the positions from \<open>lo\<close> up to \<open>hi\<close> (excluded). \<open>first_backoff\<close> is the first backoff of
  a run in \<open>INTERVAL\<close> mode: the draw \<open>\<lfloor>r * 2 ^ minBe\<rfloor>\<close> for the first value \<open>r\<close>, plus \<open>pe\<close>.
\<close>

definition is_random :: "(nat \<Rightarrow> real) \<Rightarrow> bool" where
  "is_random rnd \<longleftrightarrow> (\<forall>k. 0 \<le> rnd k \<and> rnd k < 1)"

definition draws_used :: "SimConfig \<Rightarrow> (nat \<Rightarrow> real) \<Rightarrow> nat" where
  "draws_used cfg rnd =
     (case run_loop cfg rnd 0 (init_state cfg) of None \<Rightarrow> 0 | Some (ns, rs) \<Rightarrow> draws rs)"

definition agree :: "(nat \<Rightarrow> real) \<Rightarrow> (nat \<Rightarrow> real) \<Rightarrow> nat \<Rightarrow> nat \<Rightarrow> bool" where
  "agree rnd rnd' lo hi \<longleftrightarrow> (\<forall>k. lo \<le> k \<and> k < hi \<longrightarrow> rnd' k = rnd k)"

definition first_backoff :: "SimConfig \<Rightarrow> (nat \<Rightarrow> real) \<Rightarrow> int" where
  "first_backoff cfg rnd = \<lfloor>rnd 0 * (pow2 (minBe cfg) - 1 + 1)\<rfloor> + pe cfg"

text \<open>
  The calls of \<open>Math.random()\<close> in one tick. The arrival test makes one call for every node
  in \<open>RANDOM\<close> mode (line 163) and none in \<open>INTERVAL\<close> mode; \<open>generateBackoff\<close> (line 37)
  makes one call for a node that is in \<open>SENSING\<close> and finds the channel free (line 183).
  \<open>tick_draws\<close> counts both over the nodes as the state machine of the tick finds them.
\<close>

definition arrival_draws :: "SimConfig \<Rightarrow> nat" where
  "arrival_draws cfg = (if packetGenMode cfg = INTERVAL then 0 else 1)"

definition backoff_draws :: "bool \<Rightarrow> Node \<Rightarrow> nat" where
  "backoff_draws busy n = (if state n = SENSING \<and> \<not> busy \<and> vcs n = 0 then 1 else 0)"

definition tick_draws :: "SimConfig \<Rightarrow> int \<Rightarrow> Node list \<Rightarrow> RunState \<Rightarrow> nat" where
  "tick_draws cfg t ns rs =
     sum_list (map (\<lambda>n. arrival_draws cfg + backoff_draws (physicalBusy ns) n)
                   (fst (perceive cfg t ns rs)))"

subsection \<open>Successive runs (App.tsx)\<close>

text \<open>
  \<open>handleRun\<close> (App.tsx, lines 32 to 41) is the one caller of \<open>runSimulation\<close>: every press
  of Run calls \<open>runSimulation(config)\<close>. The calls of \<open>Math.random()\<close> of all runs go to the
  one generator of the page, and no statement of the program seeds or resets it. With
  \<open>rnd\<close> the sequence of the values that this generator returns, a run that starts after
  \<open>d\<close> calls reads the sequence from position \<open>d\<close>. \<open>handleRun\<close> gives the result of that run
  and the number of calls made when it ends.
\<close>

definition handleRun :: "SimConfig \<Rightarrow> (nat \<Rightarrow> real) \<Rightarrow> nat \<Rightarrow> SimulationResult option \<times> nat" where
  "handleRun cfg rnd d =
     (let random = (\<lambda>k. rnd (d + k))
      in (runSimulation cfg random, d + draws_used cfg random))"

subsection \<open>Carrier sense in the words of the specification\<close>

text \<open>
  The new NAV of a node that is not a transmitter (rules 1 to 3 of the specification),
  and the log entries the step emits for a node.
\<close>

definition nav_next :: "SimConfig \<Rightarrow> bool \<Rightarrow> bool \<Rightarrow> bool \<Rightarrow> int \<Rightarrow> int" where
  "nav_next cfg preambleActive fcActive collision nav =
     (let nav1 = (if preambleActive then max nav (collisionPenalty cfg) else nav);
          nav2 = (if fcActive \<and> \<not> collision then dataSlots cfg + 3 else nav1)
      in if nav2 > 0 then nav2 - 1 else nav2)"

definition nav_logs :: "SimConfig \<Rightarrow> int \<Rightarrow> bool \<Rightarrow> bool \<Rightarrow> bool \<Rightarrow> Node \<Rightarrow> LogEntry list" where
  "nav_logs cfg t preambleActive fcActive collision n =
     (if is_tx_state (state n) then []
      else (if preambleActive \<and> vcs n = 0
            then [\<lparr>tick = t, nodeId = node_id n, ltype = LOG_VCS,
                   message = ''Heard Preamble, VCS set to '' @ show_int (collisionPenalty cfg)\<rparr>]
            else [])
         @ (if fcActive \<and> \<not> collision
            then [\<lparr>tick = t, nodeId = node_id n, ltype = LOG_VCS,
                   message = ''Decoded FC, NAV set to '' @ show_int (dataSlots cfg + 3)\<rparr>]
            else []))"

subsection \<open>A single node at work on its first packet\<close>

text \<open>
  \<open>lone cfg lbl bc tp d s\<close>: the state \<open>s\<close> has one node, with label \<open>lbl\<close>, backoff counter
  \<open>bc\<close> and progress \<open>tp\<close>, after \<open>d\<close> draws; the packet born in tick 0 is at the head of its
  queue, its NAV is \<open>0\<close>, nothing has collided and nothing has succeeded yet.
\<close>

definition lone :: "SimConfig \<Rightarrow> NodeType \<Rightarrow> int \<Rightarrow> int \<Rightarrow> nat \<Rightarrow> Node list \<times> RunState \<Rightarrow> bool" where
  "lone cfg lbl bc tp d s \<longleftrightarrow>
     (\<exists>n rs q. s = ([n], rs) \<and> state n = lbl \<and> backoffCounter n = bc \<and> txProgress n = tp
        \<and> draws rs = d \<and> vcs n = 0 \<and> nb n = 0 \<and> be n = minBe cfg \<and> \<not> isCurrentTxDoomed n
        \<and> packetQueue n = 0 # q \<and> timeline rs (node_id n) \<noteq> None
        \<and> successCount (stats rs) = 0 \<and> success1st (stats rs) = 0
        \<and> totalLatency (stats rs) = 0)"

subsection \<open>Concrete inputs\<close>

text \<open>
  The default configuration of the application (App.tsx), and the configurations of the
  scenarios 1 (\<open>cfg_trivial\<close>), 2 (\<open>cfg_single\<close>) and 3 (\<open>cfg_lockstep\<close>) of the
  specification, with \<open>collisionPenalty\<close> and \<open>maxNb\<close> of the default where a scenario
  leaves them open.
\<close>

definition DEFAULT_CONFIG :: SimConfig where
  "DEFAULT_CONFIG =
     \<lparr>slotDurationUs = 500, dataSlots = 10, ackSlots = 2, collisionPenalty = 40, pe = 2,
      minBe = 3, maxBe = 5, maxNb = 4, nodeCount = 4, packetGenMode = INTERVAL,
      packetProb = 1 / 100, packetInterval = 100, simDuration = 500\<rparr>"

definition cfg_trivial :: SimConfig where
  "cfg_trivial =
     \<lparr>slotDurationUs = 500, dataSlots = 10, ackSlots = 2, collisionPenalty = 40, pe = 2,
      minBe = 0, maxBe = 0, maxNb = 4, nodeCount = 1, packetGenMode = INTERVAL,
      packetProb = 1 / 100, packetInterval = 100, simDuration = 10\<rparr>"

definition cfg_single :: SimConfig where
  "cfg_single =
     \<lparr>slotDurationUs = 500, dataSlots = 10, ackSlots = 2, collisionPenalty = 40, pe = 0,
      minBe = 0, maxBe = 0, maxNb = 4, nodeCount = 1, packetGenMode = INTERVAL,
      packetProb = 1 / 100, packetInterval = 100, simDuration = 50\<rparr>"

definition cfg_lockstep :: SimConfig where
  "cfg_lockstep =
     \<lparr>slotDurationUs = 500, dataSlots = 3, ackSlots = 2, collisionPenalty = 40, pe = 0,
      minBe = 0, maxBe = 0, maxNb = 0, nodeCount = 2, packetGenMode = INTERVAL,
      packetProb = 1 / 100, packetInterval = 1000, simDuration = 40\<rparr>"

text \<open>
  Two nodes that draw the backoffs \<open>0\<close> and \<open>1\<close> (\<open>rnd_pause\<close>): the second is paused while
  the first transmits. And a single node in \<open>RANDOM\<close> mode.
\<close>

definition cfg_pause :: SimConfig where
  "cfg_pause =
     \<lparr>slotDurationUs = 500, dataSlots = 1, ackSlots = 2, collisionPenalty = 0, pe = 0,
      minBe = 1, maxBe = 1, maxNb = 0, nodeCount = 2, packetGenMode = INTERVAL,
      packetProb = 0, packetInterval = 1000, simDuration = 12\<rparr>"

definition rnd_pause :: "nat \<Rightarrow> real" where
  "rnd_pause k = (if k = 0 then 0 else 1 / 2)"

definition cfg_random :: SimConfig where
  "cfg_random =
     \<lparr>slotDurationUs = 500, dataSlots = 10, ackSlots = 2, collisionPenalty = 40, pe = 2,
      minBe = 3, maxBe = 5, maxNb = 4, nodeCount = 1, packetGenMode = RANDOM,
      packetProb = 1 / 2, packetInterval = 100, simDuration = 2\<rparr>"

text \<open>
  Sequences of draws: all \<open>0\<close>; the values \<open>0\<close>, \<open>3/4\<close>, \<open>1/4\<close> over and over; and \<open>0\<close> for
  the first three draws and \<open>1/2\<close> from there on.
\<close>

definition rnd_zero :: "nat \<Rightarrow> real" where
  "rnd_zero k = 0"

definition rnd_cycle :: "nat \<Rightarrow> real" where
  "rnd_cycle k = (if k mod 3 = 0 then 0 else if k mod 3 = 1 then 3 / 4 else 1 / 4)"

definition rnd_late :: "nat \<Rightarrow> real" where
  "rnd_late k = (if k < 3 then 0 else 1 / 2)"

text \<open>
  Single nodes in given labels, and variables of a run with one empty timeline row, on
  which single callbacks are evaluated.
\<close>

definition ack_node :: Node where
  "ack_node =
     \<lparr>node_id = 0, state = RX_ACK, packetQueue = [0], vcs = 0, nb = 0, be = 3,
      backoffCounter = 0, txProgress = 1, isCurrentTxDoomed = False\<rparr>"

definition preamble_node :: Node where
  "preamble_node =
     \<lparr>node_id = 0, state = TX_PREAMBLE, packetQueue = [0], vcs = 0, nb = 0, be = 3,
      backoffCounter = 0, txProgress = 0, isCurrentTxDoomed = False\<rparr>"

definition fc_node :: Node where
  "fc_node =
     \<lparr>node_id = 0, state = TX_FC, packetQueue = [0], vcs = 0, nb = 0, be = 3,
      backoffCounter = 0, txProgress = 0, isCurrentTxDoomed = False\<rparr>"

definition listener_node :: Node where
  "listener_node =
     \<lparr>node_id = 1, state = BACKOFF, packetQueue = [0], vcs = 0, nb = 0, be = 3,
      backoffCounter = 5, txProgress = 0, isCurrentTxDoomed = False\<rparr>"

definition one_row :: RunState where
  "one_row =
     \<lparr>timeline = [0 \<mapsto> []], logs = [], stats = init_stats, duration = 500, draws = 0\<rparr>"

section \<open>Lemmas about the loop and its callbacks\<close>

subsection \<open>Traversals of the nodes\<close>

lemma forEach_rule:
  assumes "forEach f xs s = (ys, s')" and "I s"
    and "\<And>x t y t'. x \<in> set xs \<Longrightarrow> I t \<Longrightarrow> f x t = (y, t') \<Longrightarrow> I t' \<and> R x y"
  shows "I s' \<and> list_all2 R xs ys"
  using assms
proof (induction xs arbitrary: s ys s')
  case Nil
  then show ?case by simp
next
  case (Cons x xs)
  obtain y t where fx: "f x s = (y, t)" by (cases "f x s")
  obtain zs u where rest: "forEach f xs t = (zs, u)" by (cases "forEach f xs t")
  from Cons.prems(1) fx rest have ys: "ys = y # zs" and u: "s' = u" by simp_all
  from Cons.prems(3)[of x s y t] Cons.prems(2) fx have It: "I t" and Rxy: "R x y" by simp_all
  have "I u \<and> list_all2 R xs zs"
    by (rule Cons.IH[OF rest It]) (use Cons.prems(3) in auto)
  with ys u Rxy show ?case by simp
qed

lemma forEachM_rule:
  assumes "forEachM f xs s = Some (ys, s')" and "I s"
    and "\<And>x t y t'. x \<in> set xs \<Longrightarrow> I t \<Longrightarrow> f x t = Some (y, t') \<Longrightarrow> I t' \<and> R x y"
  shows "I s' \<and> list_all2 R xs ys"
  using assms
proof (induction xs arbitrary: s ys s')
  case Nil
  then show ?case by simp
next
  case (Cons x xs)
  from Cons.prems(1) obtain y t where fx: "f x s = Some (y, t)"
    by (cases "f x s") auto
  from Cons.prems(1) fx obtain zs u where rest: "forEachM f xs t = Some (zs, u)"
    by (cases "forEachM f xs t") auto
  from Cons.prems(1) fx rest have ys: "ys = y # zs" and u: "s' = u" by simp_all
  from Cons.prems(3)[of x s y t] Cons.prems(2) fx have It: "I t" and Rxy: "R x y" by simp_all
  have "I u \<and> list_all2 R xs zs"
    by (rule Cons.IH[OF rest It]) (use Cons.prems(3) in auto)
  with ys u Rxy show ?case by simp
qed

lemma forEachM_total:
  assumes "I s"
    and "\<And>x t. x \<in> set xs \<Longrightarrow> I t \<Longrightarrow> \<exists>y t'. f x t = Some (y, t') \<and> I t'"
  shows "\<exists>ys s'. forEachM f xs s = Some (ys, s') \<and> I s'"
  using assms
proof (induction xs arbitrary: s)
  case Nil
  then show ?case by simp
next
  case (Cons x xs)
  from Cons.prems(2)[of x s] Cons.prems(1) obtain y t where fx: "f x s = Some (y, t)" and It: "I t"
    by auto
  have "\<exists>ys s'. forEachM f xs t = Some (ys, s') \<and> I s'"
    by (rule Cons.IH[OF It]) (use Cons.prems(2) in auto)
  then obtain zs u where "forEachM f xs t = Some (zs, u)" and "I u" by auto
  with fx show ?case by simp
qed

subsection \<open>The loop runs the ticks in order\<close>

lemma ticks_None: "ticks cfg rnd k s = None \<Longrightarrow> ticks cfg rnd (k + j) s = None"
  by (induction j) auto

lemma run_loop_ticks:
  "k \<le> nat (simDuration cfg) \<Longrightarrow> ticks cfg rnd k s = Some s'
   \<Longrightarrow> run_loop cfg rnd (int k) s' = ticks cfg rnd (nat (simDuration cfg)) s"
proof (induction "nat (simDuration cfg) - k" arbitrary: k s')
  case 0
  then have "k = nat (simDuration cfg)" by simp
  with 0 show ?case by (simp add: run_loop.simps)
next
  case (Suc d)
  then have lt: "int k < simDuration cfg" by linarith
  show ?case
  proof (cases "loop_body cfg rnd (int k) s'")
    case None
    with Suc.prems have "ticks cfg rnd (Suc k) s = None" by simp
    from ticks_None[OF this, of "nat (simDuration cfg) - Suc k"] lt
    have "ticks cfg rnd (nat (simDuration cfg)) s = None" by simp
    with None lt show ?thesis by (simp add: run_loop.simps[of cfg rnd "int k"])
  next
    case (Some s'')
    with Suc.prems have t: "ticks cfg rnd (Suc k) s = Some s''" by simp
    have "run_loop cfg rnd (int (Suc k)) s'' = ticks cfg rnd (nat (simDuration cfg)) s"
      by (rule Suc.hyps(1)[OF _ _ t]) (use Suc.hyps(2) lt in auto)
    with Some lt show ?thesis
      by (simp add: run_loop.simps[of cfg rnd "int k"] add.commute)
  qed
qed

lemma run_loop_eq_ticks: "run_loop cfg rnd 0 s = ticks cfg rnd (nat (simDuration cfg)) s"
  using run_loop_ticks[of 0 cfg rnd s s] by simp

subsection \<open>One channel counter per tick\<close>

lemma push_log_fields [simp]:
  "stats (push_log t i ty m rs) = stats rs"
  "timeline (push_log t i ty m rs) = timeline rs"
  "draws (push_log t i ty m rs) = draws rs"
  "logs (push_log t i ty m rs) = logs rs @ [\<lparr>tick = t, nodeId = i, ltype = ty, message = m\<rparr>]"
  by (simp_all add: push_log_def)

lemma mark_doomed_bins: "mark_doomed t n rs = (n', rs') \<Longrightarrow> bins4 (stats rs') = bins4 (stats rs)"
  by (auto simp: mark_doomed_def bins4_def split: if_splits)

lemma nav_update_stats: "nav_update cfg t p f c n rs = (n', rs') \<Longrightarrow> stats rs' = stats rs"
  by (auto simp: nav_update_def Let_def split: if_splits)

lemma shouldGenerate_stats: "shouldGenerate cfg rnd t rs = (g, rs') \<Longrightarrow> stats rs' = stats rs"
  by (auto simp: shouldGenerate_def split: if_splits)

lemma packet_arrival_bins: "packet_arrival t n rs = (n', rs') \<Longrightarrow> bins4 (stats rs') = bins4 (stats rs)"
  by (auto simp: packet_arrival_def Let_def bins4_def)

lemma case_SENSING_stats: "case_SENSING cfg rnd t b n rs = (n', rs') \<Longrightarrow> stats rs' = stats rs"
  by (auto simp: case_SENSING_def Let_def split: if_splits)

lemma case_BACKOFF_stats: "case_BACKOFF t b n c rs = (n', c', rs') \<Longrightarrow> stats rs' = stats rs"
  by (auto simp: case_BACKOFF_def Let_def split: if_splits)

lemma case_RX_ACK_bins: "case_RX_ACK cfg t n rs = (n', rs') \<Longrightarrow> bins4 (stats rs') = bins4 (stats rs)"
  by (auto simp: case_RX_ACK_def Let_def bins4_def split: if_splits prod.splits option.splits)

lemma transition_bins: "transition cfg rnd t b n c rs = (n', c', rs') \<Longrightarrow> bins4 (stats rs') = bins4 (stats rs)"
  by (auto simp: transition_def split: NodeType.splits prod.splits
      dest: case_SENSING_stats case_BACKOFF_stats case_RX_ACK_bins)

lemma timeline_push_stats: "timeline_push i c rs = Some rs' \<Longrightarrow> stats rs' = stats rs"
  by (auto simp: timeline_push_def split: option.splits)

lemma fsm_update_bins:
  assumes "fsm_update cfg rnd t b c n rs = Some (n', rs')"
  shows "bins4 (stats rs') = bins4 (stats rs)"
proof -
  obtain g rs1 where g: "shouldGenerate cfg rnd t rs = (g, rs1)" by (cases "shouldGenerate cfg rnd t rs")
  obtain n1 rs2 where a: "(if g then packet_arrival t n rs1 else (n, rs1)) = (n1, rs2)"
    by (cases "if g then packet_arrival t n rs1 else (n, rs1)")
  obtain n2 c2 rs3 where tr: "transition cfg rnd t b n1 (state n, None) rs2 = (n2, c2, rs3)"
    by (cases "transition cfg rnd t b n1 (state n, None) rs2")
  from assms g a tr have p: "timeline_push (node_id n) (visual_cell c c2) rs3 = Some rs'"
    by (auto simp: fsm_update_def Let_def split: option.splits)
  have "bins4 (stats rs2) = bins4 (stats rs1)"
    using a packet_arrival_bins by (auto split: if_splits)
  with shouldGenerate_stats[OF g] transition_bins[OF tr] timeline_push_stats[OF p]
  show ?thesis by simp
qed

lemma fsm_update_SomeE:
  assumes "fsm_update cfg rnd t b c n rs = Some (n', rs')"
  obtains g rs1 n1 rs2 c2 rs3 where
    "shouldGenerate cfg rnd t rs = (g, rs1)"
    "(if g then packet_arrival t n rs1 else (n, rs1)) = (n1, rs2)"
    "transition cfg rnd t b n1 (state n, None) rs2 = (n', c2, rs3)"
    "timeline_push (node_id n) (visual_cell c c2) rs3 = Some rs'"
proof -
  obtain g rs1 where g: "shouldGenerate cfg rnd t rs = (g, rs1)" by (cases "shouldGenerate cfg rnd t rs")
  obtain n1 rs2 where a: "(if g then packet_arrival t n rs1 else (n, rs1)) = (n1, rs2)"
    by (cases "if g then packet_arrival t n rs1 else (n, rs1)")
  obtain n2 c2 rs3 where tr: "transition cfg rnd t b n1 (state n, None) rs2 = (n2, c2, rs3)"
    by (cases "transition cfg rnd t b n1 (state n, None) rs2")
  from assms g a tr have "timeline_push (node_id n) (visual_cell c c2) rs3 = Some rs' \<and> n2 = n'"
    by (auto simp: fsm_update_def Let_def split: option.splits)
  with g a tr that show thesis by blast
qed

lemma loop_body_SomeE:
  assumes "loop_body cfg rnd t (ns, rs) = Some (ns', rs')"
  obtains ns2 rs2 ns3 rs3 where
    "(if collisionOccurring ns then forEach (mark_doomed t) ns (rs\<lparr>stats := channel_stats ns (stats rs)\<rparr>)
      else (ns, rs\<lparr>stats := channel_stats ns (stats rs)\<rparr>)) = (ns2, rs2)"
    "forEach (nav_update cfg t (isPreambleActive ns) (isFcActive ns) (collisionOccurring ns)) ns2 rs2 = (ns3, rs3)"
    "forEachM (fsm_update cfg rnd t (physicalBusy ns) (collisionOccurring ns)) ns3 rs3 = Some (ns', rs')"
proof -
  let ?rs1 = "rs\<lparr>stats := channel_stats ns (stats rs)\<rparr>"
  obtain ns2 rs2 where a: "(if collisionOccurring ns then forEach (mark_doomed t) ns ?rs1 else (ns, ?rs1)) = (ns2, rs2)"
    by (cases "if collisionOccurring ns then forEach (mark_doomed t) ns ?rs1 else (ns, ?rs1)")
  obtain ns3 rs3 where b: "forEach (nav_update cfg t (isPreambleActive ns) (isFcActive ns) (collisionOccurring ns)) ns2 rs2 = (ns3, rs3)"
    by (cases "forEach (nav_update cfg t (isPreambleActive ns) (isFcActive ns) (collisionOccurring ns)) ns2 rs2")
  from assms a b have "forEachM (fsm_update cfg rnd t (physicalBusy ns) (collisionOccurring ns)) ns3 rs3 = Some (ns', rs')"
    by (simp add: loop_body_def Let_def)
  with a b that show thesis by blast
qed

lemma channel_stats_bins: "bins4 (channel_stats ns st) = bump (classify ns) (bins4 st)"
  by (auto simp: channel_stats_def classify_def bins4_def Let_def collisionOccurring_def
      physicalBusy_def transmitters_def rifsWaiters_def is_tx_state_def list_ex_iff)

lemma forEach_state:
  assumes "forEach f xs s = (ys, s')" and "I s"
    and "\<And>x t y t'. I t \<Longrightarrow> f x t = (y, t') \<Longrightarrow> I t'"
  shows "I s'"
  using forEach_rule[OF assms(1), where I = I and R = "\<lambda>_ _. True"] assms(2,3) by blast

lemma forEachM_state:
  assumes "forEachM f xs s = Some (ys, s')" and "I s"
    and "\<And>x t y t'. I t \<Longrightarrow> f x t = Some (y, t') \<Longrightarrow> I t'"
  shows "I s'"
  using forEachM_rule[OF assms(1), where I = I and R = "\<lambda>_ _. True"] assms(2,3) by blast

lemma forEach_elems:
  assumes "forEach f xs s = (ys, s')"
    and "\<And>x t y t'. x \<in> set xs \<Longrightarrow> f x t = (y, t') \<Longrightarrow> R x y"
  shows "list_all2 R xs ys"
  using forEach_rule[OF assms(1), where I = "\<lambda>_. True" and R = R] assms(2) by blast

lemma forEachM_elems:
  assumes "forEachM f xs s = Some (ys, s')"
    and "\<And>x t y t'. x \<in> set xs \<Longrightarrow> f x t = Some (y, t') \<Longrightarrow> R x y"
  shows "list_all2 R xs ys"
  using forEachM_rule[OF assms(1), where I = "\<lambda>_. True" and R = R] assms(2) by blast

lemma loop_body_state:
  assumes lb: "loop_body cfg rnd t (ns, rs) = Some (ns', rs')"
    and 0: "I (rs\<lparr>stats := channel_stats ns (stats rs)\<rparr>)"
    and 1: "\<And>x r y r'. I r \<Longrightarrow> mark_doomed t x r = (y, r') \<Longrightarrow> I r'"
    and 2: "\<And>p f c x r y r'. I r \<Longrightarrow> nav_update cfg t p f c x r = (y, r') \<Longrightarrow> I r'"
    and 3: "\<And>b c x r y r'. I r \<Longrightarrow> fsm_update cfg rnd t b c x r = Some (y, r') \<Longrightarrow> I r'"
  shows "I rs'"
proof -
  from lb obtain ns2 rs2 ns3 rs3 where
    a: "(if collisionOccurring ns then forEach (mark_doomed t) ns (rs\<lparr>stats := channel_stats ns (stats rs)\<rparr>)
      else (ns, rs\<lparr>stats := channel_stats ns (stats rs)\<rparr>)) = (ns2, rs2)"
    and b: "forEach (nav_update cfg t (isPreambleActive ns) (isFcActive ns) (collisionOccurring ns)) ns2 rs2 = (ns3, rs3)"
    and c: "forEachM (fsm_update cfg rnd t (physicalBusy ns) (collisionOccurring ns)) ns3 rs3 = Some (ns', rs')"
    by (rule loop_body_SomeE)
  have "I rs2"
  proof (cases "collisionOccurring ns")
    case True
    with a have fe: "forEach (mark_doomed t) ns (rs\<lparr>stats := channel_stats ns (stats rs)\<rparr>) = (ns2, rs2)" by simp
    show ?thesis by (rule forEach_state[OF fe, where I = I]) (rule 0, rule 1)
  next
    case False
    with a 0 show ?thesis by auto
  qed
  then have "I rs3" by (rule forEach_state[OF b, where I = I]) (rule 2)
  then show ?thesis by (rule forEachM_state[OF c, where I = I]) (rule 3)
qed

lemma loop_body_bins:
  assumes "loop_body cfg rnd t (ns, rs) = Some (ns', rs')"
  shows "bins4 (stats rs') = bump (classify ns) (bins4 (stats rs))"
proof (rule loop_body_state[OF assms, where I = "\<lambda>r. bins4 (stats r) = bump (classify ns) (bins4 (stats rs))"])
  show "bins4 (stats (rs\<lparr>stats := channel_stats ns (stats rs)\<rparr>)) = bump (classify ns) (bins4 (stats rs))"
    by (simp add: channel_stats_bins)
qed (auto dest: mark_doomed_bins nav_update_stats fsm_update_bins)

subsection \<open>Every run returns\<close>

lemma mark_doomed_frame:
  "mark_doomed t x r = (y, r') \<Longrightarrow>
   node_id y = node_id x \<and> state y = state x \<and> packetQueue y = packetQueue x
   \<and> vcs y = vcs x \<and> backoffCounter y = backoffCounter x \<and> timeline r' = timeline r
   \<and> draws r' = draws r"
  by (auto simp: mark_doomed_def split: if_splits)

lemma nav_update_frame:
  "nav_update cfg t p f c x r = (y, r') \<Longrightarrow>
   node_id y = node_id x \<and> state y = state x \<and> packetQueue y = packetQueue x
   \<and> backoffCounter y = backoffCounter x \<and> timeline r' = timeline r \<and> stats r' = stats r
   \<and> draws r' = draws r"
  by (auto simp: nav_update_def Let_def split: if_splits)

lemma shouldGenerate_frame:
  "shouldGenerate cfg rnd t r = (g, r') \<Longrightarrow> timeline r' = timeline r \<and> stats r' = stats r \<and> logs r' = logs r"
  by (auto simp: shouldGenerate_def split: if_splits)

lemma packet_arrival_frame:
  "packet_arrival t x r = (y, r') \<Longrightarrow>
   node_id y = node_id x \<and> state y = state x \<and> timeline r' = timeline r \<and> draws r' = draws r
   \<and> vcs y = vcs x \<and> backoffCounter y = backoffCounter x
   \<and> packetQueue y = packetQueue x @ [t]"
  by (auto simp: packet_arrival_def Let_def)

lemma case_SENSING_frame:
  "case_SENSING cfg rnd t b x r = (y, r') \<Longrightarrow>
   node_id y = node_id x \<and> timeline r' = timeline r \<and> packetQueue y = packetQueue x"
  by (auto simp: case_SENSING_def generateBackoff_def Let_def split: if_splits)

lemma case_BACKOFF_frame:
  "case_BACKOFF t b x c r = (y, c', r') \<Longrightarrow>
   node_id y = node_id x \<and> timeline r' = timeline r \<and> packetQueue y = packetQueue x"
  by (auto simp: case_BACKOFF_def Let_def split: if_splits)

lemma case_RX_ACK_frame:
  "case_RX_ACK cfg t x r = (y, r') \<Longrightarrow> node_id y = node_id x \<and> timeline r' = timeline r"
  by (auto simp: case_RX_ACK_def resetProtocolState_def Let_def split: if_splits prod.splits)

lemma advance_frame: "node_id (advance l s x) = node_id x \<and> packetQueue (advance l s x) = packetQueue x"
  by (simp add: advance_def Let_def)

lemma transition_frame:
  "transition cfg rnd t b x c r = (y, c', r') \<Longrightarrow> node_id y = node_id x \<and> timeline r' = timeline r"
  by (auto simp: transition_def case_IDLE_def case_FAILED_def resetProtocolState_def advance_frame
      split: NodeType.splits prod.splits
      dest: case_SENSING_frame case_BACKOFF_frame case_RX_ACK_frame)

lemma timeline_push_dom: "timeline_push i c r = Some r' \<Longrightarrow> dom (timeline r') = dom (timeline r)"
  by (auto simp: timeline_push_def split: option.splits if_splits)

lemma fsm_update_frame:
  assumes "fsm_update cfg rnd t b c x r = Some (y, r')"
  shows "node_id y = node_id x \<and> dom (timeline r') = dom (timeline r)"
proof -
  from assms obtain g rs1 n1 rs2 c2 rs3 where
    g: "shouldGenerate cfg rnd t r = (g, rs1)"
    and a: "(if g then packet_arrival t x rs1 else (x, rs1)) = (n1, rs2)"
    and tr: "transition cfg rnd t b n1 (state x, None) rs2 = (y, c2, rs3)"
    and p: "timeline_push (node_id x) (visual_cell c c2) rs3 = Some r'"
    by (rule fsm_update_SomeE)
  from a have "node_id n1 = node_id x \<and> timeline rs2 = timeline rs1"
    by (auto split: if_splits dest: packet_arrival_frame)
  with shouldGenerate_frame[OF g] transition_frame[OF tr] timeline_push_dom[OF p] show ?thesis
    by simp
qed

lemma fsm_update_total:
  assumes "timeline r (node_id x) \<noteq> None"
  shows "\<exists>y r'. fsm_update cfg rnd t b c x r = Some (y, r')"
proof -
  obtain g rs1 where g: "shouldGenerate cfg rnd t r = (g, rs1)" by (cases "shouldGenerate cfg rnd t r")
  obtain n1 rs2 where a: "(if g then packet_arrival t x rs1 else (x, rs1)) = (n1, rs2)"
    by (cases "if g then packet_arrival t x rs1 else (x, rs1)")
  obtain n2 c2 rs3 where tr: "transition cfg rnd t b n1 (state x, None) rs2 = (n2, c2, rs3)"
    by (cases "transition cfg rnd t b n1 (state x, None) rs2")
  from a have "timeline rs2 = timeline rs1"
    by (auto split: if_splits dest: packet_arrival_frame)
  with shouldGenerate_frame[OF g] transition_frame[OF tr] assms
  have "timeline rs3 (node_id x) \<noteq> None" by simp
  then obtain r' where "timeline_push (node_id x) (visual_cell c c2) rs3 = Some r'"
    by (auto simp: timeline_push_def)
  with g a tr show ?thesis by (simp add: fsm_update_def)
qed

lemma list_all2_same_ids:
  "list_all2 (\<lambda>x y. node_id y = node_id x) xs ys \<Longrightarrow> map node_id ys = map node_id xs"
  by (induction rule: list_all2_induct) auto

lemma loop_body_total:
  assumes ok: "rows_ok (ns, rs)"
  shows "\<exists>ns' rs'. loop_body cfg rnd t (ns, rs) = Some (ns', rs') \<and> rows_ok (ns', rs')"
proof -
  let ?rs1 = "rs\<lparr>stats := channel_stats ns (stats rs)\<rparr>"
  let ?D = "dom (timeline rs)"
  obtain ns2 rs2 where a: "(if collisionOccurring ns then forEach (mark_doomed t) ns ?rs1 else (ns, ?rs1)) = (ns2, rs2)"
    by (cases "if collisionOccurring ns then forEach (mark_doomed t) ns ?rs1 else (ns, ?rs1)")
  obtain ns3 rs3 where b: "forEach (nav_update cfg t (isPreambleActive ns) (isFcActive ns) (collisionOccurring ns)) ns2 rs2 = (ns3, rs3)"
    by (cases "forEach (nav_update cfg t (isPreambleActive ns) (isFcActive ns) (collisionOccurring ns)) ns2 rs2")
  have 2: "timeline rs2 = timeline rs \<and> map node_id ns2 = map node_id ns"
  proof (cases "collisionOccurring ns")
    case True
    with a have fe: "forEach (mark_doomed t) ns ?rs1 = (ns2, rs2)" by simp
    have "timeline rs2 = timeline rs \<and> list_all2 (\<lambda>x y. node_id y = node_id x) ns ns2"
      by (rule forEach_rule[OF fe, where I = "\<lambda>r. timeline r = timeline rs"])
         (auto dest: mark_doomed_frame)
    then show ?thesis by (simp add: list_all2_same_ids)
  next
    case False
    with a show ?thesis by auto
  qed
  have "timeline rs3 = timeline rs \<and> list_all2 (\<lambda>x y. node_id y = node_id x) ns2 ns3"
    by (rule forEach_rule[OF b, where I = "\<lambda>r. timeline r = timeline rs"])
       (use 2 in \<open>auto dest: nav_update_frame\<close>)
  with 2 have 3: "timeline rs3 = timeline rs" and ids3: "map node_id ns3 = map node_id ns"
    by (auto dest!: list_all2_same_ids)
  have in_dom: "node_id x \<in> ?D" if "x \<in> set ns3" for x
  proof -
    from that have "node_id x \<in> set (map node_id ns3)" by simp
    with ids3 have "node_id x \<in> set (map node_id ns)" by simp
    with ok show ?thesis by (auto simp: rows_ok_def)
  qed
  have "\<exists>ys s'. forEachM (fsm_update cfg rnd t (physicalBusy ns) (collisionOccurring ns)) ns3 rs3 = Some (ys, s')
          \<and> dom (timeline s') = ?D"
  proof (rule forEachM_total[where I = "\<lambda>r. dom (timeline r) = ?D"])
    show "dom (timeline rs3) = ?D" using 3 by simp
  next
    fix x :: Node and r :: RunState
    assume x: "x \<in> set ns3" and r: "dom (timeline r) = ?D"
    from in_dom[OF x] r have "timeline r (node_id x) \<noteq> None" by auto
    from fsm_update_total[OF this]
    obtain y r' where f: "fsm_update cfg rnd t (physicalBusy ns) (collisionOccurring ns) x r = Some (y, r')"
      by blast
    from fsm_update_frame[OF f] r f
    show "\<exists>y t'. fsm_update cfg rnd t (physicalBusy ns) (collisionOccurring ns) x r = Some (y, t')
            \<and> dom (timeline t') = ?D" by auto
  qed
  then obtain ns' rs' where c: "forEachM (fsm_update cfg rnd t (physicalBusy ns) (collisionOccurring ns)) ns3 rs3 = Some (ns', rs')"
    and d: "dom (timeline rs') = ?D" by blast
  have "list_all2 (\<lambda>x y. node_id y = node_id x) ns3 ns'"
    by (rule forEachM_elems[OF c]) (auto dest: fsm_update_frame)
  then have ids': "map node_id ns' = map node_id ns" using ids3 by (auto dest!: list_all2_same_ids)
  have "rows_ok (ns', rs')"
    unfolding rows_ok_def
  proof
    fix n assume "n \<in> set (fst (ns', rs'))"
    then have "node_id n \<in> set (map node_id ns')" by simp
    with ids' have "node_id n \<in> set (map node_id ns)" by simp
    with ok have "node_id n \<in> ?D" by (auto simp: rows_ok_def)
    with d show "timeline (snd (ns', rs')) (node_id n) \<noteq> None" by auto
  qed
  moreover from a b c have "loop_body cfg rnd t (ns, rs) = Some (ns', rs')"
    by (simp add: loop_body_def Let_def)
  ultimately show ?thesis by blast
qed

lemma ticks_total:
  "rows_ok s \<Longrightarrow> \<exists>s'. ticks cfg rnd k s = Some s' \<and> rows_ok s'"
proof (induction k)
  case 0
  then show ?case by simp
next
  case (Suc k)
  then obtain ns rs where "ticks cfg rnd k s = Some (ns, rs)" and "rows_ok (ns, rs)" by fastforce
  with loop_body_total[of ns rs cfg rnd "int k"] show ?case by auto
qed

lemma dom_fold_rows:
  "dom (fold (\<lambda>n tl. tl(node_id n \<mapsto> [])) ns m) = dom m \<union> node_id ` set ns"
  by (induction ns arbitrary: m) auto

lemma rows_ok_init: "rows_ok (init_state cfg)"
proof -
  have "node_id ` set (init_nodes cfg) \<subseteq> dom (fold (\<lambda>n tl. tl(node_id n \<mapsto> [])) (init_nodes cfg) Map.empty)"
    by (simp add: dom_fold_rows)
  then show ?thesis
    by (auto simp: rows_ok_def init_state_def Let_def)
qed

lemma ticks_init_total: "\<exists>ns rs. ticks cfg rnd k (init_state cfg) = Some (ns, rs)"
  using ticks_total[OF rows_ok_init[of cfg], of cfg rnd k] by auto

lemma ticks_bins:
  "ticks cfg rnd k s = Some (ns, rs) \<Longrightarrow>
   (case bins4 (stats rs) of (c, x, b, i) \<Rightarrow> c + x + b + i)
   = (case bins4 (stats (snd s)) of (c, x, b, i) \<Rightarrow> c + x + b + i) + int k"
proof (induction k arbitrary: ns rs)
  case 0
  then show ?case by auto
next
  case (Suc k)
  then obtain ns0 rs0 where t: "ticks cfg rnd k s = Some (ns0, rs0)"
    and lb: "loop_body cfg rnd (int k) (ns0, rs0) = Some (ns, rs)"
    by (auto split: option.splits)
  from loop_body_bins[OF lb] Suc.IH[OF t] show ?case
    by (cases "classify ns0"; cases "bins4 (stats rs0)") auto
qed

lemma runSimulation_ticks:
  "runSimulation cfg rnd =
     (case ticks cfg rnd (nat (simDuration cfg)) (init_state cfg) of
        None \<Rightarrow> None
      | Some (ns, rs) \<Rightarrow>
          Some \<lparr>timeline = timeline rs, logs = logs rs, stats = stats rs,
                duration = simDuration cfg\<rparr>)"
  by (simp add: runSimulation_def run_loop_eq_ticks)

lemma bins4_init: "bins4 (stats (snd (init_state cfg))) = (0, 0, 0, 0)"
  by (simp add: init_state_def Let_def init_stats_def bins4_def)

subsection \<open>The success counters\<close>

lemma buckets_ok_succ4: "buckets_ok st \<longleftrightarrow> (case succ4 st of (sc, s1, s2, s3) \<Rightarrow> s1 + s2 + s3 = sc)"
  by (simp add: buckets_ok_def succ4_def)

lemma credit_ok: "(case v of (sc, s1, s2, s3) \<Rightarrow> s1 + s2 + s3 = sc)
   \<Longrightarrow> (case credit k v of (sc, s1, s2, s3) \<Rightarrow> s1 + s2 + s3 = (sc::int))"
  by (auto simp: credit_def split: prod.splits)

lemma channel_stats_succ4: "succ4 (channel_stats ns st) = succ4 st"
  by (simp add: channel_stats_def succ4_def Let_def)

lemma mark_doomed_succ4: "mark_doomed t n rs = (n', rs') \<Longrightarrow> succ4 (stats rs') = succ4 (stats rs)"
  by (auto simp: mark_doomed_def succ4_def split: if_splits)

lemma packet_arrival_succ4: "packet_arrival t n rs = (n', rs') \<Longrightarrow> succ4 (stats rs') = succ4 (stats rs)"
  by (auto simp: packet_arrival_def Let_def succ4_def)

lemma packet_arrival_keeps:
  "packet_arrival t n rs = (n', rs') \<Longrightarrow>
   state n' = state n \<and> txProgress n' = txProgress n \<and> isCurrentTxDoomed n' = isCurrentTxDoomed n
   \<and> nb n' = nb n"
  by (auto simp: packet_arrival_def Let_def)

lemma case_RX_ACK_succ4:
  assumes "case_RX_ACK cfg t n rs = (n', rs')" and "state n = RX_ACK"
  shows "succ4 (stats rs') = (if completes_ok n then credit (nb n) (succ4 (stats rs)) else succ4 (stats rs))"
  using assms
  by (auto simp: case_RX_ACK_def Let_def succ4_def completes_ok_def credit_def
      split: if_splits prod.splits option.splits)

lemma transition_succ4:
  assumes "transition cfg rnd t b n c rs = (n', c', rs')"
  shows "succ4 (stats rs') = (if completes_ok n then credit (nb n) (succ4 (stats rs)) else succ4 (stats rs))"
proof (cases "state n = RX_ACK")
  case True
  with assms obtain "case_RX_ACK cfg t n rs = (n', rs')"
    by (auto simp: transition_def split: prod.splits)
  from case_RX_ACK_succ4[OF this True] show ?thesis .
next
  case False
  then have "\<not> completes_ok n" by (simp add: completes_ok_def)
  with assms False show ?thesis
    by (auto simp: transition_def split: NodeType.splits prod.splits
        dest: case_SENSING_stats case_BACKOFF_stats)
qed

lemma fsm_update_succ4:
  assumes "fsm_update cfg rnd t b c n rs = Some (n', rs')"
  shows "succ4 (stats rs') = (if completes_ok n then credit (nb n) (succ4 (stats rs)) else succ4 (stats rs))"
proof -
  from assms obtain g rs1 n1 rs2 c2 rs3 where
    g: "shouldGenerate cfg rnd t rs = (g, rs1)"
    and a: "(if g then packet_arrival t n rs1 else (n, rs1)) = (n1, rs2)"
    and tr: "transition cfg rnd t b n1 (state n, None) rs2 = (n', c2, rs3)"
    and p: "timeline_push (node_id n) (visual_cell c c2) rs3 = Some rs'"
    by (rule fsm_update_SomeE)
  from a have 1: "succ4 (stats rs2) = succ4 (stats rs1) \<and> completes_ok n1 = completes_ok n \<and> nb n1 = nb n"
    by (auto simp: completes_ok_def split: if_splits dest: packet_arrival_succ4 packet_arrival_keeps)
  with shouldGenerate_stats[OF g] transition_succ4[OF tr] timeline_push_stats[OF p]
  show ?thesis by simp
qed

lemma fsm_update_buckets:
  assumes "fsm_update cfg rnd t b c n rs = Some (n', rs')" and "buckets_ok (stats rs)"
  shows "buckets_ok (stats rs')"
  using fsm_update_succ4[OF assms(1)] assms(2) credit_ok[of "succ4 (stats rs)" "nb n"]
  by (auto simp: buckets_ok_succ4 split: if_splits)

lemma loop_body_buckets:
  assumes "loop_body cfg rnd t (ns, rs) = Some (ns', rs')" and "buckets_ok (stats rs)"
  shows "buckets_ok (stats rs')"
proof (rule loop_body_state[OF assms(1), where I = "\<lambda>r. buckets_ok (stats r)"])
  show "buckets_ok (stats (rs\<lparr>stats := channel_stats ns (stats rs)\<rparr>))"
    using assms(2) by (simp add: buckets_ok_succ4 channel_stats_succ4)
qed (auto simp: buckets_ok_succ4 dest: mark_doomed_succ4 nav_update_stats fsm_update_buckets[unfolded buckets_ok_succ4])

lemma ticks_buckets:
  "ticks cfg rnd k s = Some (ns, rs) \<Longrightarrow> buckets_ok (stats (snd s)) \<Longrightarrow> buckets_ok (stats rs)"
proof (induction k arbitrary: ns rs)
  case 0
  then show ?case by auto
next
  case (Suc k)
  then obtain ns0 rs0 where t: "ticks cfg rnd k s = Some (ns0, rs0)"
    and lb: "loop_body cfg rnd (int k) (ns0, rs0) = Some (ns, rs)"
    by (auto split: option.splits)
  from loop_body_buckets[OF lb] Suc.IH[OF t] Suc.prems(2) show ?case by simp
qed

lemma buckets_ok_init: "buckets_ok (stats (snd (init_state cfg)))"
  by (simp add: init_state_def Let_def init_stats_def buckets_ok_def)

subsection \<open>What an iteration does to a node\<close>

lemma loop_body_perceive:
  "loop_body cfg rnd t (ns, rs) =
     (case perceive cfg t ns rs of (ns3, rs3) \<Rightarrow>
        forEachM (fsm_update cfg rnd t (physicalBusy ns) (collisionOccurring ns)) ns3 rs3)"
  by (simp add: loop_body_def perceive_def Let_def split: prod.splits)

lemma same_but_nav_refl: "same_but_nav x x"
  by (simp add: same_but_nav_def)

lemma same_but_nav_trans: "same_but_nav x y \<Longrightarrow> same_but_nav y z \<Longrightarrow> same_but_nav x z"
  by (simp add: same_but_nav_def)

lemma mark_doomed_same: "mark_doomed t x r = (y, r') \<Longrightarrow> same_but_nav x y"
  by (auto simp: same_but_nav_def mark_doomed_def split: if_splits)

lemma nav_update_same: "nav_update cfg t p f c x r = (y, r') \<Longrightarrow> same_but_nav x y"
  by (auto simp: same_but_nav_def nav_update_def Let_def split: if_splits)

lemma perceive_same:
  assumes "perceive cfg t ns rs = (ns3, rs3)"
  shows "list_all2 same_but_nav ns ns3"
proof -
  let ?rs1 = "rs\<lparr>stats := channel_stats ns (stats rs)\<rparr>"
  obtain ns2 rs2 where a: "(if collisionOccurring ns then forEach (mark_doomed t) ns ?rs1 else (ns, ?rs1)) = (ns2, rs2)"
    by (cases "if collisionOccurring ns then forEach (mark_doomed t) ns ?rs1 else (ns, ?rs1)")
  with assms have b: "forEach (nav_update cfg t (isPreambleActive ns) (isFcActive ns) (collisionOccurring ns)) ns2 rs2 = (ns3, rs3)"
    by (simp add: perceive_def Let_def)
  have 1: "list_all2 same_but_nav ns ns2"
  proof (cases "collisionOccurring ns")
    case True
    with a have fe: "forEach (mark_doomed t) ns ?rs1 = (ns2, rs2)" by simp
    show ?thesis by (rule forEach_elems[OF fe]) (rule mark_doomed_same)
  next
    case False
    with a show ?thesis by (auto simp: list_all2_same same_but_nav_refl)
  qed
  have 2: "list_all2 same_but_nav ns2 ns3"
    by (rule forEach_elems[OF b]) (rule nav_update_same)
  from 1 2 show ?thesis
    by (rule list_all2_trans[rotated]) (rule same_but_nav_trans)
qed

lemma loop_body_node_rel:
  assumes lb: "loop_body cfg rnd t (ns, rs) = Some (ns', rs')"
    and step: "\<And>x m y r r'. x \<in> set ns \<Longrightarrow> same_but_nav x m \<Longrightarrow>
        fsm_update cfg rnd t (physicalBusy ns) (collisionOccurring ns) m r = Some (y, r') \<Longrightarrow> R x y"
  shows "list_all2 R ns ns'"
proof -
  obtain ns3 rs3 where p: "perceive cfg t ns rs = (ns3, rs3)" by (cases "perceive cfg t ns rs")
  with lb have c: "forEachM (fsm_update cfg rnd t (physicalBusy ns) (collisionOccurring ns)) ns3 rs3 = Some (ns', rs')"
    by (simp add: loop_body_perceive)
  have 1: "list_all2 (\<lambda>x m. x \<in> set ns \<and> same_but_nav x m) ns ns3"
    using perceive_same[OF p] by (auto simp: list_all2_conv_all_nth)
  have 2: "list_all2 (\<lambda>m y. \<exists>r r'. fsm_update cfg rnd t (physicalBusy ns) (collisionOccurring ns) m r = Some (y, r')) ns3 ns'"
    by (rule forEachM_elems[OF c]) blast
  from 1 2 show ?thesis
    by (rule list_all2_trans[rotated]) (use step in blast)
qed

lemma list_all2_pres:
  "list_all2 (\<lambda>x y. P x \<longrightarrow> Q y) xs ys \<Longrightarrow> \<forall>x \<in> set xs. P x \<Longrightarrow> \<forall>y \<in> set ys. Q y"
  by (induction rule: list_all2_induct) auto

lemma ticks_nodes_inv:
  assumes init: "\<forall>n \<in> set (fst s). P n"
    and nav: "\<And>x y. P x \<Longrightarrow> same_but_nav x y \<Longrightarrow> P y"
    and fsm: "\<And>t b c x r y r'. P x \<Longrightarrow> fsm_update cfg rnd t b c x r = Some (y, r') \<Longrightarrow> P y"
    and t: "ticks cfg rnd k s = Some (ns, rs)"
  shows "\<forall>n \<in> set ns. P n"
  using t
proof (induction k arbitrary: ns rs)
  case 0
  with init show ?case by auto
next
  case (Suc k)
  then obtain ns0 rs0 where t: "ticks cfg rnd k s = Some (ns0, rs0)"
    and lb: "loop_body cfg rnd (int k) (ns0, rs0) = Some (ns, rs)"
    by (auto split: option.splits)
  have "list_all2 (\<lambda>x y. P x \<longrightarrow> P y) ns0 ns"
    by (rule loop_body_node_rel[OF lb]) (use nav fsm in blast)
  from list_all2_pres[OF this] Suc.IH[OF t] show ?case by blast
qed

lemma init_nodes_all: "\<forall>n \<in> set (fst (init_state cfg)). \<exists>i. n = new_Node i cfg"
  by (auto simp: init_state_def init_nodes_def Let_def)

lemma fsm_update_arrivalE:
  assumes "fsm_update cfg rnd t b c x r = Some (y, r')"
  obtains n1 rs1 rs2 c2 rs3 where
    "n1 = x \<and> stats rs2 = stats rs1 \<or> (n1, rs2) = packet_arrival t x rs1"
    "stats rs1 = stats r"
    "transition cfg rnd t b n1 (state x, None) rs2 = (y, c2, rs3)"
    "timeline_push (node_id x) (visual_cell c c2) rs3 = Some r'"
proof -
  from assms obtain g rs1 n1 rs2 c2 rs3 where
    g: "shouldGenerate cfg rnd t r = (g, rs1)"
    and a: "(if g then packet_arrival t x rs1 else (x, rs1)) = (n1, rs2)"
    and tr: "transition cfg rnd t b n1 (state x, None) rs2 = (y, c2, rs3)"
    and p: "timeline_push (node_id x) (visual_cell c c2) rs3 = Some r'"
    by (rule fsm_update_SomeE)
  from a have "n1 = x \<and> stats rs2 = stats rs1 \<or> (n1, rs2) = packet_arrival t x rs1"
    by (auto split: if_splits)
  with shouldGenerate_stats[OF g] tr p that show thesis by blast
qed

subsection \<open>Invariants of the state machine of a node\<close>

lemmas transition_defs =
  transition_def case_IDLE_def case_SENSING_def case_BACKOFF_def advance_def case_RX_ACK_def
  case_FAILED_def resetProtocolState_def generateBackoff_def shift_def Let_def

lemma transition_nb: "0 \<le> nb n \<Longrightarrow> transition cfg rnd t b n c rs = (n', c', rs') \<Longrightarrow> 0 \<le> nb n'"
  by (auto simp: transition_defs split: NodeType.splits if_splits prod.splits list.splits)

lemma fsm_update_nb:
  assumes "0 \<le> nb x" and "fsm_update cfg rnd t b c x r = Some (y, r')"
  shows "0 \<le> nb y"
proof -
  from assms(2) obtain n1 rs1 rs2 c2 rs3 where
    a: "n1 = x \<and> stats rs2 = stats rs1 \<or> (n1, rs2) = packet_arrival t x rs1"
    and tr: "transition cfg rnd t b n1 (state x, None) rs2 = (y, c2, rs3)"
    by (rule fsm_update_arrivalE)
  from a assms(1) have "0 \<le> nb n1" by (auto simp: packet_arrival_def Let_def)
  from transition_nb[OF this tr] show ?thesis .
qed

lemma transition_queue_inv:
  "queue_inv n \<Longrightarrow> transition cfg rnd t b n c rs = (n', c', rs') \<Longrightarrow> queue_inv n'"
  by (auto simp: transition_defs queue_inv_def split: NodeType.splits if_splits prod.splits list.splits)

lemma fsm_update_queue_inv:
  assumes "queue_inv x" and "fsm_update cfg rnd t b c x r = Some (y, r')"
  shows "queue_inv y"
proof -
  from assms(2) obtain n1 rs1 rs2 c2 rs3 where
    a: "n1 = x \<and> stats rs2 = stats rs1 \<or> (n1, rs2) = packet_arrival t x rs1"
    and tr: "transition cfg rnd t b n1 (state x, None) rs2 = (y, c2, rs3)"
    by (rule fsm_update_arrivalE)
  from a assms(1) have "queue_inv n1" by (auto simp: packet_arrival_def Let_def queue_inv_def)
  from transition_queue_inv[OF this tr] show ?thesis .
qed

lemma fsm_update_success_latency:
  assumes inv: "queue_inv x" and f: "fsm_update cfg rnd t b c x r = Some (y, r')"
    and ok: "completes_ok x"
  shows "\<exists>birth rest. packetQueue x = birth # rest
           \<and> totalLatency (stats r') = totalLatency (stats r) + (t - birth)"
proof -
  from f obtain n1 rs1 rs2 c2 rs3 where
    a: "n1 = x \<and> stats rs2 = stats rs1 \<or> (n1, rs2) = packet_arrival t x rs1"
    and s1: "stats rs1 = stats r"
    and tr: "transition cfg rnd t b n1 (state x, None) rs2 = (y, c2, rs3)"
    and p: "timeline_push (node_id x) (visual_cell c c2) rs3 = Some r'"
    by (rule fsm_update_arrivalE)
  from ok inv obtain birth rest where q: "packetQueue x = birth # rest"
    by (cases "packetQueue x") (auto simp: queue_inv_def completes_ok_def)
  from a q ok s1 have n1: "state n1 = RX_ACK \<and> txProgress n1 + 1 \<ge> LEN_ACK_P + LEN_ACK_FC
      \<and> \<not> isCurrentTxDoomed n1 \<and> (\<exists>rest'. packetQueue n1 = birth # rest')
      \<and> totalLatency (stats rs2) = totalLatency (stats r)"
    by (auto simp: packet_arrival_def Let_def completes_ok_def)
  with tr have "totalLatency (stats rs3) = totalLatency (stats r) + (t - birth)"
    by (auto simp: transition_defs split: if_splits)
  with timeline_push_stats[OF p] q show ?thesis by simp
qed

lemma queue_inv_new: "queue_inv (new_Node i cfg)"
  by (simp add: queue_inv_def new_Node_def resetProtocolState_def)

lemma nb_new: "0 \<le> nb (new_Node i cfg)"
  by (simp add: new_Node_def resetProtocolState_def)

lemma pow2_pos: "0 < pow2 e"
  by (simp add: pow2_def)

lemma draw_nonneg: "0 \<le> r \<Longrightarrow> 0 \<le> \<lfloor>r * (pow2 e - 1 + 1)\<rfloor>"
  using pow2_pos[of e] by simp

lemma transition_backoff_inv:
  assumes "backoff_inv n" and "0 \<le> pe cfg" and "0 \<le> rnd (draws rs)"
    and "transition cfg rnd t b n c rs = (n', c', rs')"
  shows "backoff_inv n'"
proof (cases "state n = SENSING")
  case True
  from draw_nonneg[OF assms(3), of "be n"] assms(2)
  have "0 \<le> \<lfloor>rnd (draws rs) * (pow2 (be n) - 1 + 1)\<rfloor> + pe cfg" by linarith
  with True assms(4) show ?thesis
    by (auto simp: transition_defs backoff_inv_def split: if_splits)
next
  case False
  with assms(1,4) show ?thesis
    by (auto simp: transition_defs backoff_inv_def split: NodeType.splits if_splits prod.splits list.splits)
qed

lemma shouldGenerate_draws:
  "shouldGenerate cfg rnd t r = (g, r') \<Longrightarrow> draws r \<le> draws r'"
  by (auto simp: shouldGenerate_def split: if_splits)

lemma fsm_update_backoff_inv:
  assumes "backoff_inv x" and "0 \<le> pe cfg" and "\<forall>k. 0 \<le> rnd k"
    and "fsm_update cfg rnd t b c x r = Some (y, r')"
  shows "backoff_inv y"
proof -
  from assms(4) obtain n1 rs1 rs2 c2 rs3 where
    a: "n1 = x \<and> stats rs2 = stats rs1 \<or> (n1, rs2) = packet_arrival t x rs1"
    and tr: "transition cfg rnd t b n1 (state x, None) rs2 = (y, c2, rs3)"
    by (rule fsm_update_arrivalE)
  from a assms(1) have "backoff_inv n1" by (auto simp: packet_arrival_def Let_def backoff_inv_def)
  from transition_backoff_inv[OF this assms(2) _ tr] assms(3) show ?thesis by simp
qed

lemma transition_cell:
  assumes "transition cfg rnd t b n (state n, None) rs = (n', c', rs')"
  shows "if state n = BACKOFF \<or> state n = BACKOFF_PAUSED
         then snd c' = Some (backoffCounter n) \<and> (fst c' = BACKOFF \<or> fst c' = state n)
         else c' = (state n, None)"
  using assms
  by (auto simp: transition_def case_BACKOFF_def Let_def split: NodeType.splits if_splits prod.splits)

lemma fsm_update_cell:
  assumes "fsm_update cfg rnd t b c x r = Some (y, r')"
  shows "\<exists>row cell. timeline r (node_id x) = Some row
           \<and> timeline r' = (timeline r)(node_id x \<mapsto> row @ [cell])
           \<and> (if state x = BACKOFF \<or> state x = BACKOFF_PAUSED
               then info cell = Some (backoffCounter x)
                  \<and> (cell_state cell = BACKOFF \<or> cell_state cell = state x)
               else info cell = None
                  \<and> (cell_state cell = state x \<or> cell_state cell = COLLISION))"
proof -
  from assms obtain g rs1 n1 rs2 c2 rs3 where
    g: "shouldGenerate cfg rnd t r = (g, rs1)"
    and a: "(if g then packet_arrival t x rs1 else (x, rs1)) = (n1, rs2)"
    and tr: "transition cfg rnd t b n1 (state x, None) rs2 = (y, c2, rs3)"
    and p: "timeline_push (node_id x) (visual_cell c c2) rs3 = Some r'"
    by (rule fsm_update_SomeE)
  from a have n1: "state n1 = state x \<and> backoffCounter n1 = backoffCounter x \<and> timeline rs2 = timeline rs1"
    by (auto split: if_splits dest: packet_arrival_frame)
  with tr have tr': "transition cfg rnd t b n1 (state n1, None) rs2 = (y, c2, rs3)" by simp
  from shouldGenerate_frame[OF g] n1 transition_frame[OF tr] have tl: "timeline rs3 = timeline r" by simp
  from p tl obtain row where row: "timeline r (node_id x) = Some row"
    and r': "timeline r' = (timeline r)(node_id x \<mapsto> row @ [visual_cell c c2])"
    by (auto simp: timeline_push_def split: option.splits)
  from transition_cell[OF tr'] n1
  have "if state x = BACKOFF \<or> state x = BACKOFF_PAUSED
        then info (visual_cell c c2) = Some (backoffCounter x)
           \<and> (cell_state (visual_cell c c2) = BACKOFF \<or> cell_state (visual_cell c c2) = state x)
        else info (visual_cell c c2) = None
           \<and> (cell_state (visual_cell c c2) = state x \<or> cell_state (visual_cell c c2) = COLLISION)"
    by (auto simp: visual_cell_def Let_def is_tx_state_def split: if_splits)
  with row r' show ?thesis by blast
qed

lemma fsm_update_cells_ok:
  assumes "fsm_update cfg rnd t b c x r = Some (y, r')"
    and "backoff_inv x" and "cells_ok (timeline r)"
  shows "cells_ok (timeline r')"
proof -
  from fsm_update_cell[OF assms(1)] obtain row cell where
    row: "timeline r (node_id x) = Some row"
    and r': "timeline r' = (timeline r)(node_id x \<mapsto> row @ [cell])"
    and c: "if state x = BACKOFF \<or> state x = BACKOFF_PAUSED
               then info cell = Some (backoffCounter x)
                  \<and> (cell_state cell = BACKOFF \<or> cell_state cell = state x)
               else info cell = None
                  \<and> (cell_state cell = state x \<or> cell_state cell = COLLISION)"
    by blast
  from c assms(2) have "cell_ok cell"
    by (auto simp: cell_ok_def backoff_inv_def split: if_splits)
  with assms(3) row r' show ?thesis
    by (auto simp: cells_ok_def split: if_splits)
qed

lemma perceive_timeline:
  assumes "perceive cfg t ns rs = (ns3, rs3)"
  shows "timeline rs3 = timeline rs"
proof -
  let ?rs1 = "rs\<lparr>stats := channel_stats ns (stats rs)\<rparr>"
  obtain ns2 rs2 where a: "(if collisionOccurring ns then forEach (mark_doomed t) ns ?rs1 else (ns, ?rs1)) = (ns2, rs2)"
    by (cases "if collisionOccurring ns then forEach (mark_doomed t) ns ?rs1 else (ns, ?rs1)")
  with assms have b: "forEach (nav_update cfg t (isPreambleActive ns) (isFcActive ns) (collisionOccurring ns)) ns2 rs2 = (ns3, rs3)"
    by (simp add: perceive_def Let_def)
  have 1: "timeline rs2 = timeline rs"
  proof (cases "collisionOccurring ns")
    case True
    with a have fe: "forEach (mark_doomed t) ns ?rs1 = (ns2, rs2)" by simp
    show ?thesis
      by (rule forEach_state[OF fe, where I = "\<lambda>r. timeline r = timeline rs"])
         (auto dest: mark_doomed_frame)
  next
    case False
    with a show ?thesis by auto
  qed
  show ?thesis
    by (rule forEach_state[OF b, where I = "\<lambda>r. timeline r = timeline rs"])
       (use 1 in \<open>auto dest: nav_update_frame\<close>)
qed

lemma loop_body_cells_ok:
  assumes lb: "loop_body cfg rnd t (ns, rs) = Some (ns', rs')"
    and inv: "\<forall>n \<in> set ns. backoff_inv n" and ok: "cells_ok (timeline rs)"
  shows "cells_ok (timeline rs')"
proof -
  obtain ns3 rs3 where p: "perceive cfg t ns rs = (ns3, rs3)" by (cases "perceive cfg t ns rs")
  with lb have c: "forEachM (fsm_update cfg rnd t (physicalBusy ns) (collisionOccurring ns)) ns3 rs3 = Some (ns', rs')"
    by (simp add: loop_body_perceive)
  have "list_all2 (\<lambda>x y. backoff_inv x \<longrightarrow> backoff_inv y) ns ns3"
    using perceive_same[OF p]
    by (rule list_all2_mono) (simp add: same_but_nav_def backoff_inv_def)
  from list_all2_pres[OF this inv] have inv3: "\<forall>n \<in> set ns3. backoff_inv n" .
  from perceive_timeline[OF p] ok have ok3: "cells_ok (timeline rs3)" by simp
  have "cells_ok (timeline rs') \<and> list_all2 (\<lambda>_ _. True) ns3 ns'"
  proof (rule forEachM_rule[OF c, where I = "\<lambda>r. cells_ok (timeline r)"])
    show "cells_ok (timeline rs3)" by fact
  next
    fix x y :: Node and r r' :: RunState
    assume "x \<in> set ns3" and "cells_ok (timeline r)"
      and "fsm_update cfg rnd t (physicalBusy ns) (collisionOccurring ns) x r = Some (y, r')"
    with inv3 fsm_update_cells_ok show "cells_ok (timeline r') \<and> True" by blast
  qed
  then show ?thesis ..
qed

subsection \<open>Evaluation on concrete inputs\<close>

lemma floor_unit: "0 \<le> r \<Longrightarrow> r < 1 \<Longrightarrow> \<lfloor>r::real\<rfloor> = 0"
  by (simp add: floor_eq_iff)

lemma show_nat_digit: "n < 10 \<Longrightarrow> show_nat n = [digit_char n]"
  by (simp add: show_nat.simps)

lemmas eval_defs =
  loop_body_def fsm_update_def transition_def case_IDLE_def case_SENSING_def case_BACKOFF_def
  advance_def case_RX_ACK_def case_FAILED_def timeline_push_def visual_cell_def shouldGenerate_def
  packet_arrival_def shift_def nav_update_def mark_doomed_def channel_stats_def
  collisionOccurring_def physicalBusy_def isFcActive_def isPreambleActive_def rifsWaiters_def
  transmitters_def is_tx_state_def generateBackoff_def resetProtocolState_def new_Node_def
  pow2_def push_log_def rem_is_zero_def LEN_P_def LEN_FC_def LEN_DATA_def LEN_RIFS_def
  LEN_ACK_P_def LEN_ACK_FC_def init_state_def init_nodes_def init_stats_def
  show_int_def show_nat_digit digit_char_def Let_def

subsection \<open>Invariants along a run\<close>

lemma ticks_nb:
  assumes "ticks cfg rnd k (init_state cfg) = Some (ns, rs)"
  shows "\<forall>n \<in> set ns. 0 \<le> nb n"
proof (rule ticks_nodes_inv[OF _ _ _ assms])
  show "\<forall>n \<in> set (fst (init_state cfg)). 0 \<le> nb n"
    using init_nodes_all[of cfg] nb_new by auto
qed (auto simp: same_but_nav_def dest: fsm_update_nb)

lemma ack_node_step:
  "\<exists>n' rs'. fsm_update DEFAULT_CONFIG rnd_zero 16 True False ack_node one_row = Some (n', rs')"
  by (rule fsm_update_total) (simp add: ack_node_def one_row_def)

lemma ticks_queue_inv:
  assumes "ticks cfg rnd k (init_state cfg) = Some (ns, rs)"
  shows "\<forall>n \<in> set ns. queue_inv n"
proof (rule ticks_nodes_inv[OF _ _ _ assms])
  show "\<forall>n \<in> set (fst (init_state cfg)). queue_inv n"
    using init_nodes_all[of cfg] queue_inv_new by auto
next
  fix x y assume "queue_inv x" "same_but_nav x y"
  then show "queue_inv y" by (simp add: same_but_nav_def queue_inv_def)
next
  fix t b c x r y r' assume "queue_inv x" "fsm_update cfg rnd t b c x r = Some (y, r')"
  then show "queue_inv y" by (rule fsm_update_queue_inv)
qed

lemma perceive_queue_inv:
  assumes "\<forall>n \<in> set ns. queue_inv n"
  shows "\<forall>n \<in> set (fst (perceive cfg t ns rs)). queue_inv n"
proof -
  obtain ns3 rs3 where p: "perceive cfg t ns rs = (ns3, rs3)" by (cases "perceive cfg t ns rs")
  have "list_all2 (\<lambda>x y. queue_inv x \<longrightarrow> queue_inv y) ns ns3"
    using perceive_same[OF p]
    by (rule list_all2_mono) (simp add: same_but_nav_def queue_inv_def)
  from list_all2_pres[OF this assms] p show ?thesis by simp
qed

lemma backoff_inv_new: "backoff_inv (new_Node i cfg)"
  by (simp add: backoff_inv_def new_Node_def resetProtocolState_def)

lemma ticks_backoff_inv:
  assumes pe: "0 \<le> pe cfg" and rnd: "\<forall>k. 0 \<le> rnd k"
    and t: "ticks cfg rnd k (init_state cfg) = Some (ns, rs)"
  shows "\<forall>n \<in> set ns. backoff_inv n"
proof (rule ticks_nodes_inv[OF _ _ _ t])
  show "\<forall>n \<in> set (fst (init_state cfg)). backoff_inv n"
    using init_nodes_all[of cfg] backoff_inv_new by auto
next
  fix x y assume "backoff_inv x" "same_but_nav x y"
  then show "backoff_inv y" by (simp add: same_but_nav_def backoff_inv_def)
next
  fix t b c x r y r' assume "backoff_inv x" "fsm_update cfg rnd t b c x r = Some (y, r')"
  then show "backoff_inv y" using fsm_update_backoff_inv[OF _ pe rnd] by blast
qed

lemma cells_ok_fold: "cells_ok m \<Longrightarrow> cells_ok (fold (\<lambda>n tl. tl(node_id n \<mapsto> [])) ns m)"
proof (induction ns arbitrary: m)
  case Nil
  then show ?case by simp
next
  case (Cons n ns)
  from Cons.prems have "cells_ok (m(node_id n \<mapsto> []))"
    by (auto simp: cells_ok_def split: if_splits)
  from Cons.IH[OF this] show ?case by simp
qed

lemma cells_ok_init: "cells_ok (timeline (snd (init_state cfg)))"
  using cells_ok_fold[of Map.empty "init_nodes cfg"]
  by (simp add: init_state_def Let_def cells_ok_def)

lemma ticks_cells_ok:
  assumes pe: "0 \<le> pe cfg" and rnd: "\<forall>k. 0 \<le> rnd k"
  shows "ticks cfg rnd k (init_state cfg) = Some (ns, rs) \<Longrightarrow> cells_ok (timeline rs)"
proof (induction k arbitrary: ns rs)
  case 0
  then show ?case using cells_ok_init[of cfg] by auto
next
  case (Suc k)
  then obtain ns0 rs0 where t: "ticks cfg rnd k (init_state cfg) = Some (ns0, rs0)"
    and lb: "loop_body cfg rnd (int k) (ns0, rs0) = Some (ns, rs)"
    by (auto split: option.splits)
  from loop_body_cells_ok[OF lb ticks_backoff_inv[OF pe rnd t] Suc.IH[OF t]] show ?case .
qed

subsection \<open>Carrier sense\<close>

lemma nav_update_eq:
  "nav_update cfg t p f c n rs =
     (if is_tx_state (state n) then n else n\<lparr>vcs := nav_next cfg p f c (vcs n)\<rparr>,
      rs\<lparr>logs := logs rs @ nav_logs cfg t p f c n\<rparr>)"
  by (simp add: nav_update_def nav_next_def nav_logs_def Let_def push_log_def
      LEN_DATA_def LEN_RIFS_def LEN_ACK_P_def LEN_ACK_FC_def add.commute)

lemma forEach_nav_update:
  "forEach (nav_update cfg t p f c) ns rs =
     (map (\<lambda>n. if is_tx_state (state n) then n else n\<lparr>vcs := nav_next cfg p f c (vcs n)\<rparr>) ns,
      rs\<lparr>logs := logs rs @ concat (map (nav_logs cfg t p f c) ns)\<rparr>)"
proof (induction ns arbitrary: rs)
  case Nil
  show ?case by simp
next
  case (Cons n ns)
  show ?case by (simp add: nav_update_eq[of cfg t p f c n rs] Cons.IH)
qed

lemma forEach_mark_doomed_nodes:
  "fst (forEach (mark_doomed t) ns rs) =
     map (\<lambda>n. if is_tx_state (state n) \<and> \<not> isCurrentTxDoomed n
               then n\<lparr>isCurrentTxDoomed := True\<rparr> else n) ns"
proof (induction ns arbitrary: rs)
  case Nil
  show ?case by simp
next
  case (Cons n ns)
  obtain y r' where m: "mark_doomed t n rs = (y, r')" by (cases "mark_doomed t n rs")
  then have y: "y = (if is_tx_state (state n) \<and> \<not> isCurrentTxDoomed n
               then n\<lparr>isCurrentTxDoomed := True\<rparr> else n)"
    by (auto simp: mark_doomed_def split: if_splits)
  obtain ys r'' where f: "forEach (mark_doomed t) ns r' = (ys, r'')"
    by (cases "forEach (mark_doomed t) ns r'")
  with Cons.IH[of r'] have "ys = map (\<lambda>n. if is_tx_state (state n) \<and> \<not> isCurrentTxDoomed n
               then n\<lparr>isCurrentTxDoomed := True\<rparr> else n) ns" by simp
  with m f y show ?case by simp
qed

lemma flags_in_words:
  "isPreambleActive ns \<longleftrightarrow> (\<exists>m \<in> set ns. state m = TX_PREAMBLE)"
  "isFcActive ns \<longleftrightarrow> (\<exists>m \<in> set ns. state m = TX_FC)"
  "collisionOccurring ns \<longleftrightarrow> 1 < length (filter (\<lambda>m. is_tx_state (state m)) ns)"
  "physicalBusy ns \<longleftrightarrow> 0 < length (filter (\<lambda>m. is_tx_state (state m)) ns)"
  by (auto simp: isPreambleActive_def isFcActive_def collisionOccurring_def physicalBusy_def
      transmitters_def list_ex_iff is_tx_state_def)

lemma perceive_vcs:
  "map vcs (fst (perceive cfg t ns rs)) =
     map (\<lambda>n. if is_tx_state (state n) then vcs n
               else nav_next cfg (isPreambleActive ns) (isFcActive ns) (collisionOccurring ns) (vcs n)) ns"
proof -
  let ?rs1 = "rs\<lparr>stats := channel_stats ns (stats rs)\<rparr>"
  let ?d = "\<lambda>n. if is_tx_state (state n) \<and> \<not> isCurrentTxDoomed n
               then n\<lparr>isCurrentTxDoomed := True\<rparr> else n"
  obtain ns2 rs2 where a: "(if collisionOccurring ns then forEach (mark_doomed t) ns ?rs1 else (ns, ?rs1)) = (ns2, rs2)"
    by (cases "if collisionOccurring ns then forEach (mark_doomed t) ns ?rs1 else (ns, ?rs1)")
  have ns2: "ns2 = (if collisionOccurring ns then map ?d ns else ns)"
    using a forEach_mark_doomed_nodes[of t ns ?rs1] by (auto split: if_splits)
  have "fst (perceive cfg t ns rs) =
      map (\<lambda>n. if is_tx_state (state n) then n
                else n\<lparr>vcs := nav_next cfg (isPreambleActive ns) (isFcActive ns) (collisionOccurring ns) (vcs n)\<rparr>) ns2"
    using a by (simp add: perceive_def Let_def forEach_nav_update)
  then show ?thesis
    by (simp add: ns2 comp_def)
qed

subsection \<open>Entering the preamble\<close>

lemma show_nat_step: "10 \<le> n \<Longrightarrow> show_nat n = show_nat (n div 10) @ [digit_char (n mod 10)]"
  by (simp add: show_nat.simps[of n])

lemma transition_into_preamble:
  assumes "transition cfg rnd t b n c rs = (n', c', rs')"
    and "state n' = TX_PREAMBLE" and "state n \<noteq> TX_PREAMBLE"
  shows "\<not> b \<and> vcs n = 0
       \<and> (state n = SENSING \<and> backoffCounter n' = 0
          \<or> (state n = BACKOFF \<or> state n = BACKOFF_PAUSED)
            \<and> backoffCounter n \<le> 1 \<and> backoffCounter n' = backoffCounter n)"
  using assms
  by (auto simp: transition_defs split: NodeType.splits if_splits prod.splits list.splits)

lemma fsm_update_timeline:
  assumes "fsm_update cfg rnd t b c x r = Some (y, r')"
  shows "\<exists>row cell. timeline r (node_id x) = Some row
           \<and> timeline r' = (timeline r)(node_id x \<mapsto> row @ [cell])"
  using fsm_update_cell[OF assms] by blast

lemma fsm_update_backoff_cell:
  assumes f: "fsm_update cfg rnd t b c x r = Some (y, r')"
    and x: "state x = BACKOFF \<or> state x = BACKOFF_PAUSED" and y: "state y = TX_PREAMBLE"
  shows "\<exists>row. timeline r (node_id x) = Some row
           \<and> timeline r' = (timeline r)(node_id x \<mapsto>
                 row @ [\<lparr>cell_state = BACKOFF, info = Some (backoffCounter x), isCollision = False\<rparr>])"
proof -
  from f obtain g rs1 n1 rs2 c2 rs3 where
    g: "shouldGenerate cfg rnd t r = (g, rs1)"
    and a: "(if g then packet_arrival t x rs1 else (x, rs1)) = (n1, rs2)"
    and tr: "transition cfg rnd t b n1 (state x, None) rs2 = (y, c2, rs3)"
    and p: "timeline_push (node_id x) (visual_cell c c2) rs3 = Some r'"
    by (rule fsm_update_SomeE)
  from a have n1: "state n1 = state x \<and> backoffCounter n1 = backoffCounter x \<and> timeline rs2 = timeline rs1"
    by (auto split: if_splits dest: packet_arrival_frame)
  from shouldGenerate_frame[OF g] n1 transition_frame[OF tr] have tl: "timeline rs3 = timeline r" by simp
  from tr n1 x y have "c2 = (BACKOFF, Some (backoffCounter x))"
    by (auto simp: transition_def case_BACKOFF_def Let_def split: if_splits)
  then have "visual_cell c c2 = \<lparr>cell_state = BACKOFF, info = Some (backoffCounter x), isCollision = False\<rparr>"
    by (simp add: visual_cell_def is_tx_state_def)
  with p tl show ?thesis
    by (auto simp: timeline_push_def split: option.splits)
qed

lemma forEachM_fsm_other_rows:
  assumes "forEachM (fsm_update cfg rnd t b c) xs r = Some (ys, r')"
    and "i \<notin> set (map node_id xs)"
  shows "timeline r' i = timeline r i"
proof -
  have "timeline r' i = timeline r i \<and> list_all2 (\<lambda>_ _. True) xs ys"
  proof (rule forEachM_rule[OF assms(1), where I = "\<lambda>r0. timeline r0 i = timeline r i"])
    show "timeline r i = timeline r i" ..
  next
    fix x y :: Node and r0 r1 :: RunState
    assume x: "x \<in> set xs" and r0: "timeline r0 i = timeline r i"
      and f: "fsm_update cfg rnd t b c x r0 = Some (y, r1)"
    from x assms(2) have "node_id x \<noteq> i" by auto
    with fsm_update_timeline[OF f] r0 show "timeline r1 i = timeline r i \<and> True" by auto
  qed
  then show ?thesis ..
qed

lemma forEachM_fsm_row:
  assumes "forEachM (fsm_update cfg rnd t b c) xs r = Some (ys, r')"
    and "distinct (map node_id xs)" and "j < length xs"
  shows "\<exists>r0 r1. fsm_update cfg rnd t b c (xs ! j) r0 = Some (ys ! j, r1)
           \<and> timeline r' (node_id (xs ! j)) = timeline r1 (node_id (xs ! j))"
  using assms
proof (induction xs arbitrary: r ys j)
  case Nil
  then show ?case by simp
next
  case (Cons x xs)
  from Cons.prems(1) obtain y r1 where f: "fsm_update cfg rnd t b c x r = Some (y, r1)"
    by (cases "fsm_update cfg rnd t b c x r") auto
  from Cons.prems(1) f obtain zs where rest: "forEachM (fsm_update cfg rnd t b c) xs r1 = Some (zs, r')"
    and ys: "ys = y # zs"
    by (cases "forEachM (fsm_update cfg rnd t b c) xs r1") auto
  show ?case
  proof (cases j)
    case 0
    from Cons.prems(2) have "node_id x \<notin> set (map node_id xs)" by simp
    from forEachM_fsm_other_rows[OF rest this] f ys 0 show ?thesis by auto
  next
    case (Suc j')
    with Cons.prems have "distinct (map node_id xs)" "j' < length xs" by simp_all
    from Cons.IH[OF rest this] ys Suc show ?thesis by simp
  qed
qed

lemma init_ids: "map node_id (init_nodes cfg) = [0..nodeCount cfg - 1]"
  by (simp add: init_nodes_def new_Node_def resetProtocolState_def comp_def)

lemma ticks_ids:
  "ticks cfg rnd k (init_state cfg) = Some (ns, rs) \<Longrightarrow> map node_id ns = [0..nodeCount cfg - 1]"
proof (induction k arbitrary: ns rs)
  case 0
  then show ?case by (auto simp: init_state_def Let_def init_ids)
next
  case (Suc k)
  then obtain ns0 rs0 where t: "ticks cfg rnd k (init_state cfg) = Some (ns0, rs0)"
    and lb: "loop_body cfg rnd (int k) (ns0, rs0) = Some (ns, rs)"
    by (auto split: option.splits)
  have "list_all2 (\<lambda>x y. node_id y = node_id x) ns0 ns"
    by (rule loop_body_node_rel[OF lb]) (auto simp: same_but_nav_def dest: fsm_update_frame)
  from list_all2_same_ids[OF this] Suc.IH[OF t] show ?case by simp
qed

lemma loop_body_node:
  assumes lb: "loop_body cfg rnd t (ns, rs) = Some (ns', rs')"
    and d: "distinct (map node_id ns)" and i: "i < length ns"
  shows "\<exists>m r0 r1. same_but_nav (ns ! i) m
           \<and> fsm_update cfg rnd t (physicalBusy ns) (collisionOccurring ns) m r0 = Some (ns' ! i, r1)
           \<and> timeline rs' (node_id (ns ! i)) = timeline r1 (node_id (ns ! i))"
proof -
  obtain ns3 rs3 where p: "perceive cfg t ns rs = (ns3, rs3)" by (cases "perceive cfg t ns rs")
  with lb have c: "forEachM (fsm_update cfg rnd t (physicalBusy ns) (collisionOccurring ns)) ns3 rs3 = Some (ns', rs')"
    by (simp add: loop_body_perceive)
  note same = perceive_same[OF p]
  then have len: "length ns3 = length ns" and si: "same_but_nav (ns ! i) (ns3 ! i)"
    using i by (auto simp: list_all2_conv_all_nth)
  have "list_all2 (\<lambda>x y. node_id y = node_id x) ns ns3"
    using same by (rule list_all2_mono) (simp add: same_but_nav_def)
  from list_all2_same_ids[OF this] d have d3: "distinct (map node_id ns3)" by simp
  from si have id: "node_id (ns3 ! i) = node_id (ns ! i)" by (simp add: same_but_nav_def)
  from forEachM_fsm_row[OF c d3] i len id si show ?thesis by fastforce
qed

lemma pause_run_states:
  "map_option (map state \<circ> fst) (ticks cfg_pause rnd_pause 8 (init_state cfg_pause))
     = Some [IDLE, BACKOFF_PAUSED]
   \<and> map_option (map state \<circ> fst) (ticks cfg_pause rnd_pause 9 (init_state cfg_pause))
     = Some [IDLE, TX_PREAMBLE]"
  by (simp add: eval_nat_numeral cfg_pause_def rnd_pause_def eval_defs upto.simps)

subsection \<open>Scenario 1 of the specification\<close>

lemma is_random_floor: "is_random rnd \<Longrightarrow> \<lfloor>rnd k\<rfloor> = 0"
  by (simp add: is_random_def floor_unit)

lemma is_random_zero: "is_random rnd_zero"
  by (simp add: is_random_def rnd_zero_def)

lemma trivial_run:
  assumes "nodeCount cfg = 1" "simDuration cfg = 10" "packetGenMode cfg = INTERVAL"
    "packetInterval cfg = 100" "dataSlots cfg = 10" "pe cfg = 2" "minBe cfg = 0" "maxBe cfg = 0"
    and "is_random rnd"
  shows "\<exists>res. runSimulation cfg rnd = Some res
           \<and> stats res =
               \<lparr>totalPacketsGenerated = 1, successCount = 0, success1st = 0, success2nd = 0,
                success3rd = 0, failureCount = 0, collisionCount = 0, totalLatency = 0,
                maxQueueDepth = 1, channelIdleTicks = 2, channelTxTicks = 6,
                channelCollisionTicks = 0, channelBackoffTicks = 2\<rparr>
           \<and> timeline res 0 = Some
               [\<lparr>cell_state = IDLE, info = None, isCollision = False\<rparr>,
                \<lparr>cell_state = SENSING, info = None, isCollision = False\<rparr>,
                \<lparr>cell_state = BACKOFF, info = Some 2, isCollision = False\<rparr>,
                \<lparr>cell_state = BACKOFF, info = Some 1, isCollision = False\<rparr>,
                \<lparr>cell_state = TX_PREAMBLE, info = None, isCollision = False\<rparr>,
                \<lparr>cell_state = TX_FC, info = None, isCollision = False\<rparr>,
                \<lparr>cell_state = TX_DATA, info = None, isCollision = False\<rparr>,
                \<lparr>cell_state = TX_DATA, info = None, isCollision = False\<rparr>,
                \<lparr>cell_state = TX_DATA, info = None, isCollision = False\<rparr>,
                \<lparr>cell_state = TX_DATA, info = None, isCollision = False\<rparr>]"
  unfolding runSimulation_def
  by (simp add: assms(1-8) is_random_floor[OF assms(9)] run_loop.simps eval_defs upto.simps)

lemma cfg_trivial_fields:
  "nodeCount cfg_trivial = 1" "simDuration cfg_trivial = 10" "packetGenMode cfg_trivial = INTERVAL"
  "packetInterval cfg_trivial = 100" "dataSlots cfg_trivial = 10" "pe cfg_trivial = 2"
  "minBe cfg_trivial = 0" "maxBe cfg_trivial = 0"
  by (simp_all add: cfg_trivial_def)

subsection \<open>A single node and its first packet\<close>

lemmas step_defs =
  loop_body_def fsm_update_def transition_def case_IDLE_def case_SENSING_def case_BACKOFF_def
  advance_def case_RX_ACK_def case_FAILED_def timeline_push_def visual_cell_def shouldGenerate_def
  packet_arrival_def shift_def nav_update_def mark_doomed_def channel_stats_def
  collisionOccurring_def physicalBusy_def isFcActive_def isPreambleActive_def rifsWaiters_def
  transmitters_def is_tx_state_def generateBackoff_def resetProtocolState_def
  push_log_def LEN_P_def LEN_FC_def LEN_DATA_def LEN_RIFS_def
  LEN_ACK_P_def LEN_ACK_FC_def Let_def

lemma lone_start:
  assumes "nodeCount cfg = 1" "packetGenMode cfg = INTERVAL" "1 \<le> packetInterval cfg"
  shows "\<exists>s. ticks cfg rnd 1 (init_state cfg) = Some s \<and> lone cfg SENSING 0 0 0 s"
  using assms
  by (simp add: lone_def step_defs init_state_def init_nodes_def init_stats_def new_Node_def
      rem_is_zero_def upto.simps)

lemma lone_sensing:
  assumes "packetGenMode cfg = INTERVAL" and "lone cfg SENSING 0 0 0 s"
  shows "\<exists>s'. loop_body cfg rnd t s = Some s'
           \<and> (if first_backoff cfg rnd = 0 then lone cfg TX_PREAMBLE 0 0 1 s'
               else lone cfg BACKOFF (first_backoff cfg rnd) 0 1 s')"
proof (cases "first_backoff cfg rnd = 0")
  case True
  then have "\<lfloor>rnd 0 * pow2 (minBe cfg)\<rfloor> + pe cfg = 0" by (simp add: first_backoff_def)
  with assms True show ?thesis by (auto simp: lone_def step_defs)
next
  case False
  then have "\<lfloor>rnd 0 * pow2 (minBe cfg)\<rfloor> + pe cfg \<noteq> 0" by (simp add: first_backoff_def)
  with assms False show ?thesis by (auto simp: lone_def step_defs first_backoff_def)
qed

lemma lone_backoff:
  assumes "packetGenMode cfg = INTERVAL" and "lone cfg BACKOFF j 0 d s" and "1 < j"
  shows "\<exists>s'. loop_body cfg rnd t s = Some s' \<and> lone cfg BACKOFF (j - 1) 0 d s'"
  using assms
  by (auto simp: lone_def step_defs)

lemma lone_backoff_done:
  assumes "packetGenMode cfg = INTERVAL" and "lone cfg BACKOFF 1 0 d s"
  shows "\<exists>s'. loop_body cfg rnd t s = Some s' \<and> lone cfg TX_PREAMBLE 1 0 d s'"
  using assms
  by (auto simp: lone_def step_defs)

lemma lone_preamble:
  assumes "packetGenMode cfg = INTERVAL" and "lone cfg TX_PREAMBLE bc 0 d s"
  shows "\<exists>s'. loop_body cfg rnd t s = Some s' \<and> lone cfg TX_FC bc 0 d s'"
  using assms
  by (auto simp: lone_def step_defs)

lemma lone_fc:
  assumes "packetGenMode cfg = INTERVAL" and "lone cfg TX_FC bc 0 d s"
  shows "\<exists>s'. loop_body cfg rnd t s = Some s' \<and> lone cfg TX_DATA bc 0 d s'"
  using assms
  by (auto simp: lone_def step_defs)

lemma lone_data:
  assumes "packetGenMode cfg = INTERVAL" and "lone cfg TX_DATA bc j d s" and "j + 1 < dataSlots cfg"
  shows "\<exists>s'. loop_body cfg rnd t s = Some s' \<and> lone cfg TX_DATA bc (j + 1) d s'"
  using assms
  by (auto simp: lone_def step_defs)

lemma lone_data_done:
  assumes "packetGenMode cfg = INTERVAL" and "lone cfg TX_DATA bc j d s" and "dataSlots cfg \<le> j + 1"
  shows "\<exists>s'. loop_body cfg rnd t s = Some s' \<and> lone cfg WAIT_RIFS bc 0 d s'"
  using assms
  by (auto simp: lone_def step_defs)

lemma lone_rifs:
  assumes "packetGenMode cfg = INTERVAL" and "lone cfg WAIT_RIFS bc 0 d s"
  shows "\<exists>s'. loop_body cfg rnd t s = Some s' \<and> lone cfg RX_ACK bc 0 d s'"
  using assms
  by (auto simp: lone_def step_defs)

lemma lone_ack:
  assumes "packetGenMode cfg = INTERVAL" and "lone cfg RX_ACK bc 0 d s"
  shows "\<exists>s'. loop_body cfg rnd t s = Some s' \<and> lone cfg RX_ACK bc 1 d s'"
  using assms
  by (auto simp: lone_def step_defs)

lemma lone_success:
  assumes "packetGenMode cfg = INTERVAL" and "lone cfg RX_ACK bc 1 d s"
  shows "\<exists>ns rs. loop_body cfg rnd t s = Some (ns, rs)
           \<and> successCount (stats rs) = 1 \<and> success1st (stats rs) = 1
           \<and> totalLatency (stats rs) = t"
  using assms
  by (auto simp: lone_def step_defs)

lemma first_backoff_nonneg:
  assumes "0 \<le> pe cfg" and "is_random rnd"
  shows "0 \<le> first_backoff cfg rnd"
proof -
  from assms(2) have "0 \<le> rnd 0" by (simp add: is_random_def)
  from draw_nonneg[OF this, of "minBe cfg"] assms(1) show ?thesis
    by (simp add: first_backoff_def)
qed

lemma ticks_Suc_Some:
  "ticks cfg rnd k s0 = Some s \<Longrightarrow> loop_body cfg rnd (int k) s = Some s'
   \<Longrightarrow> ticks cfg rnd (Suc k) s0 = Some s'"
  by simp

lemma lone_successCount:
  "lone cfg lbl bc tp d s \<Longrightarrow> successCount (stats (snd s)) = 0"
  by (auto simp: lone_def)

lemma lone_run_latency:
  assumes n1: "nodeCount cfg = 1" and mode: "packetGenMode cfg = INTERVAL"
    and pi: "1 \<le> packetInterval cfg" and ds: "1 \<le> dataSlots cfg"
    and c0: "0 \<le> first_backoff cfg rnd"
  shows "\<exists>s ns rs. ticks cfg rnd (6 + nat (first_backoff cfg rnd) + nat (dataSlots cfg)) (init_state cfg) = Some s
           \<and> successCount (stats (snd s)) = 0
           \<and> ticks cfg rnd (7 + nat (first_backoff cfg rnd) + nat (dataSlots cfg)) (init_state cfg) = Some (ns, rs)
           \<and> successCount (stats rs) = 1 \<and> success1st (stats rs) = 1
           \<and> totalLatency (stats rs) = 6 + first_backoff cfg rnd + dataSlots cfg"
proof -
  let ?c = "first_backoff cfg rnd"
  let ?i = "init_state cfg"
  let ?T = "ticks cfg rnd"
  from lone_start[OF n1 mode pi] obtain s1 where
    t1: "?T 1 ?i = Some s1" and l1: "lone cfg SENSING 0 0 0 s1" by blast
  from lone_sensing[OF mode l1, of rnd 1] obtain s2 where
    s2: "loop_body cfg rnd 1 s1 = Some s2"
    and l2: "if ?c = 0 then lone cfg TX_PREAMBLE 0 0 1 s2 else lone cfg BACKOFF ?c 0 1 s2"
    by blast
  from ticks_Suc_Some[OF t1] s2 have t2: "?T 2 ?i = Some s2"
    by (simp add: numeral_2_eq_2)
  have backoff: "\<exists>s. ?T (2 + j) ?i = Some s \<and> lone cfg BACKOFF (?c - int j) 0 1 s"
    if "1 \<le> ?c" "j < nat ?c" for j
    using that
  proof (induction j)
    case 0
    with t2 l2 show ?case by auto
  next
    case (Suc j)
    then obtain s where a: "?T (2 + j) ?i = Some s" and b: "lone cfg BACKOFF (?c - int j) 0 1 s"
      by auto
    from Suc.prems have "1 < ?c - int j" by linarith
    from lone_backoff[OF mode b this, of rnd "int (2 + j)"] obtain s' where
      "loop_body cfg rnd (int (2 + j)) s = Some s'" and "lone cfg BACKOFF (?c - int j - 1) 0 1 s'"
      by blast
    with ticks_Suc_Some[OF a] show ?case by (auto simp: algebra_simps)
  qed
  have "\<exists>s bc. ?T (2 + nat ?c) ?i = Some s \<and> lone cfg TX_PREAMBLE bc 0 1 s"
  proof (cases "?c = 0")
    case True
    with t2 l2 show ?thesis by auto
  next
    case False
    with c0 have c1: "1 \<le> ?c" by linarith
    then have "nat ?c - 1 < nat ?c" by linarith
    from backoff[OF c1 this] obtain s where
      a: "?T (2 + (nat ?c - 1)) ?i = Some s" and b: "lone cfg BACKOFF (?c - int (nat ?c - 1)) 0 1 s"
      by blast
    from c1 have "?c - int (nat ?c - 1) = 1" by linarith
    with b have "lone cfg BACKOFF 1 0 1 s" by simp
    from lone_backoff_done[OF mode this, of rnd "int (2 + (nat ?c - 1))"] obtain s' where
      "loop_body cfg rnd (int (2 + (nat ?c - 1))) s = Some s'" and l: "lone cfg TX_PREAMBLE 1 0 1 s'"
      by blast
    with ticks_Suc_Some[OF a] have "?T (Suc (2 + (nat ?c - 1))) ?i = Some s'" by blast
    moreover from c1 have "Suc (2 + (nat ?c - 1)) = 2 + nat ?c" by linarith
    ultimately show ?thesis using l by auto
  qed
  then obtain s3 bc where t3: "?T (2 + nat ?c) ?i = Some s3" and l3: "lone cfg TX_PREAMBLE bc 0 1 s3"
    by blast
  from lone_preamble[OF mode l3, of rnd "int (2 + nat ?c)"] obtain s4 where
    "loop_body cfg rnd (int (2 + nat ?c)) s3 = Some s4" and l4: "lone cfg TX_FC bc 0 1 s4" by blast
  with ticks_Suc_Some[OF t3] have t4: "?T (3 + nat ?c) ?i = Some s4"
    by (simp add: numeral_3_eq_3 numeral_2_eq_2)
  from lone_fc[OF mode l4, of rnd "int (3 + nat ?c)"] obtain s5 where
    "loop_body cfg rnd (int (3 + nat ?c)) s4 = Some s5" and l5: "lone cfg TX_DATA bc 0 1 s5" by blast
  with ticks_Suc_Some[OF t4] have t5: "?T (4 + nat ?c) ?i = Some s5"
    by (simp add: eval_nat_numeral)
  have data: "\<exists>s. ?T (4 + nat ?c + j) ?i = Some s \<and> lone cfg TX_DATA bc (int j) 1 s"
    if "j < nat (dataSlots cfg)" for j
    using that
  proof (induction j)
    case 0
    with t5 l5 show ?case by auto
  next
    case (Suc j)
    then obtain s where a: "?T (4 + nat ?c + j) ?i = Some s" and b: "lone cfg TX_DATA bc (int j) 1 s"
      by auto
    from Suc.prems have "int j + 1 < dataSlots cfg" by linarith
    from lone_data[OF mode b this, of rnd "int (4 + nat ?c + j)"] obtain s' where
      "loop_body cfg rnd (int (4 + nat ?c + j)) s = Some s'" and "lone cfg TX_DATA bc (int j + 1) 1 s'"
      by blast
    with ticks_Suc_Some[OF a] show ?case by (auto simp: algebra_simps)
  qed
  from ds have "nat (dataSlots cfg) - 1 < nat (dataSlots cfg)" by linarith
  from data[OF this] obtain s6 where
    t6: "?T (4 + nat ?c + (nat (dataSlots cfg) - 1)) ?i = Some s6"
    and l6: "lone cfg TX_DATA bc (int (nat (dataSlots cfg) - 1)) 1 s6" by blast
  from ds have "dataSlots cfg \<le> int (nat (dataSlots cfg) - 1) + 1" by linarith
  from lone_data_done[OF mode l6 this, of rnd "int (4 + nat ?c + (nat (dataSlots cfg) - 1))"]
  obtain s7 where
    "loop_body cfg rnd (int (4 + nat ?c + (nat (dataSlots cfg) - 1))) s6 = Some s7"
    and l7: "lone cfg WAIT_RIFS bc 0 1 s7" by blast
  with ticks_Suc_Some[OF t6] have "?T (Suc (4 + nat ?c + (nat (dataSlots cfg) - 1))) ?i = Some s7"
    by blast
  moreover from ds have "Suc (4 + nat ?c + (nat (dataSlots cfg) - 1)) = 4 + nat ?c + nat (dataSlots cfg)"
    by linarith
  ultimately have t7: "?T (4 + nat ?c + nat (dataSlots cfg)) ?i = Some s7" by (simp only:)
  from lone_rifs[OF mode l7, of rnd "int (4 + nat ?c + nat (dataSlots cfg))"] obtain s8 where
    "loop_body cfg rnd (int (4 + nat ?c + nat (dataSlots cfg))) s7 = Some s8"
    and l8: "lone cfg RX_ACK bc 0 1 s8" by blast
  with ticks_Suc_Some[OF t7] have t8: "?T (5 + nat ?c + nat (dataSlots cfg)) ?i = Some s8"
    by (simp add: eval_nat_numeral)
  from lone_ack[OF mode l8, of rnd "int (5 + nat ?c + nat (dataSlots cfg))"] obtain s9 where
    "loop_body cfg rnd (int (5 + nat ?c + nat (dataSlots cfg))) s8 = Some s9"
    and l9: "lone cfg RX_ACK bc 1 1 s9" by blast
  with ticks_Suc_Some[OF t8] have t9: "?T (6 + nat ?c + nat (dataSlots cfg)) ?i = Some s9"
    by (simp add: eval_nat_numeral)
  from lone_success[OF mode l9, of rnd "int (6 + nat ?c + nat (dataSlots cfg))"] obtain ns rs where
    lb: "loop_body cfg rnd (int (6 + nat ?c + nat (dataSlots cfg))) s9 = Some (ns, rs)"
    and r: "successCount (stats rs) = 1" "success1st (stats rs) = 1"
      "totalLatency (stats rs) = int (6 + nat ?c + nat (dataSlots cfg))" by blast
  from ticks_Suc_Some[OF t9 lb] have t10: "?T (7 + nat ?c + nat (dataSlots cfg)) ?i = Some (ns, rs)"
    by (simp add: eval_nat_numeral)
  from r(3) c0 ds have lat: "totalLatency (stats rs) = 6 + ?c + dataSlots cfg" by simp
  from t9 lone_successCount[OF l9] t10 r(1,2) lat show ?thesis by blast
qed

subsection \<open>Successes are never taken back\<close>

lemma successCount_succ4: "successCount st = fst (succ4 st)"
  by (simp add: succ4_def)

lemma fst_credit: "fst (credit k v) = fst v + 1"
  by (auto simp: credit_def split: prod.splits)

lemma loop_body_successCount_mono:
  assumes "loop_body cfg rnd t (ns, rs) = Some (ns', rs')"
  shows "successCount (stats rs) \<le> successCount (stats rs')"
proof (rule loop_body_state[OF assms, where I = "\<lambda>r. successCount (stats rs) \<le> successCount (stats r)"])
  show "successCount (stats rs) \<le> successCount (stats (rs\<lparr>stats := channel_stats ns (stats rs)\<rparr>))"
    by (simp add: successCount_succ4 channel_stats_succ4)
next
  fix x y :: Node and r r' :: RunState
  assume "successCount (stats rs) \<le> successCount (stats r)" "mark_doomed t x r = (y, r')"
  then show "successCount (stats rs) \<le> successCount (stats r')"
    by (auto simp: successCount_succ4 dest: mark_doomed_succ4)
next
  fix p f c and x y :: Node and r r' :: RunState
  assume "successCount (stats rs) \<le> successCount (stats r)" "nav_update cfg t p f c x r = (y, r')"
  then show "successCount (stats rs) \<le> successCount (stats r')"
    by (auto dest: nav_update_stats)
next
  fix b c and x y :: Node and r r' :: RunState
  assume a: "successCount (stats rs) \<le> successCount (stats r)"
    and f: "fsm_update cfg rnd t b c x r = Some (y, r')"
  from fsm_update_succ4[OF f] have "successCount (stats r) \<le> successCount (stats r')"
    by (auto simp: successCount_succ4 fst_credit split: if_splits)
  with a show "successCount (stats rs) \<le> successCount (stats r')" by simp
qed

lemma ticks_successCount_mono:
  assumes "ticks cfg rnd k s0 = Some (ns, rs)" and "ticks cfg rnd (k + j) s0 = Some (ns', rs')"
  shows "successCount (stats rs) \<le> successCount (stats rs')"
  using assms(2)
proof (induction j arbitrary: ns' rs')
  case 0
  with assms(1) show ?case by simp
next
  case (Suc j)
  then obtain ns1 rs1 where t: "ticks cfg rnd (k + j) s0 = Some (ns1, rs1)"
    and lb: "loop_body cfg rnd (int (k + j)) (ns1, rs1) = Some (ns', rs')"
    by (auto split: option.splits)
  from Suc.IH[OF t] loop_body_successCount_mono[OF lb] show ?case by simp
qed

lemma ticks_no_success_before:
  assumes T: "ticks cfg rnd T (init_state cfg) = Some (ns, rs)" and z: "successCount (stats rs) = 0"
    and k: "k \<le> T"
  shows "\<exists>ns' rs'. ticks cfg rnd k (init_state cfg) = Some (ns', rs') \<and> successCount (stats rs') = 0"
proof -
  obtain ns' rs' where a: "ticks cfg rnd k (init_state cfg) = Some (ns', rs')"
    using ticks_init_total by blast
  have i: "ticks cfg rnd 0 (init_state cfg) = Some (init_state cfg)" by simp
  obtain ns0 rs0 where s0: "init_state cfg = (ns0, rs0)" by (cases "init_state cfg")
  have "successCount (stats rs0) = 0" using s0 by (auto simp: init_state_def Let_def init_stats_def)
  moreover from ticks_successCount_mono[of cfg rnd 0 "init_state cfg" ns0 rs0 k ns' rs'] a s0
  have "successCount (stats rs0) \<le> successCount (stats rs')" by simp
  moreover from k T have "ticks cfg rnd (k + (T - k)) (init_state cfg) = Some (ns, rs)" by simp
  from ticks_successCount_mono[OF a this] z have "successCount (stats rs') \<le> 0" by simp
  ultimately have "successCount (stats rs') = 0" by simp
  with a show ?thesis by blast
qed

subsection \<open>Scenario 2 of the specification\<close>

lemma single_run:
  assumes "nodeCount cfg = 1" "simDuration cfg = 50" "packetGenMode cfg = INTERVAL"
    "packetInterval cfg = 100" "dataSlots cfg = 10" "pe cfg = 0" "minBe cfg = 0" "maxBe cfg = 0"
    and "is_random rnd"
  shows "\<exists>res row. runSimulation cfg rnd = Some res
           \<and> successCount (stats res) = 1 \<and> success1st (stats res) = 1
           \<and> totalLatency (stats res) = 16
           \<and> timeline res 0 = Some row
           \<and> map cell_state row =
               [IDLE, SENSING,
                TX_PREAMBLE, TX_FC,
                TX_DATA, TX_DATA, TX_DATA, TX_DATA, TX_DATA,
                TX_DATA, TX_DATA, TX_DATA, TX_DATA, TX_DATA,
                WAIT_RIFS, RX_ACK, RX_ACK,
                IDLE, IDLE, IDLE, IDLE, IDLE, IDLE, IDLE, IDLE, IDLE, IDLE, IDLE,
                IDLE, IDLE, IDLE, IDLE, IDLE, IDLE, IDLE, IDLE, IDLE, IDLE, IDLE,
                IDLE, IDLE, IDLE, IDLE, IDLE, IDLE, IDLE, IDLE, IDLE, IDLE, IDLE]"
  unfolding runSimulation_def
  by (simp add: assms(1-8) is_random_floor[OF assms(9)] run_loop.simps eval_defs upto.simps)

lemma cfg_single_fields:
  "nodeCount cfg_single = 1" "simDuration cfg_single = 50" "packetGenMode cfg_single = INTERVAL"
  "packetInterval cfg_single = 100" "dataSlots cfg_single = 10" "pe cfg_single = 0"
  "minBe cfg_single = 0" "maxBe cfg_single = 0"
  by (simp_all add: cfg_single_def)

subsection \<open>Dependence on the random draws\<close>

lemma transition_draws:
  "transition cfg rnd t b n c rs = (n', c', rs') \<Longrightarrow> draws rs \<le> draws rs'"
  by (auto simp: transition_defs push_log_def split: NodeType.splits if_splits prod.splits list.splits)

lemma transition_cong:
  assumes "transition cfg rnd t b n c rs = (n', c', rs')"
    and "agree rnd rnd' (draws rs) (draws rs')"
  shows "transition cfg rnd' t b n c rs = (n', c', rs')"
proof (cases "state n = SENSING \<and> \<not> b \<and> vcs n = 0")
  case True
  with assms(1) have "draws rs' = Suc (draws rs)"
    by (auto simp: transition_defs push_log_def split: if_splits)
  with assms(2) have "rnd' (draws rs) = rnd (draws rs)" by (simp add: agree_def)
  with assms(1) True show ?thesis
    by (simp add: transition_def case_SENSING_def)
next
  case False
  with assms(1) show ?thesis
    by (cases "state n") (auto simp: transition_def case_SENSING_def)
qed

lemma timeline_push_draws: "timeline_push i c rs = Some rs' \<Longrightarrow> draws rs' = draws rs"
  by (auto simp: timeline_push_def split: option.splits)

lemma fsm_update_draws:
  assumes "fsm_update cfg rnd t b c n rs = Some (n', rs')"
  shows "draws rs \<le> draws rs'"
proof -
  from assms obtain g rs1 n1 rs2 c2 rs3 where
    g: "shouldGenerate cfg rnd t rs = (g, rs1)"
    and a: "(if g then packet_arrival t n rs1 else (n, rs1)) = (n1, rs2)"
    and tr: "transition cfg rnd t b n1 (state n, None) rs2 = (n', c2, rs3)"
    and p: "timeline_push (node_id n) (visual_cell c c2) rs3 = Some rs'"
    by (rule fsm_update_SomeE)
  from a have "draws rs2 = draws rs1" by (auto split: if_splits dest: packet_arrival_frame)
  with shouldGenerate_draws[OF g] transition_draws[OF tr] timeline_push_draws[OF p]
  show ?thesis by simp
qed

lemma fsm_update_cong:
  assumes "fsm_update cfg rnd t b c n rs = Some (n', rs')"
    and "agree rnd rnd' (draws rs) (draws rs')"
  shows "fsm_update cfg rnd' t b c n rs = Some (n', rs')"
proof -
  from assms(1) obtain g rs1 n1 rs2 c2 rs3 where
    g: "shouldGenerate cfg rnd t rs = (g, rs1)"
    and a: "(if g then packet_arrival t n rs1 else (n, rs1)) = (n1, rs2)"
    and tr: "transition cfg rnd t b n1 (state n, None) rs2 = (n', c2, rs3)"
    and p: "timeline_push (node_id n) (visual_cell c c2) rs3 = Some rs'"
    by (rule fsm_update_SomeE)
  from a have d2: "draws rs2 = draws rs1" by (auto split: if_splits dest: packet_arrival_frame)
  note d3 = transition_draws[OF tr] and d4 = timeline_push_draws[OF p]
  have g': "shouldGenerate cfg rnd' t rs = (g, rs1)"
  proof (cases "packetGenMode cfg = INTERVAL")
    case True
    with g show ?thesis by (simp add: shouldGenerate_def)
  next
    case False
    with g have "draws rs1 = Suc (draws rs)" by (auto simp: shouldGenerate_def)
    with d2 d3 d4 have "draws rs < draws rs'" by simp
    with assms(2) have "rnd' (draws rs) = rnd (draws rs)" by (simp add: agree_def)
    with g False show ?thesis by (simp add: shouldGenerate_def)
  qed
  from assms(2) shouldGenerate_draws[OF g] d2 d4 have "agree rnd rnd' (draws rs2) (draws rs3)"
    by (simp add: agree_def)
  from transition_cong[OF tr this] g' a p show ?thesis
    by (simp add: fsm_update_def)
qed

lemma forEachM_fsm_cong:
  assumes "forEachM (fsm_update cfg rnd t b c) ns rs = Some (ns', rs')"
    and "agree rnd rnd' (draws rs) (draws rs')"
  shows "forEachM (fsm_update cfg rnd' t b c) ns rs = Some (ns', rs') \<and> draws rs \<le> draws rs'"
  using assms
proof (induction ns arbitrary: rs ns')
  case Nil
  then show ?case by simp
next
  case (Cons n ns)
  from Cons.prems(1) obtain y r1 where f: "fsm_update cfg rnd t b c n rs = Some (y, r1)"
    by (cases "fsm_update cfg rnd t b c n rs") auto
  from Cons.prems(1) f obtain ys where rest: "forEachM (fsm_update cfg rnd t b c) ns r1 = Some (ys, rs')"
    and ns': "ns' = y # ys"
    by (cases "forEachM (fsm_update cfg rnd t b c) ns r1") auto
  have mono: "draws r1 \<le> draws rs'"
    by (rule forEachM_state[OF rest, where I = "\<lambda>r. draws r1 \<le> draws r"])
       (auto dest: fsm_update_draws)
  note d1 = fsm_update_draws[OF f]
  from Cons.prems(2) mono have "agree rnd rnd' (draws rs) (draws r1)" by (simp add: agree_def)
  from fsm_update_cong[OF f this] have f': "fsm_update cfg rnd' t b c n rs = Some (y, r1)" .
  from Cons.prems(2) d1 have "agree rnd rnd' (draws r1) (draws rs')" by (simp add: agree_def)
  from Cons.IH[OF rest this] f' ns' d1 show ?case by simp
qed

lemma perceive_draws: "draws (snd (perceive cfg t ns rs)) = draws rs"
proof -
  obtain ns3 rs3 where p: "perceive cfg t ns rs = (ns3, rs3)" by (cases "perceive cfg t ns rs")
  let ?rs1 = "rs\<lparr>stats := channel_stats ns (stats rs)\<rparr>"
  obtain ns2 rs2 where a: "(if collisionOccurring ns then forEach (mark_doomed t) ns ?rs1 else (ns, ?rs1)) = (ns2, rs2)"
    by (cases "if collisionOccurring ns then forEach (mark_doomed t) ns ?rs1 else (ns, ?rs1)")
  with p have b: "forEach (nav_update cfg t (isPreambleActive ns) (isFcActive ns) (collisionOccurring ns)) ns2 rs2 = (ns3, rs3)"
    by (simp add: perceive_def Let_def)
  have 1: "draws rs2 = draws rs"
  proof (cases "collisionOccurring ns")
    case True
    with a have fe: "forEach (mark_doomed t) ns ?rs1 = (ns2, rs2)" by simp
    show ?thesis
      by (rule forEach_state[OF fe, where I = "\<lambda>r. draws r = draws rs"])
         (auto dest: mark_doomed_frame)
  next
    case False
    with a show ?thesis by auto
  qed
  have "draws rs3 = draws rs"
    by (rule forEach_state[OF b, where I = "\<lambda>r. draws r = draws rs"])
       (use 1 in \<open>auto dest: nav_update_frame\<close>)
  with p show ?thesis by simp
qed

lemma loop_body_cong:
  assumes "loop_body cfg rnd t (ns, rs) = Some (ns', rs')"
    and "agree rnd rnd' (draws rs) (draws rs')"
  shows "loop_body cfg rnd' t (ns, rs) = Some (ns', rs') \<and> draws rs \<le> draws rs'"
proof -
  obtain ns3 rs3 where p: "perceive cfg t ns rs = (ns3, rs3)" by (cases "perceive cfg t ns rs")
  with assms(1) have c: "forEachM (fsm_update cfg rnd t (physicalBusy ns) (collisionOccurring ns)) ns3 rs3 = Some (ns', rs')"
    by (simp add: loop_body_perceive)
  from perceive_draws[of cfg t ns rs] p have d: "draws rs3 = draws rs" by simp
  with assms(2) have "agree rnd rnd' (draws rs3) (draws rs')" by simp
  from forEachM_fsm_cong[OF c this] p d show ?thesis by (simp add: loop_body_perceive)
qed

lemma ticks_cong:
  assumes "ticks cfg rnd k s0 = Some (ns, rs)"
    and "agree rnd rnd' (draws (snd s0)) (draws rs)"
  shows "ticks cfg rnd' k s0 = Some (ns, rs) \<and> draws (snd s0) \<le> draws rs"
  using assms
proof (induction k arbitrary: ns rs)
  case 0
  then show ?case by auto
next
  case (Suc k)
  then obtain ns0 rs0 where t: "ticks cfg rnd k s0 = Some (ns0, rs0)"
    and lb: "loop_body cfg rnd (int k) (ns0, rs0) = Some (ns, rs)"
    by (auto split: option.splits)
  have mono: "draws rs0 \<le> draws rs"
    using loop_body_cong[OF lb, of rnd] by (simp add: agree_def)
  from Suc.prems(2) mono have "agree rnd rnd' (draws (snd s0)) (draws rs0)" by (simp add: agree_def)
  from Suc.IH[OF t this] have t': "ticks cfg rnd' k s0 = Some (ns0, rs0)"
    and m0: "draws (snd s0) \<le> draws rs0" by simp_all
  from Suc.prems(2) m0 have "agree rnd rnd' (draws rs0) (draws rs)" by (simp add: agree_def)
  from loop_body_cong[OF lb this] t' m0 show ?case by simp
qed

lemma run_cong:
  assumes "\<forall>k < draws_used cfg rnd. rnd' k = rnd k"
  shows "runSimulation cfg rnd' = runSimulation cfg rnd
       \<and> draws_used cfg rnd' = draws_used cfg rnd"
proof -
  let ?D = "nat (simDuration cfg)"
  obtain ns rs where t: "ticks cfg rnd ?D (init_state cfg) = Some (ns, rs)"
    using ticks_init_total by blast
  then have u: "draws_used cfg rnd = draws rs"
    by (simp add: draws_used_def run_loop_eq_ticks)
  have "draws (snd (init_state cfg)) = 0" by (simp add: init_state_def Let_def)
  with assms u have "agree rnd rnd' (draws (snd (init_state cfg))) (draws rs)"
    by (simp add: agree_def)
  from ticks_cong[OF t this] have t': "ticks cfg rnd' ?D (init_state cfg) = Some (ns, rs)" by simp
  from t t' show ?thesis
    by (simp add: runSimulation_ticks draws_used_def run_loop_eq_ticks)
qed

subsection \<open>The number of draws of a tick\<close>

lemma shouldGenerate_draws_eq:
  "shouldGenerate cfg rnd t r = (g, r') \<Longrightarrow> draws r' = draws r + arrival_draws cfg"
  by (auto simp: shouldGenerate_def arrival_draws_def split: if_splits)

lemma transition_draws_eq:
  "transition cfg rnd t b n c rs = (n', c', rs') \<Longrightarrow> draws rs' = draws rs + backoff_draws b n"
  by (auto simp: transition_defs push_log_def backoff_draws_def
      split: NodeType.splits if_splits prod.splits list.splits)

lemma fsm_update_draws_eq:
  assumes "fsm_update cfg rnd t b c n rs = Some (n', rs')"
  shows "draws rs' = draws rs + (arrival_draws cfg + backoff_draws b n)"
proof -
  from assms obtain g rs1 n1 rs2 c2 rs3 where
    g: "shouldGenerate cfg rnd t rs = (g, rs1)"
    and a: "(if g then packet_arrival t n rs1 else (n, rs1)) = (n1, rs2)"
    and tr: "transition cfg rnd t b n1 (state n, None) rs2 = (n', c2, rs3)"
    and p: "timeline_push (node_id n) (visual_cell c c2) rs3 = Some rs'"
    by (rule fsm_update_SomeE)
  from a have d2: "draws rs2 = draws rs1" and s: "state n1 = state n" and v: "vcs n1 = vcs n"
    by (auto split: if_splits dest: packet_arrival_frame)
  from s v have "backoff_draws b n1 = backoff_draws b n" by (simp add: backoff_draws_def)
  with shouldGenerate_draws_eq[OF g] d2 transition_draws_eq[OF tr] timeline_push_draws[OF p]
  show ?thesis by simp
qed

lemma forEachM_fsm_draws_eq:
  "forEachM (fsm_update cfg rnd t b c) ns rs = Some (ns', rs') \<Longrightarrow>
   draws rs' = draws rs + sum_list (map (\<lambda>n. arrival_draws cfg + backoff_draws b n) ns)"
proof (induction ns arbitrary: rs ns')
  case Nil
  then show ?case by simp
next
  case (Cons n ns)
  from Cons.prems obtain y r1 where f: "fsm_update cfg rnd t b c n rs = Some (y, r1)"
    by (cases "fsm_update cfg rnd t b c n rs") auto
  from Cons.prems f obtain ys where rest: "forEachM (fsm_update cfg rnd t b c) ns r1 = Some (ys, rs')"
    by (cases "forEachM (fsm_update cfg rnd t b c) ns r1") auto
  from Cons.IH[OF rest] fsm_update_draws_eq[OF f] show ?case by simp
qed

lemma loop_body_draws_eq:
  assumes "loop_body cfg rnd t (ns, rs) = Some (ns', rs')"
  shows "draws rs' = draws rs + tick_draws cfg t ns rs"
proof -
  obtain ns3 rs3 where p: "perceive cfg t ns rs = (ns3, rs3)" by (cases "perceive cfg t ns rs")
  with assms have c: "forEachM (fsm_update cfg rnd t (physicalBusy ns) (collisionOccurring ns)) ns3 rs3 = Some (ns', rs')"
    by (simp add: loop_body_perceive)
  from perceive_draws[of cfg t ns rs] p have d: "draws rs3 = draws rs" by simp
  from forEachM_fsm_draws_eq[OF c] d p show ?thesis by (simp add: tick_draws_def)
qed

lemma ticks_draws_eq:
  "\<exists>ns rs ns' rs'.
      ticks cfg rnd k (init_state cfg) = Some (ns, rs)
    \<and> ticks cfg rnd (Suc k) (init_state cfg) = Some (ns', rs')
    \<and> draws rs' = draws rs + tick_draws cfg (int k) ns rs"
proof -
  obtain ns rs where a: "ticks cfg rnd k (init_state cfg) = Some (ns, rs)"
    using ticks_init_total by blast
  obtain ns' rs' where b: "ticks cfg rnd (Suc k) (init_state cfg) = Some (ns', rs')"
    using ticks_init_total by blast
  with a have "loop_body cfg rnd (int k) (ns, rs) = Some (ns', rs')" by simp
  from loop_body_draws_eq[OF this] a b show ?thesis by blast
qed

subsection \<open>Runs in \<open>RANDOM\<close> mode\<close>

lemma cycle_run_draws: "draws_used cfg_random rnd_cycle = 3"
  by (simp add: draws_used_def cfg_random_def rnd_cycle_def run_loop.simps eval_defs upto.simps)

lemma cycle_run_packets:
  "map_option (totalPacketsGenerated \<circ> stats) (runSimulation cfg_random rnd_cycle) = Some 1"
  by (simp add: runSimulation_def cfg_random_def rnd_cycle_def run_loop.simps eval_defs upto.simps)

lemma cycle_tick1:
  "\<exists>ns rs. ticks cfg_random rnd_cycle (Suc 0) (init_state cfg_random) = Some (ns, rs)
      \<and> draws rs = 1 \<and> tick_draws cfg_random 1 ns rs = 2"
  by (simp add: tick_draws_def perceive_def arrival_draws_def backoff_draws_def cfg_random_def
      rnd_cycle_def eval_defs upto.simps)

lemma late_first_run:
  "map_option (totalPacketsGenerated \<circ> stats) (runSimulation cfg_random rnd_late) = Some 2
   \<and> draws_used cfg_random rnd_late = 3"
  by (simp add: runSimulation_def draws_used_def cfg_random_def rnd_late_def run_loop.simps
      eval_defs upto.simps)

lemma late_second_run:
  "map_option (totalPacketsGenerated \<circ> stats)
     (runSimulation cfg_random (\<lambda>k. rnd_late (3 + k))) = Some 0"
  by (simp add: runSimulation_def cfg_random_def rnd_late_def run_loop.simps eval_defs upto.simps)

section \<open>The claims\<close>

text \<open>
  C1. For every configuration (of a duration that is not negative) and every run, the
  run returns, and at its end
  \<open>channelIdleTicks + channelTxTicks + channelCollisionTicks + channelBackoffTicks\<close>
  is \<open>simDuration\<close>; every tick increments exactly one of the four counters, the one
  chosen by the priority: collision, then physically busy or RIFS, then some node in
  \<open>BACKOFF\<close> or \<open>BACKOFF_PAUSED\<close>, else idle.
\<close>

theorem channel_bins_partition_the_run:
  assumes "0 \<le> simDuration cfg"
  shows "\<exists>res. runSimulation cfg rnd = Some res
           \<and> channelIdleTicks (stats res) + channelTxTicks (stats res)
               + channelCollisionTicks (stats res) + channelBackoffTicks (stats res)
             = simDuration cfg
           \<and> (\<forall>k < nat (simDuration cfg). \<exists>ns rs ns' rs'.
                 ticks cfg rnd k (init_state cfg) = Some (ns, rs)
               \<and> ticks cfg rnd (Suc k) (init_state cfg) = Some (ns', rs')
               \<and> bins4 (stats rs') = bump (classify ns) (bins4 (stats rs)))"
proof -
  obtain ns rs where fin: "ticks cfg rnd (nat (simDuration cfg)) (init_state cfg) = Some (ns, rs)"
    using ticks_init_total by blast
  let ?res = "\<lparr>timeline = timeline rs, logs = logs rs, stats = stats rs, duration = simDuration cfg\<rparr>"
  have run: "runSimulation cfg rnd = Some ?res"
    by (simp add: runSimulation_ticks fin)
  from ticks_bins[OF fin] assms
  have total: "channelIdleTicks (stats ?res) + channelTxTicks (stats ?res)
               + channelCollisionTicks (stats ?res) + channelBackoffTicks (stats ?res)
             = simDuration cfg"
    by (simp add: bins4_init) (simp add: bins4_def)
  have step: "\<exists>ns rs ns' rs'.
                 ticks cfg rnd k (init_state cfg) = Some (ns, rs)
               \<and> ticks cfg rnd (Suc k) (init_state cfg) = Some (ns', rs')
               \<and> bins4 (stats rs') = bump (classify ns) (bins4 (stats rs))" for k
  proof -
    obtain ns0 rs0 where a: "ticks cfg rnd k (init_state cfg) = Some (ns0, rs0)"
      using ticks_init_total by blast
    obtain ns1 rs1 where b: "ticks cfg rnd (Suc k) (init_state cfg) = Some (ns1, rs1)"
      using ticks_init_total by blast
    from a b have "loop_body cfg rnd (int k) (ns0, rs0) = Some (ns1, rs1)" by simp
    from loop_body_bins[OF this] a b show ?thesis by blast
  qed
  from run total step show ?thesis by blast
qed

theorem channel_bins_partition_the_run_witness:
  "0 \<le> simDuration DEFAULT_CONFIG
   \<and> (\<exists>res. runSimulation DEFAULT_CONFIG rnd_zero = Some res
           \<and> channelIdleTicks (stats res) + channelTxTicks (stats res)
               + channelCollisionTicks (stats res) + channelBackoffTicks (stats res)
             = 500
           \<and> (\<forall>k < 500. \<exists>ns rs ns' rs'.
                 ticks DEFAULT_CONFIG rnd_zero k (init_state DEFAULT_CONFIG) = Some (ns, rs)
               \<and> ticks DEFAULT_CONFIG rnd_zero (Suc k) (init_state DEFAULT_CONFIG) = Some (ns', rs')
               \<and> bins4 (stats rs') = bump (classify ns) (bins4 (stats rs))))"
proof -
  have h: "0 \<le> simDuration DEFAULT_CONFIG" by (simp add: DEFAULT_CONFIG_def)
  have d: "simDuration DEFAULT_CONFIG = 500" by (simp add: DEFAULT_CONFIG_def)
  show ?thesis
    using h channel_bins_partition_the_run[OF h, of rnd_zero] unfolding d by simp
qed

text \<open>
  C2, as the code has it. \<open>runSimulation\<close> takes the configuration only and draws from
  \<open>Math.random()\<close>. A run that starts after \<open>d\<close> calls of the generator returns a result
  and makes \<open>n\<close> calls; a run of the same configuration that starts after \<open>d'\<close> calls
  returns the same timeline, logs and statistics, and makes as many calls, if the
  generator returns to it, call by call, the values it returned to the first. The \<open>n\<close>
  calls are, tick after tick, those of \<open>tick_draws\<close>: one per node for the arrival in
  \<open>RANDOM\<close> mode, none in \<open>INTERVAL\<close> mode, and one per node in \<open>SENSING\<close> that finds the
  channel free.
\<close>

theorem equal_draws_give_equal_runs:
  "\<exists>res n.
      handleRun cfg rnd d = (Some res, d + n)
    \<and> ((\<forall>k<n. rnd (d' + k) = rnd (d + k)) \<longrightarrow> handleRun cfg rnd d' = (Some res, d' + n))
    \<and> (\<exists>ns rs. ticks cfg (\<lambda>i. rnd (d + i)) (nat (simDuration cfg)) (init_state cfg) = Some (ns, rs)
          \<and> draws rs = n)
    \<and> (\<forall>k < nat (simDuration cfg). \<exists>ns rs ns' rs'.
          ticks cfg (\<lambda>i. rnd (d + i)) k (init_state cfg) = Some (ns, rs)
        \<and> ticks cfg (\<lambda>i. rnd (d + i)) (Suc k) (init_state cfg) = Some (ns', rs')
        \<and> draws rs' = draws rs + tick_draws cfg (int k) ns rs)"
proof -
  let ?r = "\<lambda>i. rnd (d + i)" and ?r' = "\<lambda>i. rnd (d' + i)"
  let ?n = "draws_used cfg ?r"
  obtain ns rs where t: "ticks cfg ?r (nat (simDuration cfg)) (init_state cfg) = Some (ns, rs)"
    using ticks_init_total by blast
  then obtain res where res: "runSimulation cfg ?r = Some res"
    by (simp add: runSimulation_ticks)
  from t have n: "draws rs = ?n" by (simp add: draws_used_def run_loop_eq_ticks)
  from res have 1: "handleRun cfg rnd d = (Some res, d + ?n)"
    by (simp add: handleRun_def Let_def)
  have 2: "handleRun cfg rnd d' = (Some res, d' + ?n)" if "\<forall>k < ?n. rnd (d' + k) = rnd (d + k)"
    using run_cong[of cfg ?r ?r', OF that] res by (simp add: handleRun_def Let_def)
  have 3: "\<forall>k < nat (simDuration cfg). \<exists>ns rs ns' rs'.
          ticks cfg ?r k (init_state cfg) = Some (ns, rs)
        \<and> ticks cfg ?r (Suc k) (init_state cfg) = Some (ns', rs')
        \<and> draws rs' = draws rs + tick_draws cfg (int k) ns rs"
    using ticks_draws_eq by blast
  from 1 2 3 t n show ?thesis by blast
qed

theorem equal_draws_give_equal_runs_witness:
  "snd (handleRun cfg_random rnd_cycle 0) = 3
   \<and> rnd_cycle 3 = rnd_cycle 0 \<and> rnd_cycle 4 = rnd_cycle 1 \<and> rnd_cycle 5 = rnd_cycle 2
   \<and> rnd_cycle 0 \<noteq> rnd_cycle 1 \<and> rnd_cycle 1 \<noteq> rnd_cycle 2
   \<and> handleRun cfg_random rnd_cycle 3 = (fst (handleRun cfg_random rnd_cycle 0), 6)
   \<and> map_option (totalPacketsGenerated \<circ> stats) (fst (handleRun cfg_random rnd_cycle 0)) = Some 1
   \<and> (\<exists>ns rs ns' rs'.
          ticks cfg_random rnd_cycle 1 (init_state cfg_random) = Some (ns, rs)
        \<and> ticks cfg_random rnd_cycle 2 (init_state cfg_random) = Some (ns', rs')
        \<and> draws rs = 1 \<and> tick_draws cfg_random 1 ns rs = 2 \<and> draws rs' = 3)"
proof -
  have eta: "(\<lambda>i. rnd_cycle (0 + i)) = rnd_cycle" by simp
  have D: "nat (simDuration cfg_random) = 2" by (simp add: cfg_random_def)
  from equal_draws_give_equal_runs[of cfg_random rnd_cycle 0 3]
  obtain res n where h: "handleRun cfg_random rnd_cycle 0 = (Some res, n)"
    and imp: "(\<forall>k<n. rnd_cycle (3 + k) = rnd_cycle k) \<longrightarrow>
                handleRun cfg_random rnd_cycle 3 = (Some res, 3 + n)"
    and acc: "\<forall>k<2. \<exists>ns rs ns' rs'.
          ticks cfg_random rnd_cycle k (init_state cfg_random) = Some (ns, rs)
        \<and> ticks cfg_random rnd_cycle (Suc k) (init_state cfg_random) = Some (ns', rs')
        \<and> draws rs' = draws rs + tick_draws cfg_random (int k) ns rs"
    unfolding eta D by auto
  have "snd (handleRun cfg_random rnd_cycle 0) = draws_used cfg_random rnd_cycle"
    by (simp add: handleRun_def Let_def)
  with h cycle_run_draws have n: "n = 3" by simp
  have v: "rnd_cycle 3 = rnd_cycle 0" "rnd_cycle 4 = rnd_cycle 1" "rnd_cycle 5 = rnd_cycle 2"
    "rnd_cycle 0 \<noteq> rnd_cycle 1" "rnd_cycle 1 \<noteq> rnd_cycle 2"
    by (simp_all add: rnd_cycle_def)
  have "\<forall>k<n. rnd_cycle (3 + k) = rnd_cycle k" by (simp add: rnd_cycle_def)
  with imp n have second: "handleRun cfg_random rnd_cycle 3 = (Some res, 6)" by simp
  have "fst (handleRun cfg_random rnd_cycle 0) = runSimulation cfg_random rnd_cycle"
    by (simp add: handleRun_def Let_def)
  with cycle_run_packets
  have p: "map_option (totalPacketsGenerated \<circ> stats) (fst (handleRun cfg_random rnd_cycle 0)) = Some 1"
    by simp
  from cycle_tick1 obtain ns rs where
    t1: "ticks cfg_random rnd_cycle 1 (init_state cfg_random) = Some (ns, rs)"
    and d1: "draws rs = 1" and td: "tick_draws cfg_random 1 ns rs = 2"
    by auto
  from acc[rule_format, of 1] t1 obtain ns' rs' where
    t2: "ticks cfg_random rnd_cycle 2 (init_state cfg_random) = Some (ns', rs')"
    and d2: "draws rs' = draws rs + tick_draws cfg_random 1 ns rs"
    by (auto simp: numeral_2_eq_2)
  from d1 td d2 have "draws rs' = 3" by simp
  with t1 t2 d1 td have e: "\<exists>ns rs ns' rs'.
          ticks cfg_random rnd_cycle 1 (init_state cfg_random) = Some (ns, rs)
        \<and> ticks cfg_random rnd_cycle 2 (init_state cfg_random) = Some (ns', rs')
        \<and> draws rs = 1 \<and> tick_draws cfg_random 1 ns rs = 2 \<and> draws rs' = 3"
    by blast
  from h n have s: "snd (handleRun cfg_random rnd_cycle 0) = 3" by simp
  from h second have q: "handleRun cfg_random rnd_cycle 3 = (fst (handleRun cfg_random rnd_cycle 0), 6)"
    by simp
  from s v q p e show ?thesis by (intro conjI)
qed

text \<open>
  C2 as stated fails: one configuration and one generator, and the second run differs
  from the first. The first run makes three calls, which return \<open>0\<close>, and generates two
  packets; the second run starts at the fourth value of the generator, which returns
  \<open>1/2\<close> from there on, and generates no packet.
\<close>

theorem second_run_differs_from_first:
  "snd (handleRun cfg_random rnd_late 0) = 3
   \<and> fst (handleRun cfg_random rnd_late 3) \<noteq> fst (handleRun cfg_random rnd_late 0)
   \<and> map_option (totalPacketsGenerated \<circ> stats) (fst (handleRun cfg_random rnd_late 0)) = Some 2
   \<and> map_option (totalPacketsGenerated \<circ> stats) (fst (handleRun cfg_random rnd_late 3)) = Some 0"
proof -
  have a: "fst (handleRun cfg_random rnd_late 0) = runSimulation cfg_random rnd_late"
    and b: "fst (handleRun cfg_random rnd_late 3) = runSimulation cfg_random (\<lambda>k. rnd_late (3 + k))"
    and c: "snd (handleRun cfg_random rnd_late 0) = draws_used cfg_random rnd_late"
    by (simp_all add: handleRun_def Let_def)
  have "runSimulation cfg_random (\<lambda>k. rnd_late (3 + k)) \<noteq> runSimulation cfg_random rnd_late"
    using late_first_run late_second_run by auto
  with late_first_run late_second_run show ?thesis unfolding a b c by simp
qed

text \<open>
  C3, as the code has it. For one node, \<open>simDuration = 10\<close>, \<open>INTERVAL\<close> mode,
  \<open>packetInterval = 100\<close>, \<open>dataSlots = 10\<close>, \<open>pe = 2\<close> and \<open>minBe = maxBe = 0\<close>: a packet
  arrives in tick 0 (\<open>0 % 100 === 0\<close>), so the run generates one packet, is idle for two
  ticks, backs off for two, transmits for six, and has neither a success nor a failure;
  the timeline row of the node is Idle, Sensing, Backoff (2), Backoff (1), Preamble, FC
  and four cells of Data.
\<close>

theorem trivial_scenario_sends_one_packet:
  assumes "nodeCount cfg = 1" "simDuration cfg = 10" "packetGenMode cfg = INTERVAL"
    "packetInterval cfg = 100" "dataSlots cfg = 10" "pe cfg = 2" "minBe cfg = 0" "maxBe cfg = 0"
    and "is_random rnd"
  shows "\<exists>res. runSimulation cfg rnd = Some res
           \<and> stats res =
               \<lparr>totalPacketsGenerated = 1, successCount = 0, success1st = 0, success2nd = 0,
                success3rd = 0, failureCount = 0, collisionCount = 0, totalLatency = 0,
                maxQueueDepth = 1, channelIdleTicks = 2, channelTxTicks = 6,
                channelCollisionTicks = 0, channelBackoffTicks = 2\<rparr>
           \<and> timeline res 0 = Some
               [\<lparr>cell_state = IDLE, info = None, isCollision = False\<rparr>,
                \<lparr>cell_state = SENSING, info = None, isCollision = False\<rparr>,
                \<lparr>cell_state = BACKOFF, info = Some 2, isCollision = False\<rparr>,
                \<lparr>cell_state = BACKOFF, info = Some 1, isCollision = False\<rparr>,
                \<lparr>cell_state = TX_PREAMBLE, info = None, isCollision = False\<rparr>,
                \<lparr>cell_state = TX_FC, info = None, isCollision = False\<rparr>,
                \<lparr>cell_state = TX_DATA, info = None, isCollision = False\<rparr>,
                \<lparr>cell_state = TX_DATA, info = None, isCollision = False\<rparr>,
                \<lparr>cell_state = TX_DATA, info = None, isCollision = False\<rparr>,
                \<lparr>cell_state = TX_DATA, info = None, isCollision = False\<rparr>]"
  using assms by (rule trivial_run)

theorem trivial_scenario_sends_one_packet_witness:
  "nodeCount cfg_trivial = 1 \<and> simDuration cfg_trivial = 10 \<and> packetGenMode cfg_trivial = INTERVAL
   \<and> packetInterval cfg_trivial = 100 \<and> dataSlots cfg_trivial = 10 \<and> pe cfg_trivial = 2
   \<and> minBe cfg_trivial = 0 \<and> maxBe cfg_trivial = 0 \<and> is_random rnd_zero
   \<and> (\<exists>res. runSimulation cfg_trivial rnd_zero = Some res
          \<and> totalPacketsGenerated (stats res) = 1 \<and> channelIdleTicks (stats res) = 2
          \<and> channelTxTicks (stats res) = 6 \<and> channelBackoffTicks (stats res) = 2)"
proof -
  from trivial_scenario_sends_one_packet[OF cfg_trivial_fields is_random_zero]
  have "\<exists>res. runSimulation cfg_trivial rnd_zero = Some res
          \<and> totalPacketsGenerated (stats res) = 1 \<and> channelIdleTicks (stats res) = 2
          \<and> channelTxTicks (stats res) = 6 \<and> channelBackoffTicks (stats res) = 2"
    by auto
  with cfg_trivial_fields is_random_zero show ?thesis by (intro conjI)
qed

text \<open>
  C3 as stated fails: the run generates a packet, and only two of its ten ticks are idle.
\<close>

theorem trivial_scenario_is_not_idle:
  "map_option (totalPacketsGenerated \<circ> stats) (runSimulation cfg_trivial rnd_zero) = Some 1
   \<and> map_option (channelIdleTicks \<circ> stats) (runSimulation cfg_trivial rnd_zero) = Some 2
   \<and> map_option (channelTxTicks \<circ> stats) (runSimulation cfg_trivial rnd_zero) = Some 6
   \<and> map_option (channelBackoffTicks \<circ> stats) (runSimulation cfg_trivial rnd_zero) = Some 2"
  using trivial_run[OF cfg_trivial_fields is_random_zero] by auto

text \<open>
  C4, as the code has it. For a single node in \<open>INTERVAL\<close> mode (with \<open>packetInterval\<close> and
  \<open>dataSlots\<close> at least \<open>1\<close>, \<open>pe\<close> not negative, draws in \<open>[0, 1)\<close>), the first packet
  succeeds in tick \<open>1 + first_backoff + (3 + dataSlots + 2)\<close> and nothing succeeds before,
  counted in \<open>success1st\<close>, with exactly that latency: one tick of Sensing, the backoff,
  and the frame.
  In the scenario (\<open>simDuration = 50\<close>, \<open>packetInterval = 100\<close>, \<open>dataSlots = 10\<close>, \<open>pe = 0\<close>,
  \<open>minBe = maxBe = 0\<close>) the run ends with \<open>success1st = 1\<close> and \<open>totalLatency = 16\<close>, and the
  frame occupies the ticks 2 to 16.
\<close>

theorem first_packet_latency_single_node:
  assumes "nodeCount cfg = 1" and "packetGenMode cfg = INTERVAL" and "1 \<le> packetInterval cfg"
    and "1 \<le> dataSlots cfg" and "0 \<le> pe cfg" and "is_random rnd"
  shows "(\<forall>k \<le> nat (1 + first_backoff cfg rnd + (3 + dataSlots cfg + 2)).
            \<exists>ns rs. ticks cfg rnd k (init_state cfg) = Some (ns, rs) \<and> successCount (stats rs) = 0)
       \<and> (\<exists>ns rs. ticks cfg rnd (Suc (nat (1 + first_backoff cfg rnd + (3 + dataSlots cfg + 2)))) (init_state cfg)
                   = Some (ns, rs)
              \<and> successCount (stats rs) = 1 \<and> success1st (stats rs) = 1
              \<and> totalLatency (stats rs) = 1 + first_backoff cfg rnd + (3 + dataSlots cfg + 2))
       \<and> (simDuration cfg = 50 \<and> packetInterval cfg = 100 \<and> dataSlots cfg = 10 \<and> pe cfg = 0
            \<and> minBe cfg = 0 \<and> maxBe cfg = 0 \<longrightarrow>
           (\<exists>res row. runSimulation cfg rnd = Some res
              \<and> successCount (stats res) = 1 \<and> success1st (stats res) = 1
              \<and> totalLatency (stats res) = 16
              \<and> timeline res 0 = Some row
              \<and> map cell_state row =
                  [IDLE, SENSING,
                   TX_PREAMBLE, TX_FC,
                   TX_DATA, TX_DATA, TX_DATA, TX_DATA, TX_DATA,
                   TX_DATA, TX_DATA, TX_DATA, TX_DATA, TX_DATA,
                   WAIT_RIFS, RX_ACK, RX_ACK,
                   IDLE, IDLE, IDLE, IDLE, IDLE, IDLE, IDLE, IDLE, IDLE, IDLE, IDLE,
                   IDLE, IDLE, IDLE, IDLE, IDLE, IDLE, IDLE, IDLE, IDLE, IDLE, IDLE,
                   IDLE, IDLE, IDLE, IDLE, IDLE, IDLE, IDLE, IDLE, IDLE, IDLE, IDLE]))"
proof -
  let ?c = "first_backoff cfg rnd"
  from first_backoff_nonneg[OF assms(5,6)] have c0: "0 \<le> ?c" .
  from c0 assms(4) have T: "nat (1 + ?c + (3 + dataSlots cfg + 2)) = 6 + nat ?c + nat (dataSlots cfg)"
    by linarith
  then have T': "Suc (nat (1 + ?c + (3 + dataSlots cfg + 2))) = 7 + nat ?c + nat (dataSlots cfg)"
    by linarith
  have L: "1 + ?c + (3 + dataSlots cfg + 2) = 6 + ?c + dataSlots cfg" by simp
  from lone_run_latency[OF assms(1-4) c0] obtain s ns rs where
    a: "ticks cfg rnd (6 + nat ?c + nat (dataSlots cfg)) (init_state cfg) = Some s"
    and b: "successCount (stats (snd s)) = 0"
    and c: "ticks cfg rnd (7 + nat ?c + nat (dataSlots cfg)) (init_state cfg) = Some (ns, rs)"
    and d: "successCount (stats rs) = 1" "success1st (stats rs) = 1"
      "totalLatency (stats rs) = 6 + ?c + dataSlots cfg"
    by blast
  have a': "ticks cfg rnd (nat (1 + ?c + (3 + dataSlots cfg + 2))) (init_state cfg) = Some (fst s, snd s)"
    unfolding T using a by simp
  have c': "ticks cfg rnd (Suc (nat (1 + ?c + (3 + dataSlots cfg + 2)))) (init_state cfg) = Some (ns, rs)"
    unfolding T' by (rule c)
  from d(3) have d': "totalLatency (stats rs) = 1 + ?c + (3 + dataSlots cfg + 2)" by simp
  from ticks_no_success_before[OF a' b]
  have A: "\<forall>k \<le> nat (1 + ?c + (3 + dataSlots cfg + 2)).
            \<exists>ns rs. ticks cfg rnd k (init_state cfg) = Some (ns, rs) \<and> successCount (stats rs) = 0"
    by blast
  from c' d(1,2) d' have B: "\<exists>ns rs. ticks cfg rnd (Suc (nat (1 + ?c + (3 + dataSlots cfg + 2)))) (init_state cfg)
                   = Some (ns, rs)
              \<and> successCount (stats rs) = 1 \<and> success1st (stats rs) = 1
              \<and> totalLatency (stats rs) = 1 + ?c + (3 + dataSlots cfg + 2)"
    by blast
  from single_run[OF assms(1) _ assms(2) _ _ _ _ _ assms(6)] A B show ?thesis by blast
qed

theorem first_packet_latency_single_node_witness:
  "nodeCount cfg_single = 1 \<and> packetGenMode cfg_single = INTERVAL \<and> 1 \<le> packetInterval cfg_single
   \<and> 1 \<le> dataSlots cfg_single \<and> 0 \<le> pe cfg_single \<and> is_random rnd_zero
   \<and> first_backoff cfg_single rnd_zero = 0
   \<and> (\<exists>ns rs. ticks cfg_single rnd_zero 16 (init_state cfg_single) = Some (ns, rs)
         \<and> successCount (stats rs) = 0)
   \<and> (\<exists>ns rs. ticks cfg_single rnd_zero 17 (init_state cfg_single) = Some (ns, rs)
         \<and> successCount (stats rs) = 1 \<and> success1st (stats rs) = 1
         \<and> totalLatency (stats rs) = 16)
   \<and> (\<exists>res. runSimulation cfg_single rnd_zero = Some res
         \<and> success1st (stats res) = 1 \<and> totalLatency (stats res) = 16)"
proof -
  have h: "nodeCount cfg_single = 1" "packetGenMode cfg_single = INTERVAL"
    "1 \<le> packetInterval cfg_single" "1 \<le> dataSlots cfg_single" "0 \<le> pe cfg_single"
    by (simp_all add: cfg_single_def)
  have c: "first_backoff cfg_single rnd_zero = 0"
    by (simp add: first_backoff_def cfg_single_def rnd_zero_def)
  have n16: "nat (1 + first_backoff cfg_single rnd_zero + (3 + dataSlots cfg_single + 2)) = 16"
    and n17: "Suc (nat (1 + first_backoff cfg_single rnd_zero + (3 + dataSlots cfg_single + 2))) = 17"
    and l16: "1 + first_backoff cfg_single rnd_zero + (3 + dataSlots cfg_single + 2) = 16"
    by (simp_all add: c cfg_single_fields)
  note T = first_packet_latency_single_node[OF h is_random_zero]
  from T have "\<forall>k \<le> nat (1 + first_backoff cfg_single rnd_zero + (3 + dataSlots cfg_single + 2)).
      \<exists>ns rs. ticks cfg_single rnd_zero k (init_state cfg_single) = Some (ns, rs)
        \<and> successCount (stats rs) = 0" by (rule conjunct1)
  then have "\<forall>k \<le> 16. \<exists>ns rs. ticks cfg_single rnd_zero k (init_state cfg_single) = Some (ns, rs)
        \<and> successCount (stats rs) = 0" unfolding n16 .
  then have A: "\<exists>ns rs. ticks cfg_single rnd_zero 16 (init_state cfg_single) = Some (ns, rs)
         \<and> successCount (stats rs) = 0" by simp
  from T have "\<exists>ns rs. ticks cfg_single rnd_zero
        (Suc (nat (1 + first_backoff cfg_single rnd_zero + (3 + dataSlots cfg_single + 2)))) (init_state cfg_single)
        = Some (ns, rs) \<and> successCount (stats rs) = 1 \<and> success1st (stats rs) = 1
         \<and> totalLatency (stats rs) = 1 + first_backoff cfg_single rnd_zero + (3 + dataSlots cfg_single + 2)"
    by (rule conjunct2[THEN conjunct1])
  then have "\<exists>ns rs. ticks cfg_single rnd_zero 17 (init_state cfg_single)
        = Some (ns, rs) \<and> successCount (stats rs) = 1 \<and> success1st (stats rs) = 1
         \<and> totalLatency (stats rs) = 1 + first_backoff cfg_single rnd_zero + (3 + dataSlots cfg_single + 2)"
    unfolding n17 .
  then have B: "\<exists>ns rs. ticks cfg_single rnd_zero 17 (init_state cfg_single) = Some (ns, rs)
         \<and> successCount (stats rs) = 1 \<and> success1st (stats rs) = 1
         \<and> totalLatency (stats rs) = 16" unfolding l16 .
  from T cfg_single_fields have C: "\<exists>res. runSimulation cfg_single rnd_zero = Some res
         \<and> success1st (stats res) = 1 \<and> totalLatency (stats res) = 16" by blast
  from h is_random_zero c A B C show ?thesis by (intro conjI)
qed

text \<open>
  C4 as stated fails: in the scenario the latency is 16, not 15.
\<close>

theorem single_packet_latency_is_16:
  "map_option (totalLatency \<circ> stats) (runSimulation cfg_single rnd_zero) = Some 16
   \<and> map_option (success1st \<circ> stats) (runSimulation cfg_single rnd_zero) = Some 1"
  using single_run[OF cfg_single_fields is_random_zero] by auto

text \<open>
  C5. For two nodes, \<open>INTERVAL\<close> mode, \<open>packetInterval = 1000\<close>, \<open>pe = 0\<close>,
  \<open>minBe = maxBe = 0\<close>, \<open>maxNb = 0\<close>, \<open>dataSlots = 3\<close> and \<open>simDuration = 40\<close>, whatever the
  other fields and whatever \<open>Math.random()\<close> returns in \<open>[0, 1)\<close>: the run ends with
  \<open>failureCount = 2\<close>, \<open>successCount = 0\<close> and \<open>collisionCount = 2\<close>; it logs one overlap
  per node (in tick 2, the first tick of the lockstep transmission) and one drop per node.
\<close>

theorem lockstep_collision_drops_both:
  assumes "nodeCount cfg = 2" "packetGenMode cfg = INTERVAL" "packetInterval cfg = 1000"
    "pe cfg = 0" "minBe cfg = 0" "maxBe cfg = 0" "maxNb cfg = 0" "dataSlots cfg = 3"
    "simDuration cfg = 40"
    and "is_random rnd"
  shows "\<exists>res. runSimulation cfg rnd = Some res
           \<and> failureCount (stats res) = 2 \<and> successCount (stats res) = 0
           \<and> collisionCount (stats res) = 2
           \<and> filter (\<lambda>e. ltype e = LOG_COLLISION) (logs res)
              = [\<lparr>tick = 2, nodeId = 0, ltype = LOG_COLLISION, message = ''Signal overlap detected''\<rparr>,
                 \<lparr>tick = 2, nodeId = 1, ltype = LOG_COLLISION, message = ''Signal overlap detected''\<rparr>]
           \<and> filter (\<lambda>e. ltype e = LOG_DROP) (logs res)
              = [\<lparr>tick = 9, nodeId = 0, ltype = LOG_DROP,
                   message = ''Max retries (0) reached. Dropping packet.''\<rparr>,
                 \<lparr>tick = 9, nodeId = 1, ltype = LOG_DROP,
                   message = ''Max retries (0) reached. Dropping packet.''\<rparr>]"
  unfolding runSimulation_def
  by (simp add: assms(1-9) is_random_floor[OF assms(10)] run_loop.simps eval_defs upto.simps)

theorem lockstep_collision_drops_both_witness:
  "nodeCount cfg_lockstep = 2 \<and> packetGenMode cfg_lockstep = INTERVAL
   \<and> packetInterval cfg_lockstep = 1000 \<and> pe cfg_lockstep = 0 \<and> minBe cfg_lockstep = 0
   \<and> maxBe cfg_lockstep = 0 \<and> maxNb cfg_lockstep = 0 \<and> dataSlots cfg_lockstep = 3
   \<and> simDuration cfg_lockstep = 40 \<and> is_random rnd_zero
   \<and> (\<exists>res. runSimulation cfg_lockstep rnd_zero = Some res
           \<and> failureCount (stats res) = 2 \<and> successCount (stats res) = 0
           \<and> collisionCount (stats res) = 2)"
proof -
  have h: "nodeCount cfg_lockstep = 2" "packetGenMode cfg_lockstep = INTERVAL"
    "packetInterval cfg_lockstep = 1000" "pe cfg_lockstep = 0" "minBe cfg_lockstep = 0"
    "maxBe cfg_lockstep = 0" "maxNb cfg_lockstep = 0" "dataSlots cfg_lockstep = 3"
    "simDuration cfg_lockstep = 40"
    by (simp_all add: cfg_lockstep_def)
  from lockstep_collision_drops_both[OF h is_random_zero]
  have "\<exists>res. runSimulation cfg_lockstep rnd_zero = Some res
           \<and> failureCount (stats res) = 2 \<and> successCount (stats res) = 0
           \<and> collisionCount (stats res) = 2" by blast
  with h is_random_zero show ?thesis by (intro conjI)
qed

text \<open>
  C6. Every run returns, and at its end \<open>success1st + success2nd + success3rd\<close> is
  \<open>successCount\<close>. The retry count \<open>nb\<close> of a node is never negative at a tick
  boundary. A call of the state machine for a node that completes its acknowledgement
  undoomed increments \<open>successCount\<close> and exactly one bucket, chosen by \<open>nb\<close> of the node
  (\<open>0\<close>: \<open>success1st\<close>, \<open>1\<close>: \<open>success2nd\<close>, \<open>2\<close> or more: \<open>success3rd\<close>); every other call
  leaves the four counters as they are.
\<close>

theorem success_buckets_sum_to_successCount:
  "(\<exists>res. runSimulation cfg rnd = Some res
       \<and> success1st (stats res) + success2nd (stats res) + success3rd (stats res)
         = successCount (stats res))
   \<and> (\<forall>k. \<exists>ns rs. ticks cfg rnd k (init_state cfg) = Some (ns, rs) \<and> (\<forall>n \<in> set ns. 0 \<le> nb n))
   \<and> (\<forall>t busy collision n rs n' rs'.
         fsm_update cfg rnd t busy collision n rs = Some (n', rs') \<longrightarrow>
           (completes_ok n \<longrightarrow>
              successCount (stats rs') = successCount (stats rs) + 1
            \<and> (nb n = 0 \<longrightarrow>
                 success1st (stats rs') = success1st (stats rs) + 1
               \<and> success2nd (stats rs') = success2nd (stats rs)
               \<and> success3rd (stats rs') = success3rd (stats rs))
            \<and> (nb n = 1 \<longrightarrow>
                 success1st (stats rs') = success1st (stats rs)
               \<and> success2nd (stats rs') = success2nd (stats rs) + 1
               \<and> success3rd (stats rs') = success3rd (stats rs))
            \<and> (2 \<le> nb n \<longrightarrow>
                 success1st (stats rs') = success1st (stats rs)
               \<and> success2nd (stats rs') = success2nd (stats rs)
               \<and> success3rd (stats rs') = success3rd (stats rs) + 1))
         \<and> (\<not> completes_ok n \<longrightarrow> succ4 (stats rs') = succ4 (stats rs)))"
proof -
  obtain ns rs where fin: "ticks cfg rnd (nat (simDuration cfg)) (init_state cfg) = Some (ns, rs)"
    using ticks_init_total by blast
  let ?res = "\<lparr>timeline = timeline rs, logs = logs rs, stats = stats rs, duration = simDuration cfg\<rparr>"
  have run: "runSimulation cfg rnd = Some ?res"
    by (simp add: runSimulation_ticks fin)
  from ticks_buckets[OF fin buckets_ok_init]
  have "success1st (stats ?res) + success2nd (stats ?res) + success3rd (stats ?res)
         = successCount (stats ?res)"
    by (simp add: buckets_ok_def)
  with run have A: "\<exists>res. runSimulation cfg rnd = Some res
       \<and> success1st (stats res) + success2nd (stats res) + success3rd (stats res)
         = successCount (stats res)" by blast
  have B: "\<exists>ns rs. ticks cfg rnd k (init_state cfg) = Some (ns, rs) \<and> (\<forall>n \<in> set ns. 0 \<le> nb n)" for k
    using ticks_init_total[of cfg rnd k] ticks_nb by blast
  have C: "(completes_ok n \<longrightarrow>
              successCount (stats rs') = successCount (stats rs) + 1
            \<and> (nb n = 0 \<longrightarrow>
                 success1st (stats rs') = success1st (stats rs) + 1
               \<and> success2nd (stats rs') = success2nd (stats rs)
               \<and> success3rd (stats rs') = success3rd (stats rs))
            \<and> (nb n = 1 \<longrightarrow>
                 success1st (stats rs') = success1st (stats rs)
               \<and> success2nd (stats rs') = success2nd (stats rs) + 1
               \<and> success3rd (stats rs') = success3rd (stats rs))
            \<and> (2 \<le> nb n \<longrightarrow>
                 success1st (stats rs') = success1st (stats rs)
               \<and> success2nd (stats rs') = success2nd (stats rs)
               \<and> success3rd (stats rs') = success3rd (stats rs) + 1))
         \<and> (\<not> completes_ok n \<longrightarrow> succ4 (stats rs') = succ4 (stats rs))"
    if "fsm_update cfg rnd t busy collision n rs = Some (n', rs')"
    for t busy collision n rs n' rs'
    using fsm_update_succ4[OF that]
    by (auto simp: succ4_def credit_def split: if_splits)
  from A B C show ?thesis by blast
qed

theorem success_buckets_sum_to_successCount_witness:
  "(\<exists>res. runSimulation DEFAULT_CONFIG rnd_zero = Some res
       \<and> success1st (stats res) + success2nd (stats res) + success3rd (stats res)
         = successCount (stats res))
   \<and> completes_ok ack_node \<and> nb ack_node = 0
   \<and> (\<exists>n' rs'. fsm_update DEFAULT_CONFIG rnd_zero 16 True False ack_node one_row = Some (n', rs')
         \<and> successCount (stats rs') = 1 \<and> success1st (stats rs') = 1
         \<and> success2nd (stats rs') = 0 \<and> success3rd (stats rs') = 0)"
proof -
  note T = success_buckets_sum_to_successCount[of DEFAULT_CONFIG rnd_zero]
  from ack_node_step obtain n' rs'
    where f: "fsm_update DEFAULT_CONFIG rnd_zero 16 True False ack_node one_row = Some (n', rs')"
    by blast
  have ok: "completes_ok ack_node" and nb0: "nb ack_node = 0"
    by (simp_all add: completes_ok_def ack_node_def LEN_ACK_P_def LEN_ACK_FC_def)
  from T f ok nb0
  have "successCount (stats rs') = successCount (stats one_row) + 1
      \<and> success1st (stats rs') = success1st (stats one_row) + 1
      \<and> success2nd (stats rs') = success2nd (stats one_row)
      \<and> success3rd (stats rs') = success3rd (stats one_row)"
    by blast
  then have "successCount (stats rs') = 1 \<and> success1st (stats rs') = 1
         \<and> success2nd (stats rs') = 0 \<and> success3rd (stats rs') = 0"
    by (simp add: one_row_def init_stats_def)
  with T f ok nb0 show ?thesis by blast
qed

text \<open>
  C7, as the code has it. In every tick of every run, a node that enters \<open>TX_PREAMBLE\<close>
  does so with no transmitter on the channel, and either from \<open>SENSING\<close> with a backoff
  draw of \<open>0\<close>, or from \<open>BACKOFF\<close> or \<open>BACKOFF_PAUSED\<close> with a \<open>backoffCounter\<close> of at
  most \<open>1\<close>, which the step leaves as it is; in the latter case the timeline cell of the
  node for that tick shows \<open>BACKOFF\<close> with the counter as its \<open>info\<close>, also for a node
  that was paused.
\<close>

theorem tx_preamble_entered_from_sensing_or_backoff:
  "\<forall>k. \<exists>ns rs ns' rs'.
      ticks cfg rnd k (init_state cfg) = Some (ns, rs)
    \<and> ticks cfg rnd (Suc k) (init_state cfg) = Some (ns', rs')
    \<and> length ns' = length ns
    \<and> (\<forall>i < length ns.
          state (ns' ! i) = TX_PREAMBLE \<and> state (ns ! i) \<noteq> TX_PREAMBLE \<longrightarrow>
            \<not> physicalBusy ns
          \<and> (state (ns ! i) = SENSING \<and> backoffCounter (ns' ! i) = 0
             \<or> (state (ns ! i) = BACKOFF \<or> state (ns ! i) = BACKOFF_PAUSED)
               \<and> backoffCounter (ns ! i) \<le> 1
               \<and> backoffCounter (ns' ! i) = backoffCounter (ns ! i)
               \<and> (\<exists>row. timeline rs' (node_id (ns ! i)) = Some (row @
                     [\<lparr>cell_state = BACKOFF, info = Some (backoffCounter (ns ! i)),
                       isCollision = False\<rparr>]))))"
proof
  fix k
  obtain ns rs where a: "ticks cfg rnd k (init_state cfg) = Some (ns, rs)"
    using ticks_init_total by blast
  obtain ns' rs' where b: "ticks cfg rnd (Suc k) (init_state cfg) = Some (ns', rs')"
    using ticks_init_total by blast
  from a b have lb: "loop_body cfg rnd (int k) (ns, rs) = Some (ns', rs')" by simp
  from ticks_ids[OF a] have ids: "map node_id ns = [0..nodeCount cfg - 1]" .
  then have d: "distinct (map node_id ns)" by simp
  from ids ticks_ids[OF b] have "map node_id ns' = map node_id ns" by simp
  then have len: "length ns' = length ns" by (rule map_eq_imp_length_eq)
  have step: "\<not> physicalBusy ns
          \<and> (state (ns ! i) = SENSING \<and> backoffCounter (ns' ! i) = 0
             \<or> (state (ns ! i) = BACKOFF \<or> state (ns ! i) = BACKOFF_PAUSED)
               \<and> backoffCounter (ns ! i) \<le> 1
               \<and> backoffCounter (ns' ! i) = backoffCounter (ns ! i)
               \<and> (\<exists>row. timeline rs' (node_id (ns ! i)) = Some (row @
                     [\<lparr>cell_state = BACKOFF, info = Some (backoffCounter (ns ! i)),
                       isCollision = False\<rparr>])))"
    if i: "i < length ns" and tp: "state (ns' ! i) = TX_PREAMBLE" and np: "state (ns ! i) \<noteq> TX_PREAMBLE"
    for i
  proof -
    from loop_body_node[OF lb d i] obtain m r0 r1 where
      same: "same_but_nav (ns ! i) m"
      and f: "fsm_update cfg rnd (int k) (physicalBusy ns) (collisionOccurring ns) m r0 = Some (ns' ! i, r1)"
      and tl: "timeline rs' (node_id (ns ! i)) = timeline r1 (node_id (ns ! i))"
      by blast
    from same have m: "state m = state (ns ! i)" "backoffCounter m = backoffCounter (ns ! i)"
      "node_id m = node_id (ns ! i)" by (simp_all add: same_but_nav_def)
    from f obtain n1 rs1 rs2 c2 rs3 where
      arr: "n1 = m \<and> stats rs2 = stats rs1 \<or> (n1, rs2) = packet_arrival (int k) m rs1"
      and tr: "transition cfg rnd (int k) (physicalBusy ns) n1 (state m, None) rs2 = (ns' ! i, c2, rs3)"
      by (rule fsm_update_arrivalE)
    from arr m have n1: "state n1 = state (ns ! i) \<and> backoffCounter n1 = backoffCounter (ns ! i)"
      by (auto simp: packet_arrival_def Let_def)
    from transition_into_preamble[OF tr tp] n1 np
    have 1: "\<not> physicalBusy ns
       \<and> (state (ns ! i) = SENSING \<and> backoffCounter (ns' ! i) = 0
          \<or> (state (ns ! i) = BACKOFF \<or> state (ns ! i) = BACKOFF_PAUSED)
            \<and> backoffCounter (ns ! i) \<le> 1 \<and> backoffCounter (ns' ! i) = backoffCounter (ns ! i))"
      by auto
    show ?thesis
    proof (cases "state (ns ! i) = BACKOFF \<or> state (ns ! i) = BACKOFF_PAUSED")
      case True
      with m have "state m = BACKOFF \<or> state m = BACKOFF_PAUSED" by simp
      from fsm_update_backoff_cell[OF f this tp] m tl
      have "\<exists>row. timeline rs' (node_id (ns ! i)) = Some (row @
                     [\<lparr>cell_state = BACKOFF, info = Some (backoffCounter (ns ! i)),
                       isCollision = False\<rparr>])"
        by auto
      with 1 True show ?thesis by simp
    next
      case False
      with 1 show ?thesis by simp
    qed
  qed
  from a b len step show "\<exists>ns rs ns' rs'.
      ticks cfg rnd k (init_state cfg) = Some (ns, rs)
    \<and> ticks cfg rnd (Suc k) (init_state cfg) = Some (ns', rs')
    \<and> length ns' = length ns
    \<and> (\<forall>i < length ns.
          state (ns' ! i) = TX_PREAMBLE \<and> state (ns ! i) \<noteq> TX_PREAMBLE \<longrightarrow>
            \<not> physicalBusy ns
          \<and> (state (ns ! i) = SENSING \<and> backoffCounter (ns' ! i) = 0
             \<or> (state (ns ! i) = BACKOFF \<or> state (ns ! i) = BACKOFF_PAUSED)
               \<and> backoffCounter (ns ! i) \<le> 1
               \<and> backoffCounter (ns' ! i) = backoffCounter (ns ! i)
               \<and> (\<exists>row. timeline rs' (node_id (ns ! i)) = Some (row @
                     [\<lparr>cell_state = BACKOFF, info = Some (backoffCounter (ns ! i)),
                       isCollision = False\<rparr>]))))"
    by blast
qed

theorem tx_preamble_entered_from_sensing_or_backoff_witness:
  "\<exists>ns rs ns' rs' row.
      ticks cfg_pause rnd_pause 8 (init_state cfg_pause) = Some (ns, rs)
    \<and> ticks cfg_pause rnd_pause 9 (init_state cfg_pause) = Some (ns', rs')
    \<and> state (ns' ! 1) = TX_PREAMBLE \<and> state (ns ! 1) = BACKOFF_PAUSED
    \<and> \<not> physicalBusy ns \<and> backoffCounter (ns ! 1) \<le> 1
    \<and> backoffCounter (ns' ! 1) = backoffCounter (ns ! 1)
    \<and> timeline rs' (node_id (ns ! 1)) = Some (row @
         [\<lparr>cell_state = BACKOFF, info = Some (backoffCounter (ns ! 1)), isCollision = False\<rparr>])"
proof -
  have nine: "Suc 8 = 9" by simp
  from tx_preamble_entered_from_sensing_or_backoff[of cfg_pause rnd_pause, rule_format, of 8]
  obtain ns rs ns' rs' where
    a: "ticks cfg_pause rnd_pause 8 (init_state cfg_pause) = Some (ns, rs)"
    and b: "ticks cfg_pause rnd_pause 9 (init_state cfg_pause) = Some (ns', rs')"
    and len: "length ns' = length ns"
    and step: "\<forall>i < length ns.
          state (ns' ! i) = TX_PREAMBLE \<and> state (ns ! i) \<noteq> TX_PREAMBLE \<longrightarrow>
            \<not> physicalBusy ns
          \<and> (state (ns ! i) = SENSING \<and> backoffCounter (ns' ! i) = 0
             \<or> (state (ns ! i) = BACKOFF \<or> state (ns ! i) = BACKOFF_PAUSED)
               \<and> backoffCounter (ns ! i) \<le> 1
               \<and> backoffCounter (ns' ! i) = backoffCounter (ns ! i)
               \<and> (\<exists>row. timeline rs' (node_id (ns ! i)) = Some (row @
                     [\<lparr>cell_state = BACKOFF, info = Some (backoffCounter (ns ! i)),
                       isCollision = False\<rparr>])))"
    unfolding nine by blast
  from pause_run_states a b have st: "map state ns = [IDLE, BACKOFF_PAUSED]"
    and st': "map state ns' = [IDLE, TX_PREAMBLE]" by simp_all
  from st have l: "length ns = 2" by (metis length_map length_Cons list.size(3) numeral_2_eq_2)
  from st l have s1: "state (ns ! 1) = BACKOFF_PAUSED"
    by (metis nth_map nth_Cons_0 nth_Cons_Suc One_nat_def one_less_numeral_iff semiring_norm(76))
  from st' l len have s1': "state (ns' ! 1) = TX_PREAMBLE"
    by (metis nth_map nth_Cons_0 nth_Cons_Suc One_nat_def one_less_numeral_iff semiring_norm(76))
  from step[rule_format, of 1] l s1 s1' obtain row where
    c: "\<not> physicalBusy ns" "backoffCounter (ns ! 1) \<le> 1"
      "backoffCounter (ns' ! 1) = backoffCounter (ns ! 1)"
    and row: "timeline rs' (node_id (ns ! 1)) = Some (row @
         [\<lparr>cell_state = BACKOFF, info = Some (backoffCounter (ns ! 1)), isCollision = False\<rparr>])"
    by auto
  from a b s1 s1' c row show ?thesis
    by (intro exI[of _ ns] exI[of _ rs] exI[of _ ns'] exI[of _ rs'] exI[of _ row] conjI)
qed

text \<open>
  C7 as stated fails: in the two-node run below, node 1 is paused with counter \<open>1\<close> while
  node 0 transmits, and steps from \<open>BACKOFF_PAUSED\<close> to \<open>TX_PREAMBLE\<close> in tick 8.
\<close>

theorem paused_node_steps_to_tx_preamble:
  "map_option (map state \<circ> fst) (ticks cfg_pause rnd_pause 8 (init_state cfg_pause))
     = Some [IDLE, BACKOFF_PAUSED]
   \<and> map_option (map state \<circ> fst) (ticks cfg_pause rnd_pause 9 (init_state cfg_pause))
     = Some [IDLE, TX_PREAMBLE]"
  by (rule pause_run_states)

text \<open>
  C8. The carrier-sense step of a tick, for flags \<open>preambleActive\<close>, \<open>fcActive\<close> and
  \<open>collision\<close>: a transmitter is left as it is; every other node gets the NAV
  \<open>nav_next\<close> (the maximum with \<open>collisionPenalty\<close> if a preamble is active, overwritten
  by \<open>dataSlots + 3\<close> if a frame control is active without collision, then decremented if
  positive), and the step logs \<open>nav_logs\<close> for it (a "Heard Preamble" entry exactly when
  a preamble is active and its NAV on entry was \<open>0\<close>, a "Decoded FC" entry when a frame
  control is active without collision). In a tick the step runs with the flags of the
  labels at the start of the tick, on the NAV the nodes have at the start of the tick.
\<close>

theorem nav_update_of_non_transmitters:
  "forEach (nav_update cfg t preambleActive fcActive collision) ns rs
     = (map (\<lambda>n. if is_tx_state (state n) then n
                  else n\<lparr>vcs := nav_next cfg preambleActive fcActive collision (vcs n)\<rparr>) ns,
        rs\<lparr>logs := logs rs @ concat (map (nav_logs cfg t preambleActive fcActive collision) ns)\<rparr>)
   \<and> map vcs (fst (perceive cfg t ns rs))
     = map (\<lambda>n. if is_tx_state (state n) then vcs n
                 else nav_next cfg (\<exists>m \<in> set ns. state m = TX_PREAMBLE)
                        (\<exists>m \<in> set ns. state m = TX_FC)
                        (1 < length (filter (\<lambda>m. is_tx_state (state m)) ns)) (vcs n)) ns"
  using forEach_nav_update[of cfg t preambleActive fcActive collision ns rs] perceive_vcs[of cfg t ns rs]
  by (simp add: flags_in_words)

theorem nav_update_of_non_transmitters_witness:
  "forEach (nav_update DEFAULT_CONFIG 2 True False False) [preamble_node, listener_node] one_row
     = ([preamble_node, listener_node\<lparr>vcs := 39\<rparr>],
        one_row\<lparr>logs := [\<lparr>tick = 2, nodeId = 1, ltype = LOG_VCS,
                             message = ''Heard Preamble, VCS set to 40''\<rparr>]\<rparr>)
   \<and> forEach (nav_update DEFAULT_CONFIG 3 False True False) [fc_node, listener_node\<lparr>vcs := 39\<rparr>] one_row
     = ([fc_node, listener_node\<lparr>vcs := 12\<rparr>],
        one_row\<lparr>logs := [\<lparr>tick = 3, nodeId = 1, ltype = LOG_VCS,
                             message = ''Decoded FC, NAV set to 13''\<rparr>]\<rparr>)
   \<and> map vcs (fst (perceive DEFAULT_CONFIG 2 [preamble_node, listener_node] one_row)) = [0, 39]"
proof -
  have 1: "forEach (nav_update DEFAULT_CONFIG 2 True False False) [preamble_node, listener_node] one_row
     = ([preamble_node, listener_node\<lparr>vcs := 39\<rparr>],
        one_row\<lparr>logs := [\<lparr>tick = 2, nodeId = 1, ltype = LOG_VCS,
                             message = ''Heard Preamble, VCS set to 40''\<rparr>]\<rparr>)"
    using nav_update_of_non_transmitters[of DEFAULT_CONFIG 2 True False False "[preamble_node, listener_node]" one_row]
    by (simp add: nav_next_def nav_logs_def is_tx_state_def preamble_node_def listener_node_def
        one_row_def DEFAULT_CONFIG_def show_int_def show_nat_digit show_nat_step digit_char_def)
  have 2: "forEach (nav_update DEFAULT_CONFIG 3 False True False) [fc_node, listener_node\<lparr>vcs := 39\<rparr>] one_row
     = ([fc_node, listener_node\<lparr>vcs := 12\<rparr>],
        one_row\<lparr>logs := [\<lparr>tick = 3, nodeId = 1, ltype = LOG_VCS,
                             message = ''Decoded FC, NAV set to 13''\<rparr>]\<rparr>)"
    using nav_update_of_non_transmitters[of DEFAULT_CONFIG 3 False True False "[fc_node, listener_node\<lparr>vcs := 39\<rparr>]" one_row]
    by (simp add: nav_next_def nav_logs_def is_tx_state_def fc_node_def listener_node_def
        one_row_def DEFAULT_CONFIG_def show_int_def show_nat_digit show_nat_step digit_char_def)
  have 3: "map vcs (fst (perceive DEFAULT_CONFIG 2 [preamble_node, listener_node] one_row)) = [0, 39]"
    using nav_update_of_non_transmitters[of DEFAULT_CONFIG 2 True False False "[preamble_node, listener_node]" one_row]
    by (simp add: nav_next_def is_tx_state_def preamble_node_def listener_node_def DEFAULT_CONFIG_def)
  from 1 2 3 show ?thesis by (intro conjI)
qed

text \<open>
  C9. At every tick boundary of every run, a node whose label is neither \<open>IDLE\<close> nor
  \<open>FAILED\<close> has a packet in its queue, and so has every node when the state machine is
  run on it (after the channel and carrier-sense phases of the tick). For such a node, the
  call of the state machine that completes its acknowledgement undoomed finds a birth tick
  at the head of the queue and adds \<open>t - birthTick\<close> to \<open>totalLatency\<close>: the branch for an
  undefined birth tick is not taken.
\<close>

theorem busy_nodes_have_a_packet:
  "(\<forall>k. \<exists>ns rs. ticks cfg rnd k (init_state cfg) = Some (ns, rs)
        \<and> (\<forall>n \<in> set ns. state n \<noteq> IDLE \<and> state n \<noteq> FAILED \<longrightarrow> packetQueue n \<noteq> [])
        \<and> (\<forall>n \<in> set (fst (perceive cfg (int k) ns rs)).
              state n \<noteq> IDLE \<and> state n \<noteq> FAILED \<longrightarrow> packetQueue n \<noteq> []))
   \<and> (\<forall>t busy collision n rs n' rs'.
         (state n \<noteq> IDLE \<and> state n \<noteq> FAILED \<longrightarrow> packetQueue n \<noteq> [])
         \<and> completes_ok n
         \<and> fsm_update cfg rnd t busy collision n rs = Some (n', rs') \<longrightarrow>
           (\<exists>birthTick rest. packetQueue n = birthTick # rest
              \<and> totalLatency (stats rs') = totalLatency (stats rs) + (t - birthTick)))"
proof -
  have A: "\<exists>ns rs. ticks cfg rnd k (init_state cfg) = Some (ns, rs)
        \<and> (\<forall>n \<in> set ns. state n \<noteq> IDLE \<and> state n \<noteq> FAILED \<longrightarrow> packetQueue n \<noteq> [])
        \<and> (\<forall>n \<in> set (fst (perceive cfg (int k) ns rs)).
              state n \<noteq> IDLE \<and> state n \<noteq> FAILED \<longrightarrow> packetQueue n \<noteq> [])" for k
  proof -
    obtain ns rs where t: "ticks cfg rnd k (init_state cfg) = Some (ns, rs)"
      using ticks_init_total by blast
    from ticks_queue_inv[OF t] perceive_queue_inv[OF ticks_queue_inv[OF t], of cfg "int k" rs] t
    show ?thesis unfolding queue_inv_def by blast
  qed
  have B: "\<exists>birthTick rest. packetQueue n = birthTick # rest
              \<and> totalLatency (stats rs') = totalLatency (stats rs) + (t - birthTick)"
    if "state n \<noteq> IDLE \<and> state n \<noteq> FAILED \<longrightarrow> packetQueue n \<noteq> []" "completes_ok n"
       "fsm_update cfg rnd t busy collision n rs = Some (n', rs')"
    for t busy collision n rs n' rs'
    using fsm_update_success_latency[OF _ that(3) that(2)] that(1) by (simp add: queue_inv_def)
  from A B show ?thesis by blast
qed

theorem busy_nodes_have_a_packet_witness:
  "(\<exists>ns rs. ticks DEFAULT_CONFIG rnd_zero 2 (init_state DEFAULT_CONFIG) = Some (ns, rs)
      \<and> map state ns = [BACKOFF, BACKOFF, BACKOFF, BACKOFF]
      \<and> (\<forall>n \<in> set ns. packetQueue n \<noteq> []))
   \<and> completes_ok ack_node \<and> packetQueue ack_node = [0]
   \<and> (\<exists>n' rs'. fsm_update DEFAULT_CONFIG rnd_zero 16 True False ack_node one_row = Some (n', rs')
         \<and> totalLatency (stats rs') = 16)"
proof -
  note T = busy_nodes_have_a_packet[of DEFAULT_CONFIG rnd_zero]
  from T obtain ns rs where t: "ticks DEFAULT_CONFIG rnd_zero 2 (init_state DEFAULT_CONFIG) = Some (ns, rs)"
    and inv: "\<forall>n \<in> set ns. state n \<noteq> IDLE \<and> state n \<noteq> FAILED \<longrightarrow> packetQueue n \<noteq> []"
    by blast
  have "\<exists>ns rs. ticks DEFAULT_CONFIG rnd_zero 2 (init_state DEFAULT_CONFIG) = Some (ns, rs)
      \<and> map state ns = [BACKOFF, BACKOFF, BACKOFF, BACKOFF]"
    by (simp add: eval_nat_numeral DEFAULT_CONFIG_def rnd_zero_def eval_defs upto.simps)
  with t have st: "map state ns = [BACKOFF, BACKOFF, BACKOFF, BACKOFF]" by auto
  have "\<forall>n \<in> set ns. state n = BACKOFF"
  proof
    fix n assume "n \<in> set ns"
    then have "state n \<in> set (map state ns)" by simp
    with st show "state n = BACKOFF" by simp
  qed
  with inv have q: "\<forall>n \<in> set ns. packetQueue n \<noteq> []" by auto
  from ack_node_step obtain n' rs'
    where f: "fsm_update DEFAULT_CONFIG rnd_zero 16 True False ack_node one_row = Some (n', rs')"
    by blast
  have ok: "completes_ok ack_node" and pq: "packetQueue ack_node = [0]"
    by (simp_all add: completes_ok_def ack_node_def LEN_ACK_P_def LEN_ACK_FC_def)
  have ne: "state ack_node \<noteq> IDLE \<and> state ack_node \<noteq> FAILED \<longrightarrow> packetQueue ack_node \<noteq> []"
    by (simp add: ack_node_def)
  from T f ok ne
  have "\<exists>birthTick rest. packetQueue ack_node = birthTick # rest
              \<and> totalLatency (stats rs') = totalLatency (stats one_row) + (16 - birthTick)"
    by blast
  with pq have "totalLatency (stats rs') = 16" by (simp add: one_row_def init_stats_def)
  with f have B: "\<exists>n' rs'. fsm_update DEFAULT_CONFIG rnd_zero 16 True False ack_node one_row = Some (n', rs')
         \<and> totalLatency (stats rs') = 16"
    by (intro exI[of _ n'] exI[of _ rs'] conjI)
  from t st q have A: "\<exists>ns rs. ticks DEFAULT_CONFIG rnd_zero 2 (init_state DEFAULT_CONFIG) = Some (ns, rs)
      \<and> map state ns = [BACKOFF, BACKOFF, BACKOFF, BACKOFF]
      \<and> (\<forall>n \<in> set ns. packetQueue n \<noteq> [])"
    by (intro exI[of _ ns] exI[of _ rs] conjI)
  from A ok pq B show ?thesis by (intro conjI)
qed

text \<open>
  C10. For a configuration with \<open>pe\<close> not negative and draws of \<open>Math.random()\<close> in
  \<open>[0, 1)\<close>: at every tick boundary of every run, a node whose label is \<open>BACKOFF\<close> or
  \<open>BACKOFF_PAUSED\<close> has a \<open>backoffCounter\<close> of at least \<open>1\<close>, and every timeline cell
  whose state is \<open>BACKOFF\<close> or \<open>BACKOFF_PAUSED\<close> carries an \<open>info\<close> of at least \<open>1\<close>.
\<close>

theorem backoff_counter_at_least_one:
  assumes "0 \<le> pe cfg" and "is_random rnd"
  shows "\<forall>k. \<exists>ns rs. ticks cfg rnd k (init_state cfg) = Some (ns, rs)
          \<and> (\<forall>n \<in> set ns. state n = BACKOFF \<or> state n = BACKOFF_PAUSED \<longrightarrow> 1 \<le> backoffCounter n)
          \<and> (\<forall>i row. timeline rs i = Some row \<longrightarrow>
                (\<forall>c \<in> set row. cell_state c = BACKOFF \<or> cell_state c = BACKOFF_PAUSED
                   \<longrightarrow> (\<exists>v. info c = Some v \<and> 1 \<le> v)))"
proof
  fix k
  from assms(2) have rnd: "\<forall>k. 0 \<le> rnd k" by (simp add: is_random_def)
  obtain ns rs where t: "ticks cfg rnd k (init_state cfg) = Some (ns, rs)"
    using ticks_init_total by blast
  from ticks_backoff_inv[OF assms(1) rnd t] ticks_cells_ok[OF assms(1) rnd t] t
  show "\<exists>ns rs. ticks cfg rnd k (init_state cfg) = Some (ns, rs)
          \<and> (\<forall>n \<in> set ns. state n = BACKOFF \<or> state n = BACKOFF_PAUSED \<longrightarrow> 1 \<le> backoffCounter n)
          \<and> (\<forall>i row. timeline rs i = Some row \<longrightarrow>
                (\<forall>c \<in> set row. cell_state c = BACKOFF \<or> cell_state c = BACKOFF_PAUSED
                   \<longrightarrow> (\<exists>v. info c = Some v \<and> 1 \<le> v)))"
    unfolding backoff_inv_def cells_ok_def cell_ok_def by blast
qed

theorem backoff_counter_at_least_one_witness:
  "0 \<le> pe DEFAULT_CONFIG \<and> is_random rnd_zero
   \<and> (\<exists>ns rs row. ticks DEFAULT_CONFIG rnd_zero 3 (init_state DEFAULT_CONFIG) = Some (ns, rs)
         \<and> map state ns = [BACKOFF, BACKOFF, BACKOFF, BACKOFF]
         \<and> (\<forall>n \<in> set ns. 1 \<le> backoffCounter n)
         \<and> timeline rs 0 = Some row \<and> map cell_state row = [IDLE, SENSING, BACKOFF]
         \<and> (\<exists>v. info (last row) = Some v \<and> 1 \<le> v))"
proof -
  have pe: "0 \<le> pe DEFAULT_CONFIG" by (simp add: DEFAULT_CONFIG_def)
  have rnd: "is_random rnd_zero" by (simp add: is_random_def rnd_zero_def)
  from backoff_counter_at_least_one[OF pe rnd]
  obtain ns rs where t: "ticks DEFAULT_CONFIG rnd_zero 3 (init_state DEFAULT_CONFIG) = Some (ns, rs)"
    and inv: "\<forall>n \<in> set ns. state n = BACKOFF \<or> state n = BACKOFF_PAUSED \<longrightarrow> 1 \<le> backoffCounter n"
    and cells: "\<forall>i row. timeline rs i = Some row \<longrightarrow>
                (\<forall>c \<in> set row. cell_state c = BACKOFF \<or> cell_state c = BACKOFF_PAUSED
                   \<longrightarrow> (\<exists>v. info c = Some v \<and> 1 \<le> v))"
    by blast
  have "\<exists>ns rs row. ticks DEFAULT_CONFIG rnd_zero 3 (init_state DEFAULT_CONFIG) = Some (ns, rs)
      \<and> map state ns = [BACKOFF, BACKOFF, BACKOFF, BACKOFF]
      \<and> timeline rs 0 = Some row \<and> map cell_state row = [IDLE, SENSING, BACKOFF]"
    by (simp add: eval_nat_numeral DEFAULT_CONFIG_def rnd_zero_def eval_defs upto.simps)
  with t obtain row where st: "map state ns = [BACKOFF, BACKOFF, BACKOFF, BACKOFF]"
    and row: "timeline rs 0 = Some row" and cs: "map cell_state row = [IDLE, SENSING, BACKOFF]"
    by auto
  have "\<forall>n \<in> set ns. state n = BACKOFF"
  proof
    fix n assume "n \<in> set ns"
    then have "state n \<in> set (map state ns)" by simp
    with st show "state n = BACKOFF" by simp
  qed
  with inv have c1: "\<forall>n \<in> set ns. 1 \<le> backoffCounter n" by auto
  from cs have ne: "row \<noteq> []" by auto
  with cs have "cell_state (last row) = BACKOFF" by (simp add: last_map[symmetric])
  with cells row ne have c2: "\<exists>v. info (last row) = Some v \<and> 1 \<le> v"
    by (meson last_in_set)
  from t st c1 row cs c2
  have "\<exists>ns rs row. ticks DEFAULT_CONFIG rnd_zero 3 (init_state DEFAULT_CONFIG) = Some (ns, rs)
         \<and> map state ns = [BACKOFF, BACKOFF, BACKOFF, BACKOFF]
         \<and> (\<forall>n \<in> set ns. 1 \<le> backoffCounter n)
         \<and> timeline rs 0 = Some row \<and> map cell_state row = [IDLE, SENSING, BACKOFF]
         \<and> (\<exists>v. info (last row) = Some v \<and> 1 \<le> v)"
    by (intro exI[of _ ns] exI[of _ rs] exI[of _ row] conjI)
  with pe rnd show ?thesis by (intro conjI)
qed

end
